theory Spec2Isabelle
  imports Main
begin

section \<open>Strings as the script sees them\<close>

text \<open>
  A script string is modelled as a \<^typ>\<open>string\<close>, one \<^typ>\<open>char\<close> per code unit, so
  the development covers the code units below 256. The character classes of the regular
  expressions and of \<open>trim\<close> are written out on that range.
\<close>

definition is_ws :: "char \<Rightarrow> bool" where
  \<comment> \<open>\<open>\s\<close> and the characters removed by \<open>trim()\<close>: tab, LF, VT, FF, CR, space, NBSP.\<close>
  "is_ws c \<longleftrightarrow> c \<in> set [CHR 0x09, CHR 0x0A, CHR 0x0B, CHR 0x0C, CHR 0x0D, CHR 0x20, CHR 0xA0]"

definition is_line_terminator :: "char \<Rightarrow> bool" where
  \<comment> \<open>the characters that \<open>.\<close> does not match\<close>
  "is_line_terminator c \<longleftrightarrow> c \<in> set [CHR 0x0A, CHR 0x0D]"

definition is_digit :: "char \<Rightarrow> bool" where
  "is_digit c \<longleftrightarrow> c \<in> set ''0123456789''"

definition is_upper :: "char \<Rightarrow> bool" where
  "is_upper c \<longleftrightarrow> c \<in> set ''ABCDEFGHIJKLMNOPQRSTUVWXYZ''"

definition is_lower :: "char \<Rightarrow> bool" where
  "is_lower c \<longleftrightarrow> c \<in> set ''abcdefghijklmnopqrstuvwxyz''"

definition is_id_char :: "char \<Rightarrow> bool" where
  \<comment> \<open>\<open>[A-Za-z0-9_-]\<close>\<close>
  "is_id_char c \<longleftrightarrow> is_upper c \<or> is_lower c \<or> is_digit c \<or> c = CHR ''_'' \<or> c = CHR ''-''"

definition is_sep :: "char \<Rightarrow> bool" where
  \<comment> \<open>\<open>[ _-]\<close>\<close>
  "is_sep c \<longleftrightarrow> c = CHR '' '' \<or> c = CHR ''_'' \<or> c = CHR ''-''"

definition is_special :: "char \<Rightarrow> bool" where
  \<comment> \<open>\<open>[~^*'`+]\<close>\<close>
  "is_special c \<longleftrightarrow> c \<in> set [CHR ''~'', CHR ''^'', CHR ''*'', CHR 0x27, CHR 0x60, CHR ''+'']"

definition is_warning_char :: "char \<Rightarrow> bool" where
  \<comment> \<open>\<open>[+\-~`']\<close>\<close>
  "is_warning_char c \<longleftrightarrow> c \<in> set [CHR ''+'', CHR ''-'', CHR ''~'', CHR 0x60, CHR 0x27]"

definition trim :: "string \<Rightarrow> string" where
  "trim s = rev (dropWhile is_ws (rev (dropWhile is_ws s)))"

definition lower_char :: "char \<Rightarrow> char" where
  \<comment> \<open>\<open>toLowerCase\<close> on one code unit below 256: A-Z and the Latin-1 capitals move by 32.\<close>
  "lower_char c =
     (let n = (of_char c :: nat)
      in if (65 \<le> n \<and> n \<le> 90) \<or> (192 \<le> n \<and> n \<le> 222 \<and> n \<noteq> 215) then char_of (n + 32) else c)"

definition toLowerCase :: "string \<Rightarrow> string" where
  "toLowerCase s = map lower_char s"

fun replace_ws_runs :: "char \<Rightarrow> string \<Rightarrow> string" where
  \<comment> \<open>\<open>.replace(/\s+/g, r)\<close> for a one-character replacement \<open>r\<close>\<close>
  "replace_ws_runs r [] = []"
| "replace_ws_runs r [c] = [if is_ws c then r else c]"
| "replace_ws_runs r (c # d # cs) =
     (if is_ws c then (if is_ws d then replace_ws_runs r (d # cs) else r # replace_ws_runs r (d # cs))
      else c # replace_ws_runs r (d # cs))"

definition underscores_to_spaces :: "string \<Rightarrow> string" where
  \<comment> \<open>\<open>.replace(/_/g, " ")\<close>\<close>
  "underscores_to_spaces s = map (\<lambda>c. if c = CHR ''_'' then CHR '' '' else c) s"

definition slashes_to_hyphens :: "string \<Rightarrow> string" where
  \<comment> \<open>\<open>.replace(/\//g, "-")\<close>\<close>
  "slashes_to_hyphens s = map (\<lambda>c. if c = CHR ''/'' then CHR ''-'' else c) s"

definition strip_extension :: "string \<Rightarrow> string" where
  \<comment> \<open>\<open>.replace(/\.[^/.]+$/, "")\<close>: a final dot followed by one or more characters
      other than dot and slash is removed.\<close>
  "strip_extension s =
     (let r = rev s;
          ext = takeWhile (\<lambda>c. c \<noteq> CHR ''.'' \<and> c \<noteq> CHR ''/'') r;
          before = dropWhile (\<lambda>c. c \<noteq> CHR ''.'' \<and> c \<noteq> CHR ''/'') r
      in case before of
           [] \<Rightarrow> s
         | b # bs \<Rightarrow> if b = CHR ''.'' \<and> ext \<noteq> [] then rev bs else s)"

definition strip_trailing_space_hyphen :: "string \<Rightarrow> string" where
  \<comment> \<open>\<open>.replace(/[ -]+$/, "")\<close>\<close>
  "strip_trailing_space_hyphen s = rev (dropWhile (\<lambda>c. c = CHR '' '' \<or> c = CHR ''-'') (rev s))"

fun date_shape :: "string \<Rightarrow> bool" where
  \<comment> \<open>the whole string is \<open>\d{4}-\d{2}-\d{2}\<close>\<close>
  "date_shape [a, b, c, d, e, f, g, h, i, j] \<longleftrightarrow>
     is_digit a \<and> is_digit b \<and> is_digit c \<and> is_digit d \<and> e = CHR ''-'' \<and>
     is_digit f \<and> is_digit g \<and> h = CHR ''-'' \<and> is_digit i \<and> is_digit j"
| "date_shape _ \<longleftrightarrow> False"

definition id_fragment :: "string \<Rightarrow> bool" where
  \<comment> \<open>the whole string is \<open>[A-Za-z0-9_-]{10}\<close>\<close>
  "id_fragment s \<longleftrightarrow> length s = 10 \<and> list_all is_id_char s"

fun ext_ci :: "string \<Rightarrow> string \<Rightarrow> bool" where
  \<comment> \<open>a literal extension such as \<open>\.txt\<close> under the \<open>i\<close> flag: the pattern is given in
      lower case and each character matches itself or its capital.\<close>
  "ext_ci [] [] \<longleftrightarrow> True"
| "ext_ci (p # ps) (c # cs) \<longleftrightarrow> (c = p \<or> (is_upper c \<and> lower_char c = p)) \<and> ext_ci ps cs"
| "ext_ci _ _ \<longleftrightarrow> False"

subsection \<open>Lazy prefix groups\<close>

text \<open>
  The filename patterns all have the form \<open>^(.+?)TAIL\<close>. The lazy group takes the
  shortest non-empty prefix without a line terminator after which the tail matches; the
  tail returns its own capture.
\<close>

fun lazy_prefix :: "(string \<Rightarrow> 'a option) \<Rightarrow> string \<Rightarrow> string \<Rightarrow> (string \<times> 'a) option" where
  "lazy_prefix tl_match pre [] = map_option (Pair pre) (tl_match [])"
| "lazy_prefix tl_match pre (c # cs) =
     (case tl_match (c # cs) of
        Some r \<Rightarrow> Some (pre, r)
      | None \<Rightarrow> if is_line_terminator c then None else lazy_prefix tl_match (pre @ [c]) cs)"

definition anchored_lazy :: "(string \<Rightarrow> 'a option) \<Rightarrow> string \<Rightarrow> (string \<times> 'a) option" where
  "anchored_lazy tl_match s =
     (case s of
        [] \<Rightarrow> None
      | c # cs \<Rightarrow> if is_line_terminator c then None else lazy_prefix tl_match [c] cs)"

definition meet_tail :: "string \<Rightarrow> string option" where
  \<comment> \<open>\<open>[ _-]+(\d{4}-\d{2}-\d{2}).*$\<close>: the separators are taken greedily; a shorter run
      would leave a separator where the date must start.\<close>
  "meet_tail r =
     (let rest = dropWhile is_sep r
      in if takeWhile is_sep r \<noteq> [] \<and> date_shape (take 10 rest) \<and>
            \<not> list_ex is_line_terminator (drop 10 rest)
         then Some (take 10 rest) else None)"

definition processed_tail :: "string \<Rightarrow> string option" where
  \<comment> \<open>\<open>_(\d{4}-\d{2}-\d{2})(?:_[A-Za-z0-9_-]{10})?$\<close>\<close>
  "processed_tail r =
     (case r of
        [] \<Rightarrow> None
      | c # cs \<Rightarrow>
          if c = CHR ''_'' \<and> date_shape (take 10 cs) \<and>
             (drop 10 cs = [] \<or>
              (case drop 10 cs of [] \<Rightarrow> False | u # us \<Rightarrow> u = CHR ''_'' \<and> id_fragment us))
          then Some (take 10 cs) else None)"

definition remove_special :: "string \<Rightarrow> string" where
  \<comment> \<open>\<open>.replace(/[~^*'`+]/g, '')\<close>\<close>
  "remove_special s = filter (\<lambda>c. \<not> is_special c) s"

definition clean_name :: "string \<Rightarrow> string" where
  "clean_name rawNamePart =
     trim (strip_trailing_space_hyphen (replace_ws_runs (CHR '' '')
       (underscores_to_spaces (trim (remove_special rawNamePart)))))"

definition extractStudentInfoFromFilename :: "string \<Rightarrow> (string \<times> string) option" where
  \<comment> \<open>\<open>None\<close> stands for the result \<open>{studentName: null, classDate: null}\<close>.\<close>
  "extractStudentInfoFromFilename fileName =
     (let cleanedFileName = slashes_to_hyphens (trim (strip_extension fileName));
          m = (case anchored_lazy meet_tail cleanedFileName of
                 Some r \<Rightarrow> Some r
               | None \<Rightarrow> anchored_lazy processed_tail cleanedFileName)
      in case m of
           None \<Rightarrow> None
         | Some (rawNamePart, classDate) \<Rightarrow>
             if rawNamePart \<noteq> [] \<and> classDate \<noteq> [] then
               (let studentName = clean_name rawNamePart
                in if studentName \<noteq> [] \<and> date_shape classDate
                   then Some (studentName, classDate) else None)
             else None)"

definition canonical_name :: "string \<Rightarrow> string \<Rightarrow> string \<Rightarrow> string" where
  \<comment> \<open>the new file name built by \<open>processNewRecordings\<close> from the parsed pair and the
      file's identifier\<close>
  "canonical_name studentName classDate fileId =
     replace_ws_runs (CHR ''_'') studentName @ ''_'' @ classDate @ ''_'' @ take 10 fileId @ ''.mp4''"

fun startsWith :: "string \<Rightarrow> string \<Rightarrow> bool" where
  "startsWith s [] \<longleftrightarrow> True"
| "startsWith [] (p # ps) \<longleftrightarrow> False"
| "startsWith (c # cs) (p # ps) \<longleftrightarrow> c = p \<and> startsWith cs ps"

fun str_includes :: "string \<Rightarrow> string \<Rightarrow> bool" where
  "str_includes [] sub \<longleftrightarrow> sub = []"
| "str_includes (c # cs) sub \<longleftrightarrow> startsWith (c # cs) sub \<or> str_includes cs sub"

definition digit_char :: "nat \<Rightarrow> char" where
  "digit_char n = char_of (48 + n)"

function decimal :: "nat \<Rightarrow> string" where
  \<comment> \<open>a non-negative integer as the script prints it\<close>
  "decimal n = (if n < 10 then [digit_char n] else decimal (n div 10) @ [digit_char (n mod 10)])"
  by pat_completeness auto
termination
  by (relation "measure id") auto

declare decimal.simps [simp del]

definition falsy :: "string option \<Rightarrow> bool" where
  \<comment> \<open>\<open>!p\<close> for a script property: unset or empty\<close>
  "falsy p \<longleftrightarrow> (case p of None \<Rightarrow> True | Some s \<Rightarrow> s = [])"

fun join :: "string \<Rightarrow> string list \<Rightarrow> string" where
  "join sep [] = []"
| "join sep [x] = x"
| "join sep (x # y # ys) = x @ sep @ join sep (y # ys)"

section \<open>External replies\<close>

datatype json = JNull | JBool bool | JNum int | JStr string | JArr "json list" | JObj "(string \<times> json) list"

fun truthy :: "json \<Rightarrow> bool" where
  "truthy JNull \<longleftrightarrow> False"
| "truthy (JBool b) \<longleftrightarrow> b"
| "truthy (JNum n) \<longleftrightarrow> n \<noteq> 0"
| "truthy (JStr s) \<longleftrightarrow> s \<noteq> []"
| "truthy (JArr xs) \<longleftrightarrow> True"
| "truthy (JObj kvs) \<longleftrightarrow> True"

fun get_prop :: "json \<Rightarrow> string \<Rightarrow> json option" where
  \<comment> \<open>\<open>j?.k\<close>: \<open>None\<close> is \<open>undefined\<close>; the list of an object holds its own properties.\<close>
  "get_prop (JObj kvs) k = map_of kvs k"
| "get_prop _ k = None"

text \<open>
  \<open>UrlFetchApp.fetch\<close> with \<open>muteHttpExceptions\<close> either throws (a network-level failure,
  with its message) or returns a status code and a body.
\<close>

datatype response = Fetch_throws string | Response nat string

section \<open>Job Submission Adapter\<close>

definition job_id_of :: "json \<Rightarrow> string option" where
  \<comment> \<open>\<open>result && result.job_id && typeof result.job_id === 'string' && result.job_id.trim() !== ""\<close>\<close>
  "job_id_of result =
     (if truthy result then
        (case get_prop result ''job_id'' of
           Some (JStr s) \<Rightarrow> if s \<noteq> [] \<and> trim s \<noteq> [] then Some (trim s) else None
         | _ \<Rightarrow> None)
      else None)"

definition sendFileInfoToCloudRun ::
  "(string \<Rightarrow> json option) \<Rightarrow> response \<Rightarrow> string option \<Rightarrow> string + string option" where
  \<comment> \<open>\<open>part_000\<close>. \<open>Inl\<close> is a thrown error with its message, \<open>Inr None\<close> is \<open>null\<close>. The
      second argument is the outcome of the POST of \<open>{fileId, fileName}\<close> to the URL.\<close>
  "sendFileInfoToCloudRun JSON_parse fetched currentCloudRunUrl =
     (if falsy currentCloudRunUrl then Inl ''CLOUD_RUN_URL property missing''
      else case fetched of
             Fetch_throws m \<Rightarrow> Inr None
           | Response statusCode responseText \<Rightarrow>
               if statusCode \<noteq> 200 then Inr None
               else (case JSON_parse responseText of
                       None \<Rightarrow> Inr None
                     | Some result \<Rightarrow> Inr (job_id_of result)))"

definition sendFileInfoToCloudRun_v9 ::
  "(string \<Rightarrow> json option) \<Rightarrow> response \<Rightarrow> string option \<Rightarrow> string + bool" where
  \<comment> \<open>\<open>Code.js\<close>. The error thrown for an unexpected message is raised inside the
      \<open>try\<close> whose handler throws the parse error, so both end in the same message.\<close>
  "sendFileInfoToCloudRun_v9 JSON_parse fetched currentCloudRunUrl =
     (if falsy currentCloudRunUrl then Inl ''CLOUD_RUN_URL property missing''
      else case fetched of
             Fetch_throws m \<Rightarrow> Inl (''Network-level error calling Cloud Run: '' @ m)
           | Response statusCode responseText \<Rightarrow>
               if statusCode = 200 then
                 (case JSON_parse responseText of
                    None \<Rightarrow> Inl ''Failed to parse Cloud Run success response.''
                  | Some result \<Rightarrow>
                      if truthy result \<and> get_prop result ''message'' = Some (JStr ''File saved to /incoming'')
                      then Inr True
                      else Inl ''Failed to parse Cloud Run success response.'')
               else Inl (''Cloud Run returned non-200 status: '' @ decimal statusCode))"

section \<open>Discovery and Dedup\<close>

record drive_file =
  file_id :: string
  file_name :: string
  mime_type :: "string option"

record job_row =
  fileName_cell :: string
  jobId_cell :: string
  status_cell :: string
  timestamp_cell :: string

definition header_row :: job_row where
  "header_row = \<lparr>fileName_cell = ''File Name'', jobId_cell = ''Job ID'',
                  status_cell = ''Status'', timestamp_cell = ''Timestamp''\<rparr>"

record process_config =
  FOLDER_ID :: "string option"
  TRACKING_SHEET_ID :: "string option"
  CLOUD_RUN_URL :: "string option"

text \<open>
  What the services outside the script answer during one run: the JSON parser, the Cloud
  Run endpoint (by file identifier and file name), whether renaming a file throws (by file
  identifier, with the message), and the clock.
\<close>

record process_env =
  JSON_parse :: "string \<Rightarrow> json option"
  cloud_run :: "string \<Rightarrow> string \<Rightarrow> response"
  set_name_error :: "string \<Rightarrow> string option"
  now :: string

record scan =
  jobs :: "job_row list"
  existingDataSet :: "string set"
  fileCount :: nat
  errorCount :: nat

definition renamed_tail :: "string \<Rightarrow> unit option" where
  \<comment> \<open>\<open>_(\d{4}-\d{2}-\d{2})_[A-Za-z0-9_-]{10}\.mp4$\<close> under the \<open>i\<close> flag\<close>
  "renamed_tail r =
     (case r of
        [] \<Rightarrow> None
      | c # cs \<Rightarrow>
          if c = CHR ''_'' \<and> date_shape (take 10 cs) \<and>
             (case drop 10 cs of
                [] \<Rightarrow> False
              | u # us \<Rightarrow> u = CHR ''_'' \<and> id_fragment (take 10 us) \<and> ext_ci ''.mp4'' (drop 10 us))
          then Some () else None)"

definition alreadyRenamedRegex :: "string \<Rightarrow> bool" where
  "alreadyRenamedRegex s \<longleftrightarrow> anchored_lazy renamed_tail s \<noteq> None"

definition is_video :: "string option \<Rightarrow> bool" where
  \<comment> \<open>\<open>mimeType && mimeType.startsWith('video/')\<close>\<close>
  "is_video m \<longleftrightarrow> (case m of None \<Rightarrow> False | Some t \<Rightarrow> startsWith t ''video/'')"

definition process_file ::
  "process_env \<Rightarrow> string option \<Rightarrow> drive_file \<Rightarrow> scan \<Rightarrow> drive_file \<times> scan" where
  \<comment> \<open>one turn of the \<open>while\<close> loop of \<open>part_000\<close>; the file comes back renamed or as it was.\<close>
  "process_file env currentCloudRunUrl file sc =
     (let originalFileName = file_name file; fileId = file_id file
      in if \<not> is_video (mime_type file) then (file, sc)
         else
           let isAlreadyTracked =
                 (if trim originalFileName \<in> existingDataSet sc then True
                  else if alreadyRenamedRegex originalFileName
                       then trim originalFileName \<in> existingDataSet sc else False)
           in if isAlreadyTracked then (file, sc)
              else
                (case extractStudentInfoFromFilename originalFileName of
                   None \<Rightarrow> (file, sc)
                 | Some (studentName, classDate) \<Rightarrow>
                     let newFileName = canonical_name studentName classDate fileId
                     in if newFileName \<in> existingDataSet sc then (file, sc)
                        else
                          (case set_name_error env fileId of
                             Some m \<Rightarrow> (file, sc\<lparr>errorCount := errorCount sc + 1\<rparr>)
                           | None \<Rightarrow>
                               let appended = jobs sc @
                                     [\<lparr>fileName_cell = newFileName, jobId_cell = [],
                                       status_cell = ''processing_cloudrun'', timestamp_cell = now env\<rparr>];
                                   addedRowIndex = length appended;
                                   sent = sendFileInfoToCloudRun (JSON_parse env)
                                            (cloud_run env fileId newFileName) currentCloudRunUrl;
                                   cloudRunError = (case sent of Inl e \<Rightarrow> True | Inr j \<Rightarrow> False);
                                   jobId = (case sent of Inl e \<Rightarrow> None | Inr j \<Rightarrow> j);
                                   finalStatus =
                                     (if cloudRunError then ''cloudrun_error''
                                      else if jobId \<noteq> None then ''submitted'' else ''cloudrun_no_jobid'')
                               in (file\<lparr>file_name := newFileName\<rparr>,
                                   sc\<lparr>jobs := appended[addedRowIndex - 1 :=
                                         \<lparr>fileName_cell = newFileName,
                                          jobId_cell = (case jobId of None \<Rightarrow> [] | Some j \<Rightarrow> j),
                                          status_cell = finalStatus, timestamp_cell = now env\<rparr>],
                                      existingDataSet := insert newFileName (existingDataSet sc),
                                      fileCount := fileCount sc + 1,
                                      errorCount := errorCount sc + (if cloudRunError then 1 else 0)\<rparr>))))"

definition process_file_v9 ::
  "process_env \<Rightarrow> string option \<Rightarrow> drive_file \<Rightarrow> scan \<Rightarrow> drive_file \<times> scan" where
  \<comment> \<open>one turn of the \<open>while\<close> loop of \<open>Code.js\<close>\<close>
  "process_file_v9 env currentCloudRunUrl file sc =
     (let originalFileName = file_name file; fileId = file_id file
      in if \<not> is_video (mime_type file) then (file, sc)
         else if trim originalFileName \<in> existingDataSet sc then (file, sc)
         else
           (case extractStudentInfoFromFilename originalFileName of
              None \<Rightarrow> (file, sc)
            | Some (studentName, classDate) \<Rightarrow>
                let newFileName = canonical_name studentName classDate fileId
                in if newFileName \<in> existingDataSet sc then (file, sc)
                   else
                     (case set_name_error env fileId of
                        Some m \<Rightarrow> (file, sc\<lparr>errorCount := errorCount sc + 1\<rparr>)
                      | None \<Rightarrow>
                          let appended = jobs sc @
                                [\<lparr>fileName_cell = newFileName, jobId_cell = [],
                                  status_cell = ''sending_to_cloudrun'', timestamp_cell = now env\<rparr>];
                              addedRowIndex = length appended;
                              sent = sendFileInfoToCloudRun_v9 (JSON_parse env)
                                       (cloud_run env fileId newFileName) currentCloudRunUrl;
                              finalStatus =
                                (case sent of
                                   Inl e \<Rightarrow> ''cloudrun_error''
                                 | Inr ok \<Rightarrow> if ok then ''processing_transcription'' else ''cloudrun_error'')
                          in (file\<lparr>file_name := newFileName\<rparr>,
                              sc\<lparr>jobs := appended[addedRowIndex - 1 :=
                                    (appended ! (addedRowIndex - 1))
                                      \<lparr>status_cell := finalStatus, timestamp_cell := now env\<rparr>],
                                 existingDataSet := insert newFileName (existingDataSet sc),
                                 fileCount := fileCount sc + 1,
                                 errorCount := errorCount sc + (case sent of Inl e \<Rightarrow> 1 | Inr ok \<Rightarrow> 0)\<rparr>))))"

fun process_files ::
  "(drive_file \<Rightarrow> scan \<Rightarrow> drive_file \<times> scan) \<Rightarrow> drive_file list \<Rightarrow> scan \<Rightarrow> drive_file list \<times> scan" where
  \<comment> \<open>the \<open>while (files.hasNext())\<close> loop, in the order of the iterator\<close>
  "process_files step [] sc = ([], sc)"
| "process_files step (f # fs) sc =
     (let (f', sc') = step f sc; (fs', sc'') = process_files step fs sc'
      in (f' # fs', sc''))"

definition existing_names :: "job_row list \<Rightarrow> string set" where
  \<comment> \<open>\<open>new Set(dataValues.slice(1).map(row => String(row[0] || "").trim()).filter(Boolean))\<close>\<close>
  "existing_names sheet = set (filter (\<lambda>s. s \<noteq> []) (map (\<lambda>row. trim (fileName_cell row)) (tl sheet)))"

record tracking =
  files :: "drive_file list"
  sheet :: "job_row list"

definition processNewRecordings :: "process_config \<Rightarrow> process_env \<Rightarrow> tracking \<Rightarrow> tracking \<times> nat \<times> nat" where
  \<comment> \<open>\<open>part_000\<close>. The result carries the two counters of the final log line. A missing
      \<open>Jobs\<close> sheet is created empty, so it is the empty list.\<close>
  "processNewRecordings cfg env st =
     (if falsy (FOLDER_ID cfg) \<or> falsy (TRACKING_SHEET_ID cfg) \<or> falsy (CLOUD_RUN_URL cfg) then (st, 0, 0)
      else
        let sheet1 = (if sheet st = [] then [header_row]
                      else if fileName_cell (hd (sheet st)) \<noteq> ''File Name'' then header_row # tl (sheet st)
                      else sheet st);
            (files', sc) = process_files (process_file env (CLOUD_RUN_URL cfg)) (files st)
                             \<lparr>jobs = sheet1, existingDataSet = existing_names sheet1,
                              fileCount = 0, errorCount = 0\<rparr>
        in (\<lparr>files = files', sheet = jobs sc\<rparr>, fileCount sc, errorCount sc))"

definition processNewRecordings_v9 :: "process_config \<Rightarrow> process_env \<Rightarrow> tracking \<Rightarrow> tracking \<times> nat \<times> nat" where
  \<comment> \<open>\<open>Code.js\<close>\<close>
  "processNewRecordings_v9 cfg env st =
     (if falsy (FOLDER_ID cfg) \<or> falsy (TRACKING_SHEET_ID cfg) \<or> falsy (CLOUD_RUN_URL cfg) then (st, 0, 0)
      else
        let sheet1 = (if sheet st = [] then [header_row] else sheet st);
            (files', sc) = process_files (process_file_v9 env (CLOUD_RUN_URL cfg)) (files st)
                             \<lparr>jobs = sheet1, existingDataSet = existing_names sheet1,
                              fileCount = 0, errorCount = 0\<rparr>
        in (\<lparr>files = files', sheet = jobs sc\<rparr>, fileCount sc, errorCount sc))"

section \<open>Shapes of parsed names\<close>

definition sep_then_date :: "string \<Rightarrow> bool" where
  \<comment> \<open>a run of separators followed by a date, as the first pattern of the parser wants it\<close>
  "sep_then_date r \<longleftrightarrow> takeWhile is_sep r \<noteq> [] \<and> date_shape (take 10 (dropWhile is_sep r))"

fun sep_date_inside :: "string \<Rightarrow> bool" where
  \<comment> \<open>somewhere after its first character the string has a separator run followed by a date\<close>
  "sep_date_inside [] \<longleftrightarrow> False"
| "sep_date_inside (c # cs) \<longleftrightarrow> sep_then_date cs \<or> sep_date_inside cs"

fun spaced :: "string \<Rightarrow> bool" where
  \<comment> \<open>every white-space character is a single space between two other characters\<close>
  "spaced [] \<longleftrightarrow> True"
| "spaced [c] \<longleftrightarrow> (if is_ws c then c = CHR '' '' else True)"
| "spaced (c # d # cs) \<longleftrightarrow> (if is_ws c then c = CHR '' '' \<and> \<not> is_ws d else True) \<and> spaced (d # cs)"

definition tidy :: "string \<Rightarrow> bool" where
  \<comment> \<open>what every student name returned by the parser looks like\<close>
  "tidy n \<longleftrightarrow>
     n \<noteq> [] \<and> spaced n \<and> \<not> is_ws (hd n) \<and> \<not> is_ws (last n) \<and> last n \<noteq> CHR ''-'' \<and>
     list_all (\<lambda>c. \<not> is_special c \<and> c \<noteq> CHR ''_'' \<and> c \<noteq> CHR ''/'') n"

abbreviation (input) underscored :: "char \<Rightarrow> char" where
  \<comment> \<open>spaces to underscores, one character at a time\<close>
  "underscored \<equiv> (\<lambda>c. if c = CHR '' '' then CHR ''_'' else c)"

definition name_key :: "string \<Rightarrow> string" where
  \<comment> \<open>a name with underscores turned into spaces, white space collapsed and the ends
      trimmed: what the parser and the distribution loop both compute on a name without
      special characters, before the loop lower-cases it\<close>
  "name_key x = trim (replace_ws_runs (CHR '' '') (underscores_to_spaces x))"

section \<open>Roster, student folders and the homework ledger\<close>

datatype col_prop = Unset | Blank | Not_a_number | Col int
  \<comment> \<open>the script property \<open>ROSTER_DRIVE_FOLDER_ID\<close> as \<open>Number()\<close> and \<open>isNaN()\<close> read it;
      only whole numbers are modelled\<close>

record calendar_date =
  year :: nat
  month :: nat
  day :: nat

definition pad2 :: "nat \<Rightarrow> string" where
  "pad2 n = (if n < 10 then CHR ''0'' # decimal n else decimal n)"

definition pad4 :: "nat \<Rightarrow> string" where
  "pad4 n = replicate (4 - length (decimal n)) (CHR ''0'') @ decimal n"

definition format_yyyyMMdd :: "calendar_date \<Rightarrow> string" where
  \<comment> \<open>\<open>Utilities.formatDate(new Date(), Session.getScriptTimeZone(), 'yyyyMMdd')\<close> on the
      calendar date of the script's time zone\<close>
  "format_yyyyMMdd dt = pad4 (year dt) @ pad2 (month dt) @ pad2 (day dt)"

record stored_file =
  sf_id :: string
  sf_name :: string
  sf_content :: string

record mail =
  mail_to :: string
  mail_subject :: string
  mail_first_name :: string
  mail_link :: string

text \<open>
  What lies outside the script during one run of the homework stages: the script
  properties, the roster tab, and the answers of the services. A service call that can
  throw has a field giving the message of the exception, if any; \<open>folder_error\<close> is the
  message of \<open>DriveApp.getFolderById\<close> for a folder it cannot open.
\<close>

record hw_env =
  STUDENT_ROSTER_ID :: "string option"
  HOMEWORK_SHEET_NAME :: "string option"
  ROSTER_DRIVE_FOLDER_ID :: col_prop
  HOMEWORK_PORTAL_BASEURL :: "string option"
  BUCKET_NAME :: "string option"
  open_spreadsheet_error :: "string option"
  current_students :: "string list list option"
  hw_tab_exists :: "string \<Rightarrow> bool"
  folder_error :: string
  create_file_error :: "string \<Rightarrow> string \<Rightarrow> string option"
  new_file_id :: "nat \<Rightarrow> string"
  append_row_error :: "string list \<Rightarrow> string option"
  trash_error :: "string \<Rightarrow> string option"
  send_email_error :: "string \<Rightarrow> string option"
  uuid :: "nat \<Rightarrow> string"
  today :: calendar_date
  now_iso :: string
  coach_instructions :: string
  auth_token :: "string + string"
  listing :: "string + string option list"
  gcs_get :: "string \<Rightarrow> response"

text \<open>
  What the homework stages change: the student folders by identifier (\<open>None\<close> when
  \<open>DriveApp.getFolderById\<close> throws), the trash, the rows of the homework ledger, the
  mails sent, the log of \<open>saveHomeworkPrompt\<close> and \<open>assignHomework\<close>, and how many files
  and tokens have been created.
\<close>

record homework =
  folders :: "string \<Rightarrow> stored_file list option"
  trash :: "stored_file list"
  ledger :: "string list list"
  outbox :: "mail list"
  logged :: "string list"
  created :: nat
  drawn :: nat

record student =
  Student_ID :: string
  Name :: string
  Email :: string
  Drive_Folder_ID :: string
  LifeStyle :: string
  RosterRowIndex :: nat

definition cell :: "string list \<Rightarrow> int \<Rightarrow> string" where
  \<comment> \<open>a cell of a row as a string; outside the row it is empty, as \<open>undefined\<close> and
      \<open>null\<close> are wherever a cell is read\<close>
  "cell row i = (if 0 \<le> i \<and> nat i < length row then row ! nat i else [])"

fun index_of :: "string list \<Rightarrow> string \<Rightarrow> nat option" where
  \<comment> \<open>\<open>header.indexOf(name)\<close>; \<open>None\<close> is \<open>-1\<close>\<close>
  "index_of [] k = None"
| "index_of (h # hs) k = (if h = k then Some 0 else map_option Suc (index_of hs k))"

definition header_lower :: "string list \<Rightarrow> string list" where
  \<comment> \<open>\<open>values[0].map(h => String(h).toLowerCase().trim())\<close>\<close>
  "header_lower hdr = map (\<lambda>h. trim (toLowerCase h)) hdr"

definition COL_ROSTER_STUDENT_NAME :: int where "COL_ROSTER_STUDENT_NAME = 0"
definition COL_ROSTER_STUDENT_ID :: int where "COL_ROSTER_STUDENT_ID = 1"
definition COL_ROSTER_LIFE_AND_LIFESTYLE :: int where "COL_ROSTER_LIFE_AND_LIFESTYLE = 16"

fun find_row :: "nat \<Rightarrow> string \<Rightarrow> nat \<Rightarrow> string list list \<Rightarrow> (nat \<times> string list) option" where
  \<comment> \<open>the \<open>for (let r = 1; ...)\<close> loop: the first row whose e-mail cell, trimmed and in lower
      case, is the target\<close>
  "find_row emailColIdx target r [] = None"
| "find_row emailColIdx target r (row # rows) =
     (let rowEmail = cell row (int emailColIdx)
      in if rowEmail \<noteq> [] \<and> toLowerCase (trim rowEmail) = target then Some (r, row)
         else find_row emailColIdx target (Suc r) rows)"

definition student_of :: "int \<Rightarrow> nat \<Rightarrow> string list \<Rightarrow> nat \<Rightarrow> student" where
  "student_of driveColIdx emailColIdx row r =
     \<lparr>Student_ID = cell row COL_ROSTER_STUDENT_ID,
      Name = cell row COL_ROSTER_STUDENT_NAME,
      Email = trim (cell row (int emailColIdx)),
      Drive_Folder_ID = cell row driveColIdx,
      LifeStyle = cell row COL_ROSTER_LIFE_AND_LIFESTYLE,
      RosterRowIndex = r + 1\<rparr>"

definition rosterFindByEmail :: "hw_env \<Rightarrow> string \<Rightarrow> student option" where
  \<comment> \<open>\<open>part_000\<close>; \<open>None\<close> is \<open>null\<close>\<close>
  "rosterFindByEmail env email =
     (if email = [] then None
      else if falsy (STUDENT_ROSTER_ID env) then None
      else if open_spreadsheet_error env \<noteq> None then None
      else case current_students env of
             None \<Rightarrow> None
           | Some values \<Rightarrow>
               if length values < 2 then None
               else (case index_of (header_lower (hd values)) ''student_email'' of
                       None \<Rightarrow> None
                     | Some emailColIdx \<Rightarrow>
                         (case ROSTER_DRIVE_FOLDER_ID env of
                            Col driveColIdx \<Rightarrow>
                              map_option (\<lambda>(r, row). student_of driveColIdx emailColIdx row r)
                                (find_row emailColIdx (trim (toLowerCase email)) 1 (tl values))
                          | _ \<Rightarrow> None)))"

definition rosterFindByEmail_v9 :: "hw_env \<Rightarrow> string \<Rightarrow> string + student option" where
  \<comment> \<open>\<open>Code.js\<close>: opening the spreadsheet is not guarded, and an unset or blank column
      property counts as column 0.\<close>
  "rosterFindByEmail_v9 env email =
     (if email = [] then Inr None
      else if falsy (STUDENT_ROSTER_ID env) then Inr None
      else case open_spreadsheet_error env of
             Some m \<Rightarrow> Inl m
           | None \<Rightarrow>
              (case current_students env of
                 None \<Rightarrow> Inr None
               | Some values \<Rightarrow>
                   if length values < 2 then Inr None
                   else (case index_of (header_lower (hd values)) ''student_email'' of
                           None \<Rightarrow> Inr None
                         | Some emailColIdx \<Rightarrow>
                             let driveColIdx = (case ROSTER_DRIVE_FOLDER_ID env of
                                                  Col n \<Rightarrow> n | Not_a_number \<Rightarrow> -1 | _ \<Rightarrow> 0)
                             in if driveColIdx = -1 then Inr None
                                else Inr (map_option (\<lambda>(r, row). student_of driveColIdx emailColIdx row r)
                                            (find_row emailColIdx (trim (toLowerCase email)) 1 (tl values))))))"

definition hw_log :: "string \<Rightarrow> homework \<Rightarrow> homework" where
  "hw_log line st = st\<lparr>logged := logged st @ [line]\<rparr>"

definition full_prompt :: "string \<Rightarrow> string \<Rightarrow> string" where
  "full_prompt basePromptText lifeStyle =
     trim basePromptText @ [CHR 0x0A, CHR 0x0A] @ ''---'' @ [CHR 0x0A] @
     ''Student background / Life & Lifestyle'' @ [CHR 0x0A] @
     trim (if lifeStyle = [] then ''No profile data on record.'' else lifeStyle)"

definition ledger_row :: "student \<Rightarrow> string \<Rightarrow> string \<Rightarrow> string \<Rightarrow> string \<Rightarrow> string list" where
  \<comment> \<open>Student_ID, Student_Name, Student_Email, HW_ID, PromptFileID, Token, AssignedAt,
      CompletedAt, Token_Status, Turns_Used\<close>
  "ledger_row s hwId fileId token assignedAt =
     [Student_ID s, Name s, Email s, hwId, fileId, token, assignedAt, [], ''Active'', ''0'']"

definition create_file :: "hw_env \<Rightarrow> string \<Rightarrow> string \<Rightarrow> string \<Rightarrow> homework \<Rightarrow> string + (stored_file \<times> homework)" where
  \<comment> \<open>\<open>DriveApp.getFolderById(id).createFile(name, content, MimeType.PLAIN_TEXT)\<close>\<close>
  "create_file env folderId name content st =
     (case folders st folderId of
        None \<Rightarrow> Inl (folder_error env)
      | Some fs \<Rightarrow>
          (case create_file_error env folderId name of
             Some m \<Rightarrow> Inl m
           | None \<Rightarrow>
               let f = \<lparr>sf_id = new_file_id env (created st), sf_name = name, sf_content = content\<rparr>
               in Inr (f, st\<lparr>folders := (folders st)(folderId := Some (fs @ [f])),
                             created := created st + 1\<rparr>)))"

definition set_trashed :: "hw_env \<Rightarrow> stored_file \<Rightarrow> homework \<Rightarrow> string + homework" where
  \<comment> \<open>\<open>promptFile.setTrashed(true)\<close>: the file leaves its folder for the trash\<close>
  "set_trashed env f st =
     (case trash_error env (sf_id f) of
        Some m \<Rightarrow> Inl m
      | None \<Rightarrow>
          Inr (st\<lparr>folders := (\<lambda>k. map_option (filter (\<lambda>g. sf_id g \<noteq> sf_id f)) (folders st k)),
                   trash := trash st @ [f]\<rparr>))"

definition ledger_failure :: "hw_env \<Rightarrow> string option \<Rightarrow> string option \<Rightarrow> string list \<Rightarrow> string option" where
  \<comment> \<open>the message of the error that leaves the \<open>try\<close> block writing the ledger, if one
      does: the two property checks, opening the spreadsheet, finding the tab and
      \<open>appendRow\<close>; the \<open>flush\<close> that follows is taken to succeed.\<close>
  "ledger_failure env currentSpreadId currentHwSheetName newRowData =
     (if falsy currentSpreadId then Some ''STUDENT_ROSTER_ID script property missing.''
      else case currentHwSheetName of
             None \<Rightarrow> Some ''HOMEWORK_SHEET_NAME script property missing for Homework_Push.''
           | Some tab \<Rightarrow>
               if tab = [] then Some ''HOMEWORK_SHEET_NAME script property missing for Homework_Push.''
               else (case open_spreadsheet_error env of
                       Some m \<Rightarrow> Some m
                     | None \<Rightarrow>
                         if \<not> hw_tab_exists env tab
                         then Some (''Ledger sheet '' @ [CHR 0x22] @ tab @ [CHR 0x22] @ '' not found.'')
                         else append_row_error env newRowData))"

definition append_ledger :: "hw_env \<Rightarrow> string option \<Rightarrow> string option \<Rightarrow> string list \<Rightarrow> homework \<Rightarrow> string + homework" where
  "append_ledger env currentSpreadId currentHwSheetName newRowData st =
     (case ledger_failure env currentSpreadId currentHwSheetName newRowData of
        Some m \<Rightarrow> Inl m
      | None \<Rightarrow> Inr (st\<lparr>ledger := ledger st @ [newRowData]\<rparr>))"

section \<open>Homework Consolidation\<close>

definition quoted :: "string \<Rightarrow> string" where
  "quoted s = [CHR 0x22] @ s @ [CHR 0x22]"

definition chosen_name :: "hw_env \<Rightarrow> string \<Rightarrow> string option \<Rightarrow> string" where
  \<comment> \<open>the name under which \<open>saveHomeworkPrompt\<close> of \<open>part_000\<close> stores the prompt: the one
      given, or the fallback when that is missing or blank\<close>
  "chosen_name env hwId promptFileName =
     (case promptFileName of
        None \<Rightarrow> ''HW_'' @ (if hwId = [] then ''Unknown-'' @ format_yyyyMMdd (today env) else hwId) @ ''_prompt.txt''
      | Some n \<Rightarrow> if trim n \<noteq> [] then n
                  else ''HW_'' @ (if hwId = [] then ''Unknown-'' @ format_yyyyMMdd (today env) else hwId) @ ''_prompt.txt'')"

definition compensate :: "hw_env \<Rightarrow> stored_file \<Rightarrow> homework \<Rightarrow> homework" where
  \<comment> \<open>the inner \<open>try\<close> of the handler: trash the prompt file, or log a warning when that
      throws\<close>
  "compensate env promptFile st =
     (case set_trashed env promptFile st of
        Inr s \<Rightarrow>
          hw_log (''[saveHomeworkPrompt] Cleaned up (trashed) prompt file '' @
                  sf_id promptFile @ '' due to ledger error.'') s
      | Inl tm \<Rightarrow>
          hw_log (''[saveHomeworkPrompt] WARNING: Failed to trash prompt file '' @
                  sf_id promptFile @ '' after ledger error: '' @ tm) st)"

definition record_assignment ::
  "hw_env \<Rightarrow> student \<Rightarrow> string \<Rightarrow> string \<Rightarrow> string \<Rightarrow> stored_file \<Rightarrow> homework \<Rightarrow> (string + string) \<times> homework" where
  \<comment> \<open>the rest of \<open>saveHomeworkPrompt\<close> once the prompt file exists: draw the token, write
      the ledger row, and on an error there compensate and throw\<close>
  "record_assignment env student studentEmail hwId fileName promptFile st =
     (let token = uuid env (drawn st);
          st4 = st\<lparr>drawn := drawn st + 1\<rparr>
      in case append_ledger env (STUDENT_ROSTER_ID env) (HOMEWORK_SHEET_NAME env)
                (ledger_row student hwId (sf_id promptFile) token (now_iso env)) st4 of
           Inr st5 \<Rightarrow>
             (Inr token,
              hw_log (''[saveHomeworkPrompt] HW assignment '' @ hwId @ '' processed for '' @
                      Name student @ ''. Prompt File: '' @ quoted fileName @ ''. Token: '' @ token @ ''.'')
                (hw_log (''[saveHomeworkPrompt] Successfully appended to '' @
                         quoted (case HOMEWORK_SHEET_NAME env of Some tab \<Rightarrow> tab | None \<Rightarrow> ''null'') @ ''. HW_ID: '' @ hwId @
                         '', Token: '' @ token @ '', Status: Active, Turns_Used: 0, for '' @
                         Name student @ ''.'') st5))
         | Inl m \<Rightarrow>
             (Inl (''Failed to append ledger row: '' @ m),
              compensate env promptFile
                (hw_log (''[saveHomeworkPrompt] ERROR appending ledger row for HW_ID '' @ hwId @
                         '', student '' @ studentEmail @ '': '' @ m) st4)))"

definition saveHomeworkPrompt ::
  "hw_env \<Rightarrow> string \<Rightarrow> string \<Rightarrow> string \<Rightarrow> string option \<Rightarrow> homework \<Rightarrow> (string + string) \<times> homework" where
  \<comment> \<open>\<open>part_000\<close>. The result is the thrown message or the token, with the state left
      behind in either case.\<close>
  "saveHomeworkPrompt env studentEmail hwId basePromptText promptFileName st =
     (case rosterFindByEmail env studentEmail of
        None \<Rightarrow>
          (Inl (''Student email '' @ studentEmail @ '' not found.''),
           hw_log (''[saveHomeworkPrompt] ERROR: Student email '' @ studentEmail @ '' not found.'') st)
      | Some student \<Rightarrow>
          if Drive_Folder_ID student = [] then
            (Inl (''Drive_Folder_ID missing for student '' @ studentEmail @ ''.''),
             hw_log (''[saveHomeworkPrompt] ERROR: Drive_Folder_ID missing for student '' @ studentEmail @ ''.'') st)
          else
            let fileName = chosen_name env hwId promptFileName;
                st1 = (if (case promptFileName of None \<Rightarrow> False | Some n \<Rightarrow> trim n \<noteq> []) then st
                       else hw_log (''[saveHomeworkPrompt] WARNING: Invalid promptFileName. Using fallback: '' @ fileName) st)
            in case create_file env (Drive_Folder_ID student) fileName
                      (full_prompt basePromptText (LifeStyle student)) st1 of
                 Inl m \<Rightarrow>
                   (Inl (''Failed to create prompt file: '' @ m),
                    hw_log (''[saveHomeworkPrompt] ERROR creating prompt file '' @ quoted fileName @
                            '' for student '' @ studentEmail @ '': '' @ m) st1)
               | Inr (promptFile, st2) \<Rightarrow>
                   record_assignment env student studentEmail hwId fileName promptFile
                     (hw_log (''[saveHomeworkPrompt] Created prompt file '' @ quoted fileName @
                              '' (ID: '' @ sf_id promptFile @ '') in folder ID '' @
                              Drive_Folder_ID student @ '' for student '' @ studentEmail @ ''.'') st2))"

definition ledger_failure_v9 :: "hw_env \<Rightarrow> string list \<Rightarrow> string option" where
  \<comment> \<open>\<open>Code.js\<close>: \<open>SpreadsheetApp.openById(SPREAD_ID).getSheetByName(HW_SHEET_NAME)\<close>, the
      check of the tab and \<open>appendRow\<close>\<close>
  "ledger_failure_v9 env newRowData =
     (case open_spreadsheet_error env of
        Some m \<Rightarrow> Some m
      | None \<Rightarrow>
          (case HOMEWORK_SHEET_NAME env of
             None \<Rightarrow> Some (''Ledger sheet '' @ quoted ''null'' @ '' not found.'')
           | Some tab \<Rightarrow>
               if \<not> hw_tab_exists env tab then Some (''Ledger sheet '' @ quoted tab @ '' not found.'')
               else append_row_error env newRowData))"

definition append_ledger_v9 :: "hw_env \<Rightarrow> string list \<Rightarrow> homework \<Rightarrow> string + homework" where
  "append_ledger_v9 env newRowData st =
     (case ledger_failure_v9 env newRowData of
        Some m \<Rightarrow> Inl m
      | None \<Rightarrow> Inr (st\<lparr>ledger := ledger st @ [newRowData]\<rparr>))"

definition record_assignment_v9 ::
  "hw_env \<Rightarrow> student \<Rightarrow> string \<Rightarrow> stored_file \<Rightarrow> homework \<Rightarrow> (string + string) \<times> homework" where
  \<comment> \<open>\<open>Code.js\<close>: as above, but a failure to trash the file is swallowed without a log
      line.\<close>
  "record_assignment_v9 env student hwId promptFile st =
     (let token = uuid env (drawn st);
          st4 = st\<lparr>drawn := drawn st + 1\<rparr>
      in case append_ledger_v9 env (ledger_row student hwId (sf_id promptFile) token (now_iso env)) st4 of
           Inr st5 \<Rightarrow>
             (Inr token,
              hw_log (''[saveHomeworkPrompt] Appended to ledger for HW_ID: '' @ hwId @
                      '', Token: '' @ token) st5)
         | Inl m \<Rightarrow>
             let st5 = hw_log (''[saveHomeworkPrompt] ERROR appending ledger row: '' @ m) st4
             in (Inl (''Failed to append ledger row: '' @ m),
                 (case set_trashed env promptFile st5 of Inr s \<Rightarrow> s | Inl tm \<Rightarrow> st5)))"

definition saveHomeworkPrompt_v9 ::
  "hw_env \<Rightarrow> string \<Rightarrow> string \<Rightarrow> string \<Rightarrow> string \<Rightarrow> homework \<Rightarrow> (string + string) \<times> homework" where
  \<comment> \<open>\<open>Code.js\<close>: no fallback file name\<close>
  "saveHomeworkPrompt_v9 env studentEmail hwId basePromptText promptFileName st =
     (case rosterFindByEmail_v9 env studentEmail of
        Inl m \<Rightarrow> (Inl m, st)
      | Inr None \<Rightarrow> (Inl (''Student email '' @ studentEmail @ '' not found.''), st)
      | Inr (Some student) \<Rightarrow>
          if Drive_Folder_ID student = [] then
            (Inl (''Drive_Folder_ID missing for '' @ studentEmail @ ''.''), st)
          else
            (case create_file env (Drive_Folder_ID student) promptFileName
                    (full_prompt basePromptText (LifeStyle student)) st of
               Inl m \<Rightarrow> (Inl (''Failed to create prompt file: '' @ m), st)
             | Inr (promptFile, st2) \<Rightarrow>
                 record_assignment_v9 env student hwId promptFile
                   (hw_log (''[saveHomeworkPrompt] Created prompt file '' @ quoted promptFileName @
                            '' for '' @ studentEmail @ ''.'') st2)))"

definition transcript_suffix :: "string \<Rightarrow> (string \<times> string) option" where
  \<comment> \<open>\<open>/_(\d{4}-\d{2}-\d{2})_([A-Za-z0-9_-]{10})\.txt$/i\<close>: the pattern has a fixed length
      of 26 and ends the string, so it can only match the last 26 characters.\<close>
  "transcript_suffix s =
     (let t = drop (length s - 26) s
      in if 26 \<le> length s \<and> take 1 t = ''_'' \<and> date_shape (take 10 (drop 1 t)) \<and>
            take 1 (drop 11 t) = ''_'' \<and> id_fragment (take 10 (drop 12 t)) \<and>
            ext_ci ''.txt'' (drop 22 t)
         then Some (take 10 (drop 1 t), take 10 (drop 12 t)) else None)"

definition row_label :: "student \<Rightarrow> string" where
  \<comment> \<open>\<open>student.RosterRowIndex || 'X'\<close>\<close>
  "row_label s = (if RosterRowIndex s = 0 then ''X'' else decimal (RosterRowIndex s))"

definition hw_id :: "student \<Rightarrow> calendar_date \<Rightarrow> string" where
  "hw_id s dt = ''L'' @ row_label s @ ''-'' @ format_yyyyMMdd dt"

definition base_prompt :: "hw_env \<Rightarrow> string list \<Rightarrow> string" where
  \<comment> \<open>the template around the list of transcripts; the fixed instructions that follow
      the list are a value of the environment, since they contain characters outside the
      modelled range.\<close>
  "base_prompt env transcriptFileNames =
     ''You are a GPT called Homework Coach.'' @ [CHR 0x0A] @
     ''Transcript files for this session: '' @ join '', '' transcriptFileNames @ ''.'' @ [CHR 0x0A] @
     coach_instructions env"

definition first_name :: "string \<Rightarrow> string" where
  \<comment> \<open>\<open>student.Name ? student.Name.split(' ')[0] : "Student"\<close>\<close>
  "first_name n = (if n = [] then ''Student'' else takeWhile (\<lambda>c. c \<noteq> CHR '' '') n)"

definition notify :: "hw_env \<Rightarrow> string \<Rightarrow> student \<Rightarrow> string \<Rightarrow> string \<Rightarrow> homework \<Rightarrow> homework" where
  \<comment> \<open>the end of \<open>assignHomework\<close>, common to both files: nothing is sent without a
      portal base URL, and an exception of \<open>MailApp.sendEmail\<close> is logged and dropped.\<close>
  "notify env studentEmail s hwId token st =
     (if falsy (HOMEWORK_PORTAL_BASEURL env) then
        hw_log ''[assignHomework] WARNING: HOMEWORK_PORTAL_BASEURL property not set. Skipping email.'' st
      else
        (case send_email_error env studentEmail of
           None \<Rightarrow>
             hw_log (''[assignHomework] HW '' @ hwId @ '' email sent to '' @ studentEmail)
               (st\<lparr>outbox := outbox st @
                  [\<lparr>mail_to = studentEmail,
                    mail_subject = ''Your new homework is ready (ID: '' @ hwId @ '')'',
                    mail_first_name = first_name (Name s),
                    mail_link = the (HOMEWORK_PORTAL_BASEURL env) @ ''/homework-coach/?token='' @ token\<rparr>]\<rparr>)
         | Some m \<Rightarrow>
             hw_log (''[assignHomework] ERROR sending email to '' @ studentEmail @ '' for HW '' @ hwId @
                     '': '' @ m) st))"

definition promptFileName_of :: "hw_env \<Rightarrow> student \<Rightarrow> string \<Rightarrow> string" where
  \<comment> \<open>\<open>part_000\<close>: the prompt is named after the date and fragment of the first transcript,
      or after the homework identifier when that name has no such ending\<close>
  "promptFileName_of env student firstTranscriptName =
     (case transcript_suffix firstTranscriptName of
        Some (d, i) \<Rightarrow> ''prompt_'' @ d @ ''_'' @ i @ ''.txt''
      | None \<Rightarrow> ''HW_'' @ hw_id student (today env) @ ''_prompt.txt'')"

definition promptFileName_of_v9 :: "student \<Rightarrow> string \<Rightarrow> string" where
  \<comment> \<open>\<open>Code.js\<close>\<close>
  "promptFileName_of_v9 student firstTranscriptName =
     (case transcript_suffix firstTranscriptName of
        Some (d, i) \<Rightarrow>
          ''prompt_'' @ replace_ws_runs (CHR ''_'') (Name student) @ ''_'' @ d @ ''_'' @ i @ ''.txt''
      | None \<Rightarrow> ''prompt_'' @ firstTranscriptName)"

definition assignHomework ::
  "hw_env \<Rightarrow> string \<Rightarrow> string list \<Rightarrow> homework \<Rightarrow> (string + unit) \<times> homework" where
  \<comment> \<open>\<open>part_000\<close>\<close>
  "assignHomework env studentEmail transcriptFileNames st =
     (if studentEmail = [] \<or> transcriptFileNames = [] then (Inl ''Missing parameters for assignHomework.'', st)
      else case rosterFindByEmail env studentEmail of
             None \<Rightarrow>
               (Inl (''Student lookup failed for '' @ studentEmail),
                hw_log (''[assignHomework] Student not found: '' @ studentEmail @ ''.'') st)
           | Some student \<Rightarrow>
               let firstTranscriptName = hd transcriptFileNames;
                   promptFileName = promptFileName_of env student firstTranscriptName;
                   st1 = hw_log (if transcript_suffix firstTranscriptName \<noteq> None
                                 then ''[assignHomework] Prompt filename: '' @ promptFileName
                                 else ''[assignHomework] WARNING: Cannot parse '' @ quoted firstTranscriptName @
                                      ''. Using default naming.'') st;
                   hwId = hw_id student (today env)
               in case saveHomeworkPrompt env studentEmail hwId (base_prompt env transcriptFileNames)
                         (Some promptFileName) st1 of
                    (Inl m, st2) \<Rightarrow> (Inl m, st2)
                  | (Inr token, st2) \<Rightarrow> (Inr (), notify env studentEmail student hwId token st2))"

definition assignHomework_v9 ::
  "hw_env \<Rightarrow> string \<Rightarrow> string list \<Rightarrow> homework \<Rightarrow> (string + unit) \<times> homework" where
  \<comment> \<open>\<open>Code.js\<close>\<close>
  "assignHomework_v9 env studentEmail transcriptFileNames st =
     (if studentEmail = [] \<or> transcriptFileNames = [] then (Inl ''Missing parameters for assignHomework.'', st)
      else case rosterFindByEmail_v9 env studentEmail of
             Inl m \<Rightarrow> (Inl m, st)
           | Inr None \<Rightarrow> (Inl (''Student lookup failed for '' @ studentEmail), st)
           | Inr (Some student) \<Rightarrow>
               let hwId = hw_id student (today env)
               in case saveHomeworkPrompt_v9 env studentEmail hwId (base_prompt env transcriptFileNames)
                         (promptFileName_of_v9 student (hd transcriptFileNames)) st of
                    (Inl m, st2) \<Rightarrow> (Inl m, st2)
                  | (Inr token, st2) \<Rightarrow> (Inr (), notify env studentEmail student hwId token st2))"

section \<open>Transcript Distribution\<close>

record roster_entry =
  re_folderId :: string
  re_originalName :: string
  re_email :: string

fun build_roster_map ::
  "nat \<Rightarrow> nat \<Rightarrow> nat \<Rightarrow> string list list \<Rightarrow> (string \<times> roster_entry) list \<Rightarrow> (string \<times> roster_entry) list" where
  \<comment> \<open>the loop over the roster rows; the map keeps its insertion order and the first
      row of a name\<close>
  "build_roster_map nameCol folderIdCol emailCol [] rosterMap = rosterMap"
| "build_roster_map nameCol folderIdCol emailCol (row # rows) rosterMap =
     (let nameRaw = cell row (int nameCol); idRaw = cell row (int folderIdCol);
          emailRaw = cell row (int emailCol)
      in build_roster_map nameCol folderIdCol emailCol rows
           (if trim nameRaw \<noteq> [] \<and> trim idRaw \<noteq> [] \<and> trim emailRaw \<noteq> [] then
              (let nameProcessed = trim (underscores_to_spaces (toLowerCase nameRaw))
               in if map_of rosterMap nameProcessed = None
                  then rosterMap @ [(nameProcessed,
                         \<lparr>re_folderId = trim idRaw, re_originalName = trim nameRaw, re_email = trim emailRaw\<rparr>)]
                  else rosterMap)
            else rosterMap))"

definition import_tail :: "string \<Rightarrow> string option" where
  \<comment> \<open>\<open>_(\d{4}-\d{2}-\d{2})(?:_[A-Za-z0-9_-]{10})?\.txt$\<close> under the \<open>i\<close> flag\<close>
  "import_tail r =
     (case r of
        [] \<Rightarrow> None
      | c # cs \<Rightarrow>
          if c = CHR ''_'' \<and> date_shape (take 10 cs) \<and>
             (ext_ci ''.txt'' (drop 10 cs) \<or>
              (case drop 10 cs of
                 [] \<Rightarrow> False
               | u # us \<Rightarrow> u = CHR ''_'' \<and> id_fragment (take 10 us) \<and> ext_ci ''.txt'' (drop 10 us)))
          then Some (take 10 cs) else None)"

definition studentNameProcessed_of :: "string \<Rightarrow> string" where
  \<comment> \<open>\<open>raw.replace(/[+\-~`']/g, ' ').replace(/_/g, ' ').replace(/\s+/g, ' ').toLowerCase().trim()\<close>\<close>
  "studentNameProcessed_of studentNamePartRaw =
     trim (toLowerCase (replace_ws_runs (CHR '' '')
       (underscores_to_spaces (map (\<lambda>c. if is_warning_char c then CHR '' '' else c) studentNamePartRaw))))"

datatype derived = Unrecognized | Excluded | Nameless | Roster_key string

definition derive_student :: "string \<Rightarrow> derived" where
  \<comment> \<open>what the distribution loop reads off the name of a transcript file: the pattern
      does not match, the name part has an asterisk, the processed name is empty, or the
      processed name, which is the key looked up in the roster map. The date captured by
      the pattern is not read.\<close>
  "derive_student fileNameRelative =
     (case anchored_lazy import_tail fileNameRelative of
        None \<Rightarrow> Unrecognized
      | Some (studentNamePartRaw, d) \<Rightarrow>
          if CHR ''*'' \<in> set studentNamePartRaw then Excluded
          else
            let studentNameProcessed = studentNameProcessed_of studentNamePartRaw
            in if studentNameProcessed = [] then Nameless else Roster_key studentNameProcessed)"

definition fetchGCSFileContent :: "hw_env \<Rightarrow> string \<Rightarrow> string \<Rightarrow> string \<Rightarrow> string option" where
  \<comment> \<open>\<open>None\<close> is \<open>null\<close>\<close>
  "fetchGCSFileContent env bucketName objectName accessToken =
     (if bucketName = [] \<or> objectName = [] \<or> accessToken = [] then None
      else case gcs_get env objectName of
             Fetch_throws m \<Rightarrow> None
           | Response responseCode body \<Rightarrow> if responseCode = 200 then Some body else None)"

record import_run =
  hw :: homework
  importedFilesByStudent :: "(string \<times> string list) list"
  importCount :: nat
  errorCount_i :: nat
  skippedExistsCount :: nat
  skippedNoMatchCount :: nat
  skippedAsteriskCount :: nat

fun push_file :: "string \<Rightarrow> string \<Rightarrow> (string \<times> string list) list \<Rightarrow> (string \<times> string list) list" where
  \<comment> \<open>\<open>if (!m.has(k)) m.set(k, []); m.get(k).push(f)\<close> on a map in insertion order\<close>
  "push_file k f [] = [(k, [f])]"
| "push_file k f ((k', fs) # m) = (if k' = k then (k', fs @ [f]) # m else (k', fs) # push_file k f m)"

definition endsWith :: "string \<Rightarrow> string \<Rightarrow> bool" where
  "endsWith s suffix \<longleftrightarrow> startsWith (rev s) (rev suffix)"

definition on_import_error :: "string \<Rightarrow> import_run \<Rightarrow> string option \<times> import_run" where
  \<comment> \<open>the \<open>catch\<close> of the loop body. Its two suggestion lines print \<open>folderId\<close>, a
      constant of the \<open>try\<close> block that is not in scope in the handler: when the message
      selects one of them, a \<open>ReferenceError\<close> leaves the handler, the loop and the
      function. The first component is the message of that uncaught error.\<close>
  "on_import_error message r =
     (let r' = r\<lparr>errorCount_i := errorCount_i r + 1\<rparr>; m = toLowerCase message
      in if (str_includes m ''not found'' \<and> str_includes m ''folder'') \<or>
            str_includes m ''permission'' \<or> str_includes m ''forbidden''
         then (Some ''folderId is not defined'', r')
         else (None, r'))"

definition import_item ::
  "hw_env \<Rightarrow> string \<Rightarrow> string \<Rightarrow> (string \<times> roster_entry) list \<Rightarrow> string option \<Rightarrow> import_run
     \<Rightarrow> string option \<times> import_run" where
  \<comment> \<open>the body of \<open>transcripts.forEach\<close> for one listed object, given by its name\<close>
  "import_item env currentBucketName accessToken rosterMap item r =
     (case item of
        None \<Rightarrow> (None, r\<lparr>errorCount_i := errorCount_i r + 1\<rparr>)
      | Some fullGcsPath \<Rightarrow>
          if fullGcsPath = [] then (None, r\<lparr>errorCount_i := errorCount_i r + 1\<rparr>)
          else if \<not> startsWith fullGcsPath ''transcripts/'' \<or> endsWith fullGcsPath ''/'' \<or>
                  str_includes (drop 12 fullGcsPath) ''/'' then (None, r)
          else
            let fileNameRelative = drop 12 fullGcsPath
            in if fileNameRelative = [] then (None, r)
               else
                 (case derive_student fileNameRelative of
                    Unrecognized \<Rightarrow> (None, r)
                  | Excluded \<Rightarrow> (None, r\<lparr>skippedAsteriskCount := skippedAsteriskCount r + 1\<rparr>)
                  | Nameless \<Rightarrow> (None, r\<lparr>skippedNoMatchCount := skippedNoMatchCount r + 1\<rparr>)
                  | Roster_key studentNameProcessed \<Rightarrow>
                      (case map_of rosterMap studentNameProcessed of
                         None \<Rightarrow> (None, r\<lparr>skippedNoMatchCount := skippedNoMatchCount r + 1\<rparr>)
                       | Some studentData \<Rightarrow>
                           if re_email studentData = [] then (None, r)
                           else
                             (case fetchGCSFileContent env currentBucketName fullGcsPath accessToken of
                                None \<Rightarrow> on_import_error (''GCS fetch failed: '' @ fullGcsPath) r
                              | Some transcriptContent \<Rightarrow>
                                  (case folders (hw r) (re_folderId studentData) of
                                     None \<Rightarrow> on_import_error (folder_error env) r
                                   | Some existing \<Rightarrow>
                                       if list_ex (\<lambda>f. sf_name f = fileNameRelative) existing
                                       then (None, r\<lparr>skippedExistsCount := skippedExistsCount r + 1\<rparr>)
                                       else
                                         (case create_file env (re_folderId studentData) fileNameRelative
                                                 transcriptContent (hw r) of
                                            Inl m \<Rightarrow> on_import_error m r
                                          | Inr (newFile, h) \<Rightarrow>
                                              (None,
                                               r\<lparr>hw := h, importCount := importCount r + 1,
                                                 importedFilesByStudent :=
                                                   push_file (re_email studentData) fileNameRelative
                                                     (importedFilesByStudent r)\<rparr>)))))))"

fun import_items ::
  "(string option \<Rightarrow> import_run \<Rightarrow> string option \<times> import_run) \<Rightarrow> string option list \<Rightarrow> import_run
     \<Rightarrow> string option \<times> import_run" where
  \<comment> \<open>\<open>forEach\<close>, left by the first uncaught error\<close>
  "import_items step [] r = (None, r)"
| "import_items step (x # xs) r =
     (case step x r of
        (Some e, r') \<Rightarrow> (Some e, r')
      | (None, r') \<Rightarrow> import_items step xs r')"

fun assign_batches ::
  "hw_env \<Rightarrow> (string \<times> string list) list \<Rightarrow> homework \<times> nat \<Rightarrow> homework \<times> nat" where
  \<comment> \<open>the loop over \<open>importedFilesByStudent.entries()\<close>, with \<open>assignmentErrors\<close>\<close>
  "assign_batches env [] acc = acc"
| "assign_batches env ((studentEmail, transcriptFileNames) # rest) (st, assignmentErrors) =
     (if transcriptFileNames \<noteq> [] then
        (case assignHomework env studentEmail transcriptFileNames st of
           (Inr u, st') \<Rightarrow> assign_batches env rest (st', assignmentErrors)
         | (Inl m, st') \<Rightarrow> assign_batches env rest (st', assignmentErrors + 1))
      else assign_batches env rest (st, assignmentErrors))"

record import_result =
  uncaught :: "string option"
  final :: homework
  batches :: "(string \<times> string list) list"
  imported :: nat
  skippedExists :: nat
  assignmentErrors :: nat

definition no_import :: "homework \<Rightarrow> import_result" where
  \<comment> \<open>an early \<open>return\<close> before the loop\<close>
  "no_import st = \<lparr>uncaught = None, final = st, batches = [], imported = 0, skippedExists = 0,
                   assignmentErrors = 0\<rparr>"

definition importTranscriptsToDrive :: "hw_env \<Rightarrow> homework \<Rightarrow> import_result" where
  \<comment> \<open>\<open>part_000\<close>. The listing is the result of \<open>listGCSFiles\<close>, one entry per object
      with its name if it has one.\<close>
  "importTranscriptsToDrive env st =
     (if falsy (STUDENT_ROSTER_ID env) \<or> falsy (BUCKET_NAME env) then no_import st
      else case auth_token env of
             Inl m \<Rightarrow> no_import st
           | Inr accessToken \<Rightarrow>
               if open_spreadsheet_error env \<noteq> None then no_import st
               else (case current_students env of
                       None \<Rightarrow> no_import st
                     | Some rosterData \<Rightarrow>
                         if length rosterData < 2 then no_import st
                         else
                           let header = header_lower (hd rosterData)
                           in (case (index_of header ''student_name'', index_of header ''drive_folder_id'',
                                     index_of header ''student_email'') of
                                 (Some nameCol, Some folderIdCol, Some emailCol) \<Rightarrow>
                                   let rosterMap = build_roster_map nameCol folderIdCol emailCol (tl rosterData) []
                                   in if rosterMap = [] then no_import st
                                      else (case listing env of
                                              Inl m \<Rightarrow> no_import st
                                            | Inr transcripts \<Rightarrow>
                                                if transcripts = [] then no_import st
                                                else
                                                  (case import_items
                                                          (import_item env (the (BUCKET_NAME env))
                                                             accessToken rosterMap)
                                                          transcripts
                                                          \<lparr>hw = st, importedFilesByStudent = [], importCount = 0,
                                                           errorCount_i = 0, skippedExistsCount = 0,
                                                           skippedNoMatchCount = 0, skippedAsteriskCount = 0\<rparr> of
                                                     (Some e, r) \<Rightarrow>
                                                       \<lparr>uncaught = Some e, final = hw r,
                                                        batches = importedFilesByStudent r,
                                                        imported = importCount r,
                                                        skippedExists = skippedExistsCount r,
                                                        assignmentErrors = 0\<rparr>
                                                   | (None, r) \<Rightarrow>
                                                       (let (st', errs) = assign_batches env
                                                              (importedFilesByStudent r) (hw r, 0)
                                                        in \<lparr>uncaught = None, final = st',
                                                            batches = importedFilesByStudent r,
                                                            imported = importCount r,
                                                            skippedExists = skippedExistsCount r,
                                                            assignmentErrors = errs\<rparr>)))
                               | _ \<Rightarrow> no_import st)))"

section \<open>Job Status Poller and Completion Handler\<close>

datatype request =
    GetJobStatus string
  | GetJobDetails string
  | GetTranscript string
  | UploadObject string string
  | CheckObject string
  | CopyObject string string
  | DeleteObject string

text \<open>
  The provider and the storage backend answer each request of a poll pass. The loop
  handles one ledger row at a time and sends each request at most once per row, so the
  answers of a pass are given by row number and request. Every request sent is recorded
  with the number of the row it was sent for.
\<close>

record monitor_env =
  parse_json :: "string \<Rightarrow> json option"
  answer :: "nat \<Rightarrow> request \<Rightarrow> response"
  TRACKING_SHEET_ID_m :: "string option"
  BUCKET_NAME_m :: "string option"
  SPEECHMATICS_API_KEY :: "string option"
  service_token :: "string + string"
  open_tracking_error :: "string option"

record monitor_state =
  jobs_sheet :: "job_row list"
  sent :: "(nat \<times> request) list"
  checkedCount :: nat
  completedCount :: nat
  errorCount_m :: nat

definition terminalStatuses :: "string list" where
  "terminalStatuses =
     [''done'', ''rejected'', ''processing_error'', ''gcs_error'', ''transcript_fetch_error'',
      ''submission_error'', ''submission_exception'', ''cloudrun_error'', ''cloudrun_no_jobid'',
      ''not_found'', ''error_fetching_status'', ''exception_fetching_status'', ''error_parsing_response'',
      ''error_unauthorized'', ''error_missing_jobid'', ''gcs_move_error'']"

definition submittedStatuses :: "string list" where
  "submittedStatuses = [''submitted'', ''running'', ''processing'']"

definition fetch :: "monitor_env \<Rightarrow> nat \<Rightarrow> request \<Rightarrow> monitor_state \<Rightarrow> response \<times> monitor_state" where
  "fetch env row rq st = (answer env row rq, st\<lparr>sent := sent st @ [(row, rq)]\<rparr>)"

fun js_string :: "json \<Rightarrow> string" where
  \<comment> \<open>\<open>String(v)\<close>, as a template literal and \<open>RegExp.test\<close> coerce a parsed value; an
      array joins its elements with commas, \<open>null\<close> elements as empty strings\<close>
  "js_string JNull = ''null''"
| "js_string (JBool b) = (if b then ''true'' else ''false'')"
| "js_string (JNum n) = (if n < 0 then CHR ''-'' # decimal (nat (- n)) else decimal (nat n))"
| "js_string (JStr s) = s"
| "js_string (JArr xs) = join '','' (map (\<lambda>x. if x = JNull then [] else js_string x) xs)"
| "js_string (JObj kvs) = ''[object Object]''"

definition chain :: "json option \<Rightarrow> string \<Rightarrow> json option" where
  \<comment> \<open>\<open>v?.k\<close> on a value that may be \<open>undefined\<close>\<close>
  "chain v k = (case v of None \<Rightarrow> None | Some j \<Rightarrow> get_prop j k)"

definition getJobStatus :: "monitor_env \<Rightarrow> nat \<Rightarrow> string \<Rightarrow> string \<Rightarrow> monitor_state \<Rightarrow> json \<times> monitor_state" where
  \<comment> \<open>the result is \<open>jsonResponse.job.status\<close> as parsed whenever that is truthy, so it
      need not be a string\<close>
  "getJobStatus env row jobId speechmaticsApiKey st =
     (if jobId = [] \<or> speechmaticsApiKey = [] then (JStr ''error_missing_params'', st)
      else case fetch env row (GetJobStatus jobId) st of
             (Fetch_throws m, st') \<Rightarrow> (JStr ''exception_fetching_status'', st')
           | (Response responseCode body, st') \<Rightarrow>
               if responseCode = 200 then
                 (case parse_json env body of
                    None \<Rightarrow> (JStr ''error_parsing_response'', st')
                  | Some jsonResponse \<Rightarrow>
                      (case chain (get_prop jsonResponse ''job'') ''status'' of
                         Some v \<Rightarrow> if truthy v then (v, st') else (JStr ''error_parsing_response'', st')
                       | None \<Rightarrow> (JStr ''error_parsing_response'', st')))
               else if responseCode = 401 then (JStr ''error_unauthorized'', st')
               else if responseCode = 404 then (JStr ''not_found'', st')
               else if responseCode = 429 then (JStr ''rate_limited'', st')
               else (JStr (''error_fetching_'' @ decimal responseCode), st'))"

definition strip_mp4 :: "string \<Rightarrow> string" where
  \<comment> \<open>\<open>.replace(/\.mp4$/i, '')\<close>\<close>
  "strip_mp4 s = (if 4 \<le> length s \<and> ext_ci ''.mp4'' (drop (length s - 4) s) then take (length s - 4) s else s)"

definition nameFormatRegex :: "string \<Rightarrow> bool" where
  \<comment> \<open>\<open>/.+_\d{4}-\d{2}-\d{2}_[A-Za-z0-9_-]{10}\.mp4$/i\<close>: the last 26 characters have the
      shape, and the one before them is not a line terminator.\<close>
  "nameFormatRegex s \<longleftrightarrow>
     27 \<le> length s \<and>
     (let t = drop (length s - 27) s
      in \<not> is_line_terminator (hd t) \<and> take 1 (drop 1 t) = ''_'' \<and> date_shape (take 10 (drop 2 t)) \<and>
         take 1 (drop 12 t) = ''_'' \<and> id_fragment (take 10 (drop 13 t)) \<and> ext_ci ''.mp4'' (drop 23 t))"

definition sm_error :: "monitor_env \<Rightarrow> string \<Rightarrow> string" where
  \<comment> \<open>\<open>JSON.parse(responseText)?.error || responseText\<close> as the error message prints it,
      falling back to the text when the body does not parse\<close>
  "sm_error env body =
     (case chain (parse_json env body) ''error'' of
        Some v \<Rightarrow> if truthy v then js_string v else body
      | None \<Rightarrow> body)"

definition handleCompletedJob ::
  "monitor_env \<Rightarrow> nat \<Rightarrow> string \<Rightarrow> string \<Rightarrow> string \<Rightarrow> string \<Rightarrow> string \<Rightarrow> monitor_state
     \<Rightarrow> string option \<times> monitor_state" where
  \<comment> \<open>the first component is the message of the error thrown, if any. A tracking title
      that is not a string but prints like a canonical name has no \<open>replace\<close> method.\<close>
  "handleCompletedJob env row fileName jobId bucketName accessToken apiKey st =
     (if fileName = [] \<or> jobId = [] \<or> bucketName = [] \<or> accessToken = [] \<or> apiKey = []
      then (Some ''Missing parameters for handleCompletedJob'', st)
      else
        let (details, st1) = fetch env row (GetJobDetails jobId) st;
            trackingTitle =
              (case details of
                 Fetch_throws m \<Rightarrow> None
               | Response code body \<Rightarrow>
                   if code = 200 then
                     (case chain (chain (chain (parse_json env body) ''job'') ''tracking'') ''title'' of
                        Some v \<Rightarrow> if truthy v then Some v else None
                      | None \<Rightarrow> None)
                   else None)
        in case (case trackingTitle of
                   Some v \<Rightarrow>
                     if nameFormatRegex (js_string v)
                     then (case v of JStr t \<Rightarrow> Inr (strip_mp4 t)
                                   | _ \<Rightarrow> Inl ''trackingTitle.replace is not a function'')
                     else Inr (strip_mp4 fileName)
                 | None \<Rightarrow> Inr (strip_mp4 fileName)) of
             Inl m \<Rightarrow> (Some m, st1)
           | Inr transcriptFileNameBase \<Rightarrow>
               let transcriptFileName = transcriptFileNameBase @ ''.txt'';
                   (fetched, st2) = fetch env row (GetTranscript jobId) st1
               in case fetched of
                    Fetch_throws m \<Rightarrow> (Some (''Transcript fetch error: '' @ m), st2)
                  | Response transcriptResponseCode responseText \<Rightarrow>
                      if transcriptResponseCode \<noteq> 200 then
                        (Some (''Transcript fetch error: Transcript fetch failed ('' @
                               decimal transcriptResponseCode @ ''): '' @ sm_error env responseText), st2)
                      else
                        let gcsObjectName = ''transcripts/'' @ transcriptFileName;
                            (uploaded, st3) = fetch env row (UploadObject gcsObjectName responseText) st2
                        in case uploaded of
                             Fetch_throws m \<Rightarrow> (Some (''GCS upload error: '' @ m), st3)
                           | Response uploadResponseCode uploadResponseText \<Rightarrow>
                               if uploadResponseCode \<noteq> 200 then
                                 (Some (''GCS upload error: GCS upload failed ('' @ decimal uploadResponseCode @
                                        ''): '' @ uploadResponseText), st3)
                               else (None, st3))"

definition moveFileInGCS ::
  "monitor_env \<Rightarrow> nat \<Rightarrow> string \<Rightarrow> string \<Rightarrow> string \<Rightarrow> string \<Rightarrow> monitor_state
     \<Rightarrow> string option \<times> monitor_state" where
  \<comment> \<open>copy, then delete; a source that is not there (404) ends the move without error\<close>
  "moveFileInGCS env row bucketName sourceObjectName destinationObjectName token st =
     (if bucketName = [] \<or> sourceObjectName = [] \<or> destinationObjectName = [] \<or> token = []
      then (Some ''Missing parameters for moveFileInGCS'', st)
      else
        let (head, st1) = fetch env row (CheckObject sourceObjectName) st
        in case head of
             Fetch_throws m \<Rightarrow> (Some (''MoveGCS check source error: '' @ sourceObjectName), st1)
           | Response headRespCode body \<Rightarrow>
               if headRespCode = 404 then (None, st1)
               else if headRespCode \<noteq> 200 then (Some (''MoveGCS check source error: '' @ sourceObjectName), st1)
               else
                 let (copied, st2) = fetch env row (CopyObject sourceObjectName destinationObjectName) st1;
                     copyOk = (case copied of Fetch_throws m \<Rightarrow> False | Response c b \<Rightarrow> c = 200)
                 in if \<not> copyOk
                    then (Some (''MoveGCS copy error: '' @ sourceObjectName @ '' to '' @ destinationObjectName), st2)
                    else
                      let (deleted, st3) = fetch env row (DeleteObject sourceObjectName) st2;
                          deleteOk = (case deleted of Fetch_throws m \<Rightarrow> False | Response c b \<Rightarrow> c = 204)
                      in if \<not> deleteOk
                         then (Some (''MoveGCS delete source error: '' @ sourceObjectName), st3)
                         else (None, st3))"

definition set_status :: "nat \<Rightarrow> string \<Rightarrow> monitor_state \<Rightarrow> monitor_state" where
  \<comment> \<open>\<open>sheet.getRange(currentRow, 3).setValue(v); SpreadsheetApp.flush()\<close>, where rows are
      numbered from 1\<close>
  "set_status currentRow v st =
     st\<lparr>jobs_sheet := (jobs_sheet st)[currentRow - 1 := (jobs_sheet st ! (currentRow - 1))\<lparr>status_cell := v\<rparr>]\<rparr>"

definition specific_error_status :: "string \<Rightarrow> string" where
  "specific_error_status message =
     (let m = toLowerCase message
      in if str_includes m ''transcript'' then ''transcript_fetch_error''
         else if str_includes m ''gcs upload'' then ''gcs_error''
         else if str_includes m ''movegcs'' then ''gcs_move_error''
         else ''processing_error'')"

definition monitor_row ::
  "monitor_env \<Rightarrow> string \<Rightarrow> string \<Rightarrow> string \<Rightarrow> nat \<Rightarrow> job_row \<Rightarrow> monitor_state
     \<Rightarrow> string option \<times> monitor_state" where
  \<comment> \<open>the body of the \<open>for\<close> loop for \<open>data[i]\<close>, the row read before the loop started.
      The first component is the message of an error that leaves the loop: a status that
      is not a string has no \<open>toLowerCase\<close> method, and the call is outside every \<open>try\<close>.\<close>
  "monitor_row env currentBucketName accessToken currentSpeechmaticsApiKey i r st =
     (let fileName = trim (fileName_cell r);
          jobId = trim (jobId_cell r);
          localStatus = toLowerCase (trim (status_cell r));
          currentRow = i + 2;
          active = (localStatus \<in> set submittedStatuses \<or> localStatus = ''processing_transcript'')
      in if fileName = [] \<or> localStatus \<in> set terminalStatuses then (None, st)
         else if active \<and> jobId = [] then
           (if localStatus \<noteq> ''error_missing_jobid''
            then (None, (set_status currentRow ''error_missing_jobid'' st)\<lparr>errorCount_m := errorCount_m st + 1\<rparr>)
            else (None, st))
         else if \<not> active then (None, st)
         else
           let st0 = st\<lparr>checkedCount := checkedCount st + 1\<rparr>;
               (returned, st1) = getJobStatus env currentRow jobId currentSpeechmaticsApiKey st0
           in case returned of
                JStr newStatus \<Rightarrow>
                  (let newStatusLower = toLowerCase newStatus
                   in if newStatusLower = ''done'' then
                        (if localStatus = ''done'' then (None, st1)
                         else
                           let st2 = set_status currentRow ''processing_transcript'' st1;
                               (handled, st3) = handleCompletedJob env currentRow fileName jobId currentBucketName
                                                  accessToken currentSpeechmaticsApiKey st2;
                               (err, st4) = (case handled of
                                               Some m \<Rightarrow> (Some m, st3)
                                             | None \<Rightarrow> moveFileInGCS env currentRow currentBucketName
                                                         (''incoming/'' @ fileName) (''processed/'' @ fileName)
                                                         accessToken st3);
                               finalStatus = (case err of Some m \<Rightarrow> specific_error_status m | None \<Rightarrow> ''done'');
                               st5 = set_status currentRow finalStatus st4
                           in (case err of
                                 None \<Rightarrow> (None, st5\<lparr>completedCount := completedCount st5 + 1\<rparr>)
                               | Some m \<Rightarrow> (None, st5\<lparr>errorCount_m := errorCount_m st5 + 1\<rparr>)))
                      else if newStatusLower = ''rate_limited'' then (None, st1)
                      else if newStatusLower \<in> set terminalStatuses then
                        (if newStatusLower \<noteq> localStatus then
                           (let st2 = set_status currentRow newStatus st1
                            in if str_includes newStatusLower ''error'' \<or> str_includes newStatusLower ''reject'' \<or>
                                  newStatusLower = ''not_found''
                               then (None, st2\<lparr>errorCount_m := errorCount_m st2 + 1\<rparr>) else (None, st2))
                         else (None, st1))
                      else if newStatusLower \<noteq> localStatus \<and> newStatus \<noteq> []
                      then (None, set_status currentRow newStatus st1)
                      else (None, st1))
              | _ \<Rightarrow> (Some ''newStatus.toLowerCase is not a function'', st1))"

fun monitor_rows ::
  "(nat \<Rightarrow> job_row \<Rightarrow> monitor_state \<Rightarrow> string option \<times> monitor_state) \<Rightarrow> nat \<Rightarrow> job_row list
     \<Rightarrow> monitor_state \<Rightarrow> string option \<times> monitor_state" where
  \<comment> \<open>\<open>for (let i = 0; i < data.length; i++)\<close> from index \<open>i\<close> on, left by the first
      uncaught error\<close>
  "monitor_rows step i [] st = (None, st)"
| "monitor_rows step i (r # rs) st =
     (case step i r st of
        (Some e, st') \<Rightarrow> (Some e, st')
      | (None, st') \<Rightarrow> monitor_rows step (Suc i) rs st')"

definition monitorTranscriptionJobs :: "monitor_env \<Rightarrow> monitor_state \<Rightarrow> string option \<times> monitor_state" where
  \<comment> \<open>the first component is the message of an uncaught error, if the pass ends with one;
      the counters of the result are those of the final log line\<close>
  "monitorTranscriptionJobs env st =
     (if falsy (TRACKING_SHEET_ID_m env) \<or> falsy (BUCKET_NAME_m env) \<or> falsy (SPEECHMATICS_API_KEY env)
      then (None, st)
      else case service_token env of
             Inl m \<Rightarrow> (None, st)
           | Inr accessToken \<Rightarrow>
               (case open_tracking_error env of
                  Some m \<Rightarrow> (Some m, st)
                | None \<Rightarrow>
                    if length (jobs_sheet st) < 2 then (None, st)
                    else monitor_rows
                           (monitor_row env (the (BUCKET_NAME_m env)) accessToken (the (SPEECHMATICS_API_KEY env)))
                           0 (tl (jobs_sheet st))
                           (st\<lparr>checkedCount := 0, completedCount := 0, errorCount_m := 0\<rparr>)))"

section \<open>A small roster for worked examples\<close>

definition demo_roster :: "string list list" where
  "demo_roster =
     [[''Student_Name'', ''Student_ID'', ''Student_Email'', ''Drive_Folder_ID''],
      [''Jane Doe'', ''S1'', ''jane@x.com'', ''F1''],
      [''Omar Haddad'', ''S2'', ''omar@x.com'', ''F2'']]"

definition demo_env :: hw_env where
  "demo_env =
     \<lparr>STUDENT_ROSTER_ID = Some ''roster'', HOMEWORK_SHEET_NAME = Some ''Homework_Push'',
      ROSTER_DRIVE_FOLDER_ID = Col 3, HOMEWORK_PORTAL_BASEURL = Some ''https://portal.example'',
      BUCKET_NAME = Some ''bucket'', open_spreadsheet_error = None,
      current_students = Some demo_roster, hw_tab_exists = (\<lambda>n. n = ''Homework_Push''),
      folder_error = ''Unexpected error while getting the method or property getFolderById'',
      create_file_error = (\<lambda>d n. None), new_file_id = (\<lambda>n. ''file'' @ decimal n),
      append_row_error = (\<lambda>r. None), trash_error = (\<lambda>i. None), send_email_error = (\<lambda>a. None),
      uuid = (\<lambda>n. ''token'' @ decimal n), today = \<lparr>year = 2024, month = 3, day = 2\<rparr>,
      now_iso = ''2024-03-02T08:00:00.000Z'', coach_instructions = ''Ask up to 10 questions.'',
      auth_token = Inr ''bearer'',
      listing = Inr [Some ''transcripts/Jane_Doe_2024-03-01_AbCdEfGhIj.txt'',
                     Some ''transcripts/Jane_Doe_2024-03-01_KlMnOpQrSt.txt'',
                     Some ''transcripts/Jane_Doe_2024-03-01_UvWxYz0123.txt''],
      gcs_get = (\<lambda>n. Response 200 ''Good morning.'')\<rparr>"

definition demo_state :: homework where
  "demo_state =
     \<lparr>folders = (\<lambda>k. if k = ''F1'' \<or> k = ''F2'' then Some [] else None), trash = [], ledger = [],
      outbox = [], logged = [], created = 0, drawn = 0\<rparr>"

definition demo_jane :: student where
  "demo_jane = \<lparr>Student_ID = ''S1'', Name = ''Jane Doe'', Email = ''jane@x.com'',
                 Drive_Folder_ID = ''F1'', LifeStyle = [], RosterRowIndex = 2\<rparr>"

definition ledger_down :: hw_env where
  \<comment> \<open>the same surroundings, with \<open>appendRow\<close> throwing\<close>
  "ledger_down = demo_env\<lparr>append_row_error := (\<lambda>r. Some ''Service error: Spreadsheets'')\<rparr>"

definition ledger_and_trash_down :: hw_env where
  \<comment> \<open>\<open>appendRow\<close> and \<open>setTrashed\<close> both throwing\<close>
  "ledger_and_trash_down = ledger_down\<lparr>trash_error := (\<lambda>i. Some ''Access denied: DriveApp'')\<rparr>"

definition no_portal :: hw_env where
  \<comment> \<open>the same surroundings, without the property \<open>HOMEWORK_PORTAL_BASEURL\<close>\<close>
  "no_portal = demo_env\<lparr>HOMEWORK_PORTAL_BASEURL := None\<rparr>"

definition mail_down :: hw_env where
  \<comment> \<open>\<open>MailApp.sendEmail\<close> throwing\<close>
  "mail_down = demo_env\<lparr>send_email_error := (\<lambda>a. Some ''Service invoked too many times for one day: email.'')\<rparr>"

section \<open>Facts about strings and the filename parser\<close>

subsection \<open>Characters\<close>

lemma line_terminator_ws: "is_line_terminator c \<Longrightarrow> is_ws c"
  by (auto simp: is_line_terminator_def is_ws_def)

lemma digit_facts: "is_digit c \<Longrightarrow> \<not> is_sep c \<and> \<not> is_ws c \<and> \<not> is_line_terminator c \<and> c \<noteq> CHR ''/'' \<and> c \<noteq> CHR ''.'' \<and> is_id_char c"
  by (auto simp: is_digit_def is_sep_def is_ws_def is_line_terminator_def is_id_char_def)

lemma id_char_facts: "is_id_char c \<Longrightarrow> \<not> is_ws c \<and> \<not> is_line_terminator c \<and> c \<noteq> CHR ''/'' \<and> c \<noteq> CHR ''.''"
  by (auto simp: is_id_char_def is_digit_def is_upper_def is_lower_def is_ws_def is_line_terminator_def)

lemma sep_facts: "is_sep c \<Longrightarrow> \<not> is_digit c"
  by (auto simp: is_digit_def is_sep_def)

lemma date_shape_chars:
  "date_shape s \<Longrightarrow> length s = 10 \<and> is_digit (hd s) \<and> list_all (\<lambda>c. is_digit c \<or> c = CHR ''-'') s"
  by (induction s rule: date_shape.induct) auto

subsection \<open>trim and friends\<close>

lemma dropWhile_hd: "xs = [] \<or> \<not> P (hd xs) \<Longrightarrow> dropWhile P xs = xs"
  by (cases xs) auto

lemma trim_id: "s \<noteq> [] \<Longrightarrow> \<not> is_ws (hd s) \<Longrightarrow> \<not> is_ws (last s) \<Longrightarrow> trim s = s"
  by (simp add: trim_def dropWhile_hd hd_rev)

lemma strip_extension_mp4: "strip_extension (stem @ [CHR ''.'', a, b, c]) = stem"
  if "a \<noteq> CHR ''.''" "a \<noteq> CHR ''/''" "b \<noteq> CHR ''.''" "b \<noteq> CHR ''/''" "c \<noteq> CHR ''.''" "c \<noteq> CHR ''/''"
  using that by (simp add: strip_extension_def)


subsection \<open>Lazy groups\<close>

lemma lazy_prefix_found:
  assumes "tl_match rest = Some r"
    and "\<forall>k<length xs. tl_match (drop k xs @ rest) = None"
    and "\<not> list_ex is_line_terminator xs"
  shows "lazy_prefix tl_match acc (xs @ rest) = Some (acc @ xs, r)"
  using assms
proof (induction xs arbitrary: acc)
  case Nil
  then show ?case by (cases rest) simp_all
next
  case (Cons x xs)
  from Cons.prems(2) have here: "tl_match (x # xs @ rest) = None" by force
  from Cons.prems(2) have later: "\<forall>k<length xs. tl_match (drop k xs @ rest) = None" by force
  from Cons.prems(3) have x: "\<not> is_line_terminator x" and xs: "\<not> list_ex is_line_terminator xs"
    by simp_all
  from Cons.IH [of "acc @ [x]"] Cons.prems(1) later xs here x show ?case by simp
qed

lemma anchored_lazy_found:
  assumes "tl_match rest = Some r"
    and "pre \<noteq> []"
    and "\<forall>k. 1 \<le> k \<and> k < length pre \<longrightarrow> tl_match (drop k pre @ rest) = None"
    and "\<not> list_ex is_line_terminator pre"
  shows "anchored_lazy tl_match (pre @ rest) = Some (pre, r)"
proof -
  from assms(2) obtain c cs where pre: "pre = c # cs" by (cases pre) auto
  from assms(3) pre have "\<forall>k<length cs. tl_match (drop k cs @ rest) = None" by force
  moreover from assms(4) pre have "\<not> is_line_terminator c" "\<not> list_ex is_line_terminator cs" by simp_all
  ultimately show ?thesis
    using lazy_prefix_found [of tl_match rest r cs "[c]"] assms(1) pre by (simp add: anchored_lazy_def)
qed

lemma lazy_prefix_split:
  "lazy_prefix tl_match acc s = Some (p, r) \<Longrightarrow>
     \<exists>xs ys. s = xs @ ys \<and> p = acc @ xs \<and> tl_match ys = Some r"
proof (induction s arbitrary: acc)
  case Nil
  then show ?case by auto
next
  case (Cons c cs)
  show ?case
  proof (cases "tl_match (c # cs)")
    case (Some r')
    with Cons.prems have "p = acc" "r' = r" by simp_all
    with Some show ?thesis by auto
  next
    case None
    with Cons.prems have "lazy_prefix tl_match (acc @ [c]) cs = Some (p, r)"
      by (simp split: if_splits)
    from Cons.IH [OF this] obtain xs ys where "cs = xs @ ys" "p = (acc @ [c]) @ xs" "tl_match ys = Some r"
      by blast
    then have "c # cs = (c # xs) @ ys \<and> p = acc @ (c # xs) \<and> tl_match ys = Some r" by simp
    then show ?thesis by blast
  qed
qed

lemma anchored_lazy_split:
  assumes "anchored_lazy tl_match s = Some (p, r)"
  shows "\<exists>ys. s = p @ ys \<and> p \<noteq> [] \<and> tl_match ys = Some r"
proof -
  from assms obtain c cs where s: "s = c # cs" and l: "lazy_prefix tl_match [c] cs = Some (p, r)"
    by (auto simp: anchored_lazy_def split: list.splits if_splits)
  from lazy_prefix_split [OF l] s show ?thesis by auto
qed

subsection \<open>White space inside names\<close>

lemma is_ws_space: "is_ws (CHR '' '')"
  by (simp add: is_ws_def)

lemma spaced_Cons:
  "xs \<noteq> [] \<Longrightarrow> spaced (c # xs) \<longleftrightarrow> (if is_ws c then c = CHR '' '' \<and> \<not> is_ws (hd xs) else True) \<and> spaced xs"
  by (cases xs) auto

lemma replace_ws_runs_hd:
  "replace_ws_runs r (d # cs) \<noteq> [] \<and> hd (replace_ws_runs r (d # cs)) = (if is_ws d then r else d)"
  by (induction r "d # cs" arbitrary: d cs rule: replace_ws_runs.induct) auto

lemma spaced_replace: "spaced (replace_ws_runs (CHR '' '') s)"
proof (induction "CHR '' ''" s rule: replace_ws_runs.induct)
  case 1
  then show ?case by simp
next
  case (2 c)
  then show ?case by simp
next
  case (3 c d cs)
  then show ?case
    using replace_ws_runs_hd [of "CHR '' ''" d cs] by (simp add: spaced_Cons is_ws_space)
qed

lemma spaced_ws: "spaced s \<Longrightarrow> c \<in> set s \<Longrightarrow> is_ws c \<Longrightarrow> c = CHR '' ''"
  by (induction s rule: spaced.induct) (auto split: if_splits)

lemma spaced_tl: "spaced (c # cs) \<Longrightarrow> spaced cs"
  by (cases cs) auto

lemma spaced_suffix: "spaced (xs @ ys) \<Longrightarrow> spaced ys"
  by (induction xs) (auto dest: spaced_tl)

lemma spaced_prefix: "spaced (xs @ ys) \<Longrightarrow> spaced xs"
proof (induction xs rule: spaced.induct)
  case 1
  then show ?case by simp
next
  case (2 c)
  then show ?case by (cases ys) (auto split: if_splits)
next
  case (3 c d cs)
  then show ?case by (auto split: if_splits)
qed

lemma spaced_map:
  "spaced s \<Longrightarrow> replace_ws_runs r s = map (\<lambda>c. if c = CHR '' '' then r else c) s"
proof (induction r s rule: replace_ws_runs.induct)
  case (1 r)
  then show ?case by simp
next
  case (2 r c)
  then show ?case using is_ws_space by (cases "is_ws c") auto
next
  case (3 r c d cs)
  from "3.prems" have sp: "spaced (d # cs)" by simp
  show ?case
  proof (cases "is_ws c")
    case True
    with "3.prems" have "c = CHR '' ''" "\<not> is_ws d" by simp_all
    with True "3.IH"(2) sp show ?thesis by simp
  next
    case False
    then have "c \<noteq> CHR '' ''" using is_ws_space by auto
    with False "3.IH"(3) sp show ?thesis by simp
  qed
qed

lemma replace_ws_runs_set: "set (replace_ws_runs r s) \<subseteq> insert r (set s)"
  by (induction r s rule: replace_ws_runs.induct) auto


subsection \<open>The parser returns tidy names\<close>

lemma strip_trailing_prefix:
  "\<exists>zs. s = strip_trailing_space_hyphen s @ zs"
proof -
  have "rev s = takeWhile (\<lambda>c. c = CHR '' '' \<or> c = CHR ''-'') (rev s) @ dropWhile (\<lambda>c. c = CHR '' '' \<or> c = CHR ''-'') (rev s)"
    by simp
  then have "s = rev (dropWhile (\<lambda>c. c = CHR '' '' \<or> c = CHR ''-'') (rev s)) @ rev (takeWhile (\<lambda>c. c = CHR '' '' \<or> c = CHR ''-'') (rev s))"
    by (metis rev_append rev_rev_ident)
  then show ?thesis by (auto simp: strip_trailing_space_hyphen_def)
qed

lemma strip_trailing_last:
  assumes "strip_trailing_space_hyphen s \<noteq> []"
  shows "last (strip_trailing_space_hyphen s) \<noteq> CHR '' '' \<and> last (strip_trailing_space_hyphen s) \<noteq> CHR ''-''"
proof -
  let ?d = "dropWhile (\<lambda>c. c = CHR '' '' \<or> c = CHR ''-'') (rev s)"
  from assms have ne: "?d \<noteq> []" by (simp add: strip_trailing_space_hyphen_def)
  then have "\<not> (hd ?d = CHR '' '' \<or> hd ?d = CHR ''-'')" by (rule hd_dropWhile)
  moreover have "last (strip_trailing_space_hyphen s) = hd ?d"
    using ne by (simp add: strip_trailing_space_hyphen_def last_rev)
  ultimately show ?thesis by simp
qed

lemma clean_name_chars:
  assumes "c \<in> set (clean_name raw)" and "CHR ''/'' \<notin> set raw"
  shows "\<not> is_special c \<and> c \<noteq> CHR ''_'' \<and> c \<noteq> CHR ''/''"
proof -
  let ?B = "trim (remove_special raw)"
  let ?C = "underscores_to_spaces ?B"
  let ?D = "replace_ws_runs (CHR '' '') ?C"
  have B: "set ?B \<subseteq> {x \<in> set raw. \<not> is_special x}"
    by (auto simp: trim_def remove_special_def dest!: set_dropWhileD)
  from assms(1) have "c \<in> set ?D"
    by (auto simp: clean_name_def trim_def strip_trailing_space_hyphen_def dest!: set_dropWhileD)
  with replace_ws_runs_set have "c = CHR '' '' \<or> c \<in> set ?C" by fastforce
  then show ?thesis
  proof
    assume "c = CHR '' ''"
    then show ?thesis by (simp add: is_special_def)
  next
    assume "c \<in> set ?C"
    then obtain b where b: "b \<in> set ?B" and c: "c = (if b = CHR ''_'' then CHR '' '' else b)"
      by (auto simp: underscores_to_spaces_def)
    from b B assms(2) have "\<not> is_special b" "b \<noteq> CHR ''/''" by auto
    with c show ?thesis by (auto simp: is_special_def)
  qed
qed

lemma tidy_clean_name:
  assumes ne: "clean_name raw \<noteq> []" and slash: "CHR ''/'' \<notin> set raw"
  shows "tidy (clean_name raw)"
proof -
  define D where "D = replace_ws_runs (CHR '' '') (underscores_to_spaces (trim (remove_special raw)))"
  define X where "X = strip_trailing_space_hyphen D"
  define Y where "Y = dropWhile is_ws X"
  have clean: "clean_name raw = rev (dropWhile is_ws (rev Y))"
    by (simp add: clean_name_def trim_def D_def X_def Y_def)
  have "spaced D" by (simp add: D_def spaced_replace)
  moreover obtain zs where "D = X @ zs" using strip_trailing_prefix [of D] X_def by auto
  ultimately have "spaced X" using spaced_prefix by auto
  moreover have XY: "X = takeWhile is_ws X @ Y" by (simp add: Y_def)
  ultimately have spY: "spaced Y" using spaced_suffix by metis
  from ne clean have Yne: "Y \<noteq> []" by auto
  then have Xne: "X \<noteq> []" by (auto simp: Y_def)
  have "last Y = last X" using XY Yne by (metis last_appendR)
  with strip_trailing_last [of D] Xne have lastY: "last Y \<noteq> CHR '' ''" "last Y \<noteq> CHR ''-''"
    by (simp_all add: X_def)
  have "\<not> is_ws (last Y)"
    using spaced_ws [OF spY, of "last Y"] Yne lastY(1) by auto
  then have "dropWhile is_ws (rev Y) = rev Y"
    using Yne by (simp add: dropWhile_hd hd_rev)
  with clean have eq: "clean_name raw = Y" by simp
  have "\<not> is_ws (hd Y)" using Yne unfolding Y_def by (rule hd_dropWhile)
  moreover have "list_all (\<lambda>c. \<not> is_special c \<and> c \<noteq> CHR ''_'' \<and> c \<noteq> CHR ''/'') (clean_name raw)"
    using clean_name_chars [OF _ slash] by (simp add: list_all_iff)
  ultimately show ?thesis
    using eq Yne spY lastY \<open>\<not> is_ws (last Y)\<close> by (simp add: tidy_def)
qed

lemma extract_match:
  assumes "extractStudentInfoFromFilename f = Some (n, d)"
  shows "\<exists>raw. (anchored_lazy meet_tail (slashes_to_hyphens (trim (strip_extension f))) = Some (raw, d) \<or>
               anchored_lazy processed_tail (slashes_to_hyphens (trim (strip_extension f))) = Some (raw, d))
      \<and> n = clean_name raw \<and> n \<noteq> [] \<and> date_shape d"
proof -
  define s where "s = slashes_to_hyphens (trim (strip_extension f))"
  define m where "m = (case anchored_lazy meet_tail s of Some r \<Rightarrow> Some r | None \<Rightarrow> anchored_lazy processed_tail s)"
  have ex: "extractStudentInfoFromFilename f =
      (case m of None \<Rightarrow> None
       | Some (rawNamePart, classDate) \<Rightarrow>
           if rawNamePart \<noteq> [] \<and> classDate \<noteq> [] then
             (if clean_name rawNamePart \<noteq> [] \<and> date_shape classDate
              then Some (clean_name rawNamePart, classDate) else None)
           else None)"
    unfolding extractStudentInfoFromFilename_def Let_def s_def m_def by (rule refl)
  from assms ex obtain raw d' where md: "m = Some (raw, d')"
    by (cases m) auto
  with assms ex have r: "n = clean_name raw" "d' = d" "n \<noteq> []" "date_shape d"
    by (auto split: if_splits)
  from md r(2) have "anchored_lazy meet_tail s = Some (raw, d) \<or> anchored_lazy processed_tail s = Some (raw, d)"
    by (auto simp: m_def split: option.splits)
  with r show ?thesis unfolding s_def by blast
qed

lemma extract_tidy:
  assumes "extractStudentInfoFromFilename f = Some (n, d)"
  shows "tidy n \<and> date_shape d"
proof -
  let ?s = "slashes_to_hyphens (trim (strip_extension f))"
  from extract_match [OF assms] obtain raw where
    m: "anchored_lazy meet_tail ?s = Some (raw, d) \<or> anchored_lazy processed_tail ?s = Some (raw, d)"
    and n: "n = clean_name raw" "n \<noteq> []" and d: "date_shape d"
    by blast
  from m have "\<exists>ys. ?s = raw @ ys"
  proof
    assume "anchored_lazy meet_tail ?s = Some (raw, d)"
    from anchored_lazy_split [OF this] show ?thesis by blast
  next
    assume "anchored_lazy processed_tail ?s = Some (raw, d)"
    from anchored_lazy_split [OF this] show ?thesis by blast
  qed
  then obtain ys where ys: "?s = raw @ ys" by blast
  have "CHR ''/'' \<notin> set (slashes_to_hyphens t)" for t
    by (auto simp: slashes_to_hyphens_def)
  with ys have "CHR ''/'' \<notin> set (raw @ ys)" by metis
  then have "CHR ''/'' \<notin> set raw" by simp
  from tidy_clean_name [OF _ this] n d show ?thesis by simp
qed


subsection \<open>Parsing a canonical name\<close>


lemma is_sep_us: "is_sep (underscored c) = is_sep c"
  by (simp add: is_sep_def)

lemma date_shape_member: "date_shape s \<Longrightarrow> c \<in> set s \<Longrightarrow> is_digit c \<or> c = CHR ''-''"
  using date_shape_chars [of s] by (simp add: list_all_iff)

lemma date_shape_map_us: "date_shape (map underscored s) = date_shape s"
proof (cases "CHR '' '' \<in> set s")
  case False
  then have "map underscored s = s" by (intro map_idI) auto
  then show ?thesis by simp
next
  case True
  then have "CHR ''_'' \<in> set (map underscored s)" by force
  then have "\<not> date_shape (map underscored s)"
    using date_shape_member [of "map underscored s" "CHR ''_''"] by (auto simp: is_digit_def)
  moreover have "\<not> date_shape s"
    using True date_shape_member [of s "CHR '' ''"] by (auto simp: is_digit_def)
  ultimately show ?thesis by simp
qed

lemma sep_then_date_map_us: "sep_then_date (map underscored xs) = sep_then_date xs"
proof -
  have "is_sep \<circ> underscored = is_sep" by (rule ext) (simp add: is_sep_def)
  then show ?thesis
    by (simp add: sep_then_date_def takeWhile_map dropWhile_map take_map date_shape_map_us)
qed

lemma sep_date_inside_drop: "sep_then_date (drop k n) \<Longrightarrow> 1 \<le> k \<Longrightarrow> sep_date_inside n"
proof (induction n arbitrary: k)
  case Nil
  then show ?case by (simp add: sep_then_date_def)
next
  case (Cons c cs)
  then obtain k' where k: "k = Suc k'" by (cases k) auto
  show ?case
  proof (cases k')
    case 0
    with Cons.prems k show ?thesis by simp
  next
    case (Suc j)
    with Cons.prems k Cons.IH [of k'] show ?thesis by simp
  qed
qed

lemma meet_tail_inside:
  assumes "xs \<noteq> []" and "\<not> is_sep (last xs)" and "meet_tail (xs @ CHR ''_'' # rest) \<noteq> None"
  shows "sep_then_date xs"
proof -
  define zs where "zs = dropWhile is_sep xs"
  from assms(1,2) have l: "last xs \<in> set xs" "\<not> is_sep (last xs)" by simp_all
  have tw: "takeWhile is_sep (xs @ CHR ''_'' # rest) = takeWhile is_sep xs"
    using l by (rule takeWhile_append1)
  have dw: "dropWhile is_sep (xs @ CHR ''_'' # rest) = zs @ CHR ''_'' # rest"
    unfolding zs_def using l by (rule dropWhile_append1)
  from assms(3) have ne: "takeWhile is_sep xs \<noteq> []"
    and ds: "date_shape (take 10 (zs @ CHR ''_'' # rest))"
    by (auto simp: meet_tail_def Let_def tw dw split: if_splits)
  have "10 \<le> length zs"
  proof (rule ccontr)
    assume "\<not> 10 \<le> length zs"
    then obtain m where "10 - length zs = Suc m" by (cases "10 - length zs") auto
    then have "CHR ''_'' \<in> set (take 10 (zs @ CHR ''_'' # rest))" by simp
    with date_shape_chars [OF ds] show False by (auto simp: list_all_iff is_digit_def)
  qed
  with ds have "date_shape (take 10 zs)" by simp
  with ne show ?thesis by (simp add: sep_then_date_def zs_def)
qed

lemma clean_name_underscored:
  assumes "tidy n"
  shows "clean_name (map underscored n) = n"
proof -
  from assms have ne: "n \<noteq> []" and sp: "spaced n" and h: "\<not> is_ws (hd n)" and l: "\<not> is_ws (last n)"
    and lh: "last n \<noteq> CHR ''-''"
    and ch: "\<forall>c\<in>set n. \<not> is_special c \<and> c \<noteq> CHR ''_'' \<and> c \<noteq> CHR ''/''"
    by (simp_all add: tidy_def list_all_iff)
  have hs: "hd n \<noteq> CHR '' ''" "last n \<noteq> CHR '' ''" using h l is_ws_space by auto
  have "\<forall>c\<in>set (map underscored n). \<not> is_special c" using ch by (auto simp: is_special_def)
  then have 1: "remove_special (map underscored n) = map underscored n" by (simp add: remove_special_def)
  have "hd (map underscored n) = hd n" "last (map underscored n) = last n"
    using ne hs by (simp_all add: hd_map last_map)
  then have 2: "trim (map underscored n) = map underscored n" using ne h l by (simp add: trim_id)
  have "(if underscored c = CHR ''_'' then CHR '' '' else underscored c) = c" if "c \<in> set n" for c
    using that ch by auto
  then have 3: "underscores_to_spaces (map underscored n) = n"
    unfolding underscores_to_spaces_def map_map comp_def by (rule map_idI)
  have 4: "replace_ws_runs (CHR '' '') n = n" using spaced_map [OF sp, of "CHR '' ''"] by (simp add: map_idI)
  have 5: "strip_trailing_space_hyphen n = n"
    using ne hs lh by (simp add: strip_trailing_space_hyphen_def dropWhile_hd hd_rev)
  have 6: "trim n = n" using ne h l by (rule trim_id)
  show ?thesis by (simp add: clean_name_def 1 2 3 4 5 6)
qed

lemma reparse:
  assumes n: "tidy n" and d: "date_shape d" and frag: "id_fragment frag"
    and inner: "\<not> sep_date_inside n"
    and ext: "CHR ''.'' \<notin> {a, b, c}" "CHR ''/'' \<notin> {a, b, c}"
  shows "extractStudentInfoFromFilename
           (replace_ws_runs (CHR ''_'') n @ ''_'' @ d @ ''_'' @ frag @ [CHR ''.'', a, b, c]) = Some (n, d)"
proof -
  define N where "N = map underscored n"
  define rest where "rest = CHR ''_'' # d @ CHR ''_'' # frag"
  from n have ne: "n \<noteq> []" and sp: "spaced n" and h: "\<not> is_ws (hd n)" and l: "\<not> is_ws (last n)"
    and lh: "last n \<noteq> CHR ''-''"
    and ch: "\<forall>c\<in>set n. \<not> is_special c \<and> c \<noteq> CHR ''_'' \<and> c \<noteq> CHR ''/''"
    by (simp_all add: tidy_def list_all_iff)
  have hs: "hd n \<noteq> CHR '' ''" "last n \<noteq> CHR '' ''" using h l is_ws_space by auto
  have Nne: "N \<noteq> []" using ne by (simp add: N_def)
  have hdN: "hd N = hd n" and lastN: "last N = last n" using ne hs by (simp_all add: N_def hd_map last_map)
  have under: "replace_ws_runs (CHR ''_'') n = N" using spaced_map [OF sp] by (simp add: N_def)
  from date_shape_chars [OF d] have dlen: "length d = 10" and dhd: "is_digit (hd d)"
    and dch: "\<forall>c\<in>set d. is_digit c \<or> c = CHR ''-''" by (simp_all add: list_all_iff)
  from dlen obtain d0 ds where dd: "d = d0 # ds" by (cases d) auto
  from frag have flen: "length frag = 10" and fch: "\<forall>c\<in>set frag. is_id_char c"
    by (simp_all add: id_fragment_def list_all_iff)
  from flen have fne: "frag \<noteq> []" by auto
  have full: "replace_ws_runs (CHR ''_'') n @ ''_'' @ d @ ''_'' @ frag @ [CHR ''.'', a, b, c]
                = (N @ rest) @ [CHR ''.'', a, b, c]"
    by (simp add: under rest_def)
  have s1: "strip_extension ((N @ rest) @ [CHR ''.'', a, b, c]) = N @ rest"
    using ext by (intro strip_extension_mp4) auto
  have "last (N @ rest) = last frag" using fne by (simp add: rest_def)
  moreover have "\<not> is_ws (last frag)" using fch fne id_char_facts [of "last frag"] by auto
  ultimately have s2: "trim (N @ rest) = N @ rest"
    using Nne hdN h by (intro trim_id) auto
  have "c \<noteq> CHR ''/''" if "c \<in> set N" for c
    using that ch by (auto simp: N_def)
  moreover have "c \<noteq> CHR ''/''" if "c \<in> set d" for c
    using that dch digit_facts [of c] by auto
  moreover have "c \<noteq> CHR ''/''" if "c \<in> set frag" for c
    using that fch id_char_facts [of c] by auto
  ultimately have "CHR ''/'' \<notin> set (N @ rest)"
    by (auto simp: rest_def)
  then have s3: "slashes_to_hyphens (N @ rest) = N @ rest"
    unfolding slashes_to_hyphens_def by (intro map_idI) auto
  have "\<not> is_sep d0" using dhd dd sep_facts [of d0] by auto
  then have tw: "takeWhile is_sep rest = ''_''" and dw: "dropWhile is_sep rest = d @ CHR ''_'' # frag"
    by (simp_all add: rest_def dd is_sep_def)
  have "\<not> is_line_terminator c" if "c \<in> set frag" for c
    using that fch id_char_facts [of c] by auto
  then have "\<not> list_ex is_line_terminator (CHR ''_'' # frag)"
    by (auto simp: list_ex_iff is_line_terminator_def)
  then have m_rest: "meet_tail rest = Some d"
    using d dlen by (simp add: meet_tail_def Let_def tw dw)
  have lt: "\<not> list_ex is_line_terminator N"
  proof -
    have "\<not> is_line_terminator c" if "c \<in> set n" for c
      using spaced_ws [OF sp that] line_terminator_ws [of c] by (auto simp: is_line_terminator_def)
    moreover have "\<not> is_line_terminator (CHR ''_'')" by (simp add: is_line_terminator_def)
    ultimately show ?thesis by (auto simp: N_def list_ex_iff)
  qed
  have none: "meet_tail (drop k N @ rest) = None" if k: "1 \<le> k \<and> k < length N" for k
  proof (rule ccontr)
    assume a: "meet_tail (drop k N @ rest) \<noteq> None"
    from k have dne: "drop k N \<noteq> []" by simp
    then have "last (drop k N) = last n" using lastN by simp
    moreover have "\<not> is_sep (last n)" using hs lh ch ne by (auto simp: is_sep_def)
    ultimately have "sep_then_date (drop k N)"
      using meet_tail_inside [OF dne, of "d @ CHR ''_'' # frag"] a by (simp add: rest_def)
    then have "sep_then_date (drop k n)" by (simp add: N_def drop_map sep_then_date_map_us)
    with k inner sep_date_inside_drop [of k n] show False by simp
  qed
  have "\<forall>k. 1 \<le> k \<and> k < length N \<longrightarrow> meet_tail (drop k N @ rest) = None"
    using none by blast
  with m_rest Nne lt have match: "anchored_lazy meet_tail (N @ rest) = Some (N, d)"
    by (intro anchored_lazy_found [where tl_match = meet_tail and rest = rest and r = d and pre = N])
  have cn: "clean_name N = n" unfolding N_def using n by (rule clean_name_underscored)
  have e1: "slashes_to_hyphens (trim (strip_extension ((N @ rest) @ [CHR ''.'', a, b, c]))) = N @ rest"
    by (simp only: s1 s2 s3)
  have "extractStudentInfoFromFilename ((N @ rest) @ [CHR ''.'', a, b, c]) =
          (if N \<noteq> [] \<and> d \<noteq> [] then
             (if clean_name N \<noteq> [] \<and> date_shape d then Some (clean_name N, d) else None)
           else None)"
    unfolding extractStudentInfoFromFilename_def Let_def e1 match by simp
  with ne d dd Nne cn show ?thesis unfolding full by simp
qed

section \<open>Saving the prompt and the ledger row\<close>

lemma hw_log_fields [simp]:
  "folders (hw_log l st) = folders st" "ledger (hw_log l st) = ledger st"
  "outbox (hw_log l st) = outbox st" "trash (hw_log l st) = trash st"
  "created (hw_log l st) = created st" "drawn (hw_log l st) = drawn st"
  "logged (hw_log l st) = logged st @ [l]"
  by (simp_all add: hw_log_def)

lemma create_file_Inr:
  "create_file env folderId name content st = Inr (f, st') \<longleftrightarrow>
     (\<exists>fs. folders st folderId = Some fs \<and> create_file_error env folderId name = None \<and>
        f = \<lparr>sf_id = new_file_id env (created st), sf_name = name, sf_content = content\<rparr> \<and>
        st' = st\<lparr>folders := (folders st)(folderId := Some (fs @ [f])), created := created st + 1\<rparr>)"
  by (auto simp: create_file_def Let_def split: option.splits)

lemma set_trashed_Inr:
  "set_trashed env f st = Inr st' \<longleftrightarrow>
     trash_error env (sf_id f) = None \<and>
     st' = st\<lparr>folders := (\<lambda>k. map_option (filter (\<lambda>g. sf_id g \<noteq> sf_id f)) (folders st k)),
              trash := trash st @ [f]\<rparr>"
  by (auto simp: set_trashed_def split: option.splits)

lemma compensate_fields [simp]:
  "ledger (compensate env f st) = ledger st" "outbox (compensate env f st) = outbox st"
  "created (compensate env f st) = created st" "drawn (compensate env f st) = drawn st"
  by (auto simp: compensate_def set_trashed_def split: option.splits)

lemma compensate_ok:
  "trash_error env (sf_id f) = None \<Longrightarrow>
     trash (compensate env f st) = trash st @ [f] \<and>
     folders (compensate env f st) = (\<lambda>k. map_option (filter (\<lambda>g. sf_id g \<noteq> sf_id f)) (folders st k))"
  by (simp add: compensate_def set_trashed_def)

lemma compensate_fails:
  "trash_error env (sf_id f) = Some tm \<Longrightarrow>
     trash (compensate env f st) = trash st \<and> folders (compensate env f st) = folders st \<and>
     logged (compensate env f st) = logged st @
       [''[saveHomeworkPrompt] WARNING: Failed to trash prompt file '' @ sf_id f @ '' after ledger error: '' @ tm]"
  by (simp add: compensate_def set_trashed_def)

lemma record_assignment_fails:
  assumes "ledger_failure env (STUDENT_ROSTER_ID env) (HOMEWORK_SHEET_NAME env)
             (ledger_row student hwId (sf_id f) (uuid env (drawn st)) (now_iso env)) = Some m"
  shows "record_assignment env student studentEmail hwId fileName f st =
           (Inl (''Failed to append ledger row: '' @ m),
            compensate env f
              (hw_log (''[saveHomeworkPrompt] ERROR appending ledger row for HW_ID '' @ hwId @
                       '', student '' @ studentEmail @ '': '' @ m) (st\<lparr>drawn := drawn st + 1\<rparr>)))"
  using assms by (simp add: record_assignment_def append_ledger_def Let_def)

lemma record_assignment_ok:
  assumes "ledger_failure env (STUDENT_ROSTER_ID env) (HOMEWORK_SHEET_NAME env)
             (ledger_row student hwId (sf_id f) (uuid env (drawn st)) (now_iso env)) = None"
  shows "fst (record_assignment env student studentEmail hwId fileName f st) = Inr (uuid env (drawn st))"
    and "ledger (snd (record_assignment env student studentEmail hwId fileName f st))
           = ledger st @ [ledger_row student hwId (sf_id f) (uuid env (drawn st)) (now_iso env)]"
    and "folders (snd (record_assignment env student studentEmail hwId fileName f st)) = folders st"
    and "outbox (snd (record_assignment env student studentEmail hwId fileName f st)) = outbox st"
    and "trash (snd (record_assignment env student studentEmail hwId fileName f st)) = trash st"
  using assms by (simp_all add: record_assignment_def append_ledger_def Let_def)


lemma record_assignment_cases:
  obtains (ok) "ledger_failure env (STUDENT_ROSTER_ID env) (HOMEWORK_SHEET_NAME env)
                  (ledger_row student hwId (sf_id f) (uuid env (drawn st)) (now_iso env)) = None"
  | (fails) m where "ledger_failure env (STUDENT_ROSTER_ID env) (HOMEWORK_SHEET_NAME env)
                  (ledger_row student hwId (sf_id f) (uuid env (drawn st)) (now_iso env)) = Some m"
  by (cases "ledger_failure env (STUDENT_ROSTER_ID env) (HOMEWORK_SHEET_NAME env)
                  (ledger_row student hwId (sf_id f) (uuid env (drawn st)) (now_iso env))") auto

lemma record_assignment_outbox [simp]:
  "outbox (snd (record_assignment env student studentEmail hwId fileName f st)) = outbox st"
  by (cases rule: record_assignment_cases [of env student hwId f st])
     (simp_all add: record_assignment_ok record_assignment_fails)

lemma record_assignment_Inl_ledger:
  "fst (record_assignment env student studentEmail hwId fileName f st) = Inl x \<Longrightarrow>
     ledger (snd (record_assignment env student studentEmail hwId fileName f st)) = ledger st"
  by (cases rule: record_assignment_cases [of env student hwId f st])
     (simp_all add: record_assignment_ok record_assignment_fails)

text \<open>The state in which \<open>saveHomeworkPrompt\<close> of \<open>part_000\<close> starts to record the assignment.\<close>

lemma save_found:
  assumes found: "rosterFindByEmail env studentEmail = Some student"
    and dir: "Drive_Folder_ID student \<noteq> []"
    and folder: "folders st (Drive_Folder_ID student) = Some fs"
    and ok: "create_file_error env (Drive_Folder_ID student) (chosen_name env hwId promptFileName) = None"
  shows "\<exists>s2. saveHomeworkPrompt env studentEmail hwId basePromptText promptFileName st
             = record_assignment env student studentEmail hwId (chosen_name env hwId promptFileName)
                 \<lparr>sf_id = new_file_id env (created st), sf_name = chosen_name env hwId promptFileName,
                  sf_content = full_prompt basePromptText (LifeStyle student)\<rparr> s2 \<and>
           folders s2 = (folders st)(Drive_Folder_ID student := Some (fs @
                 [\<lparr>sf_id = new_file_id env (created st), sf_name = chosen_name env hwId promptFileName,
                   sf_content = full_prompt basePromptText (LifeStyle student)\<rparr>])) \<and>
           ledger s2 = ledger st \<and> outbox s2 = outbox st \<and> trash s2 = trash st \<and>
           drawn s2 = drawn st \<and> created s2 = created st + 1"
proof -
  define st1 where "st1 = (if (case promptFileName of None \<Rightarrow> False | Some n \<Rightarrow> trim n \<noteq> []) then st
      else hw_log (''[saveHomeworkPrompt] WARNING: Invalid promptFileName. Using fallback: '' @
                   chosen_name env hwId promptFileName) st)"
  have st1: "folders st1 = folders st" "ledger st1 = ledger st" "outbox st1 = outbox st"
    "trash st1 = trash st" "drawn st1 = drawn st" "created st1 = created st"
    by (simp_all add: st1_def)
  define f where "f = \<lparr>sf_id = new_file_id env (created st), sf_name = chosen_name env hwId promptFileName,
                  sf_content = full_prompt basePromptText (LifeStyle student)\<rparr>"
  have cf: "create_file env (Drive_Folder_ID student) (chosen_name env hwId promptFileName)
              (full_prompt basePromptText (LifeStyle student)) st1
            = Inr (f, st1\<lparr>folders := (folders st1)(Drive_Folder_ID student := Some (fs @ [f])),
                          created := created st1 + 1\<rparr>)"
    using folder ok st1 by (simp add: create_file_def f_def Let_def)
  define s2 where "s2 = hw_log (''[saveHomeworkPrompt] Created prompt file '' @ quoted (chosen_name env hwId promptFileName) @
                       '' (ID: '' @ sf_id f @ '') in folder ID '' @
                       Drive_Folder_ID student @ '' for student '' @ studentEmail @ ''.'')
                 (st1\<lparr>folders := (folders st1)(Drive_Folder_ID student := Some (fs @ [f])),
                       created := created st1 + 1\<rparr>)"
  have "saveHomeworkPrompt env studentEmail hwId basePromptText promptFileName st
          = record_assignment env student studentEmail hwId (chosen_name env hwId promptFileName) f
              (hw_log (''[saveHomeworkPrompt] Created prompt file '' @ quoted (chosen_name env hwId promptFileName) @
                       '' (ID: '' @ sf_id f @ '') in folder ID '' @
                       Drive_Folder_ID student @ '' for student '' @ studentEmail @ ''.'')
                 (st1\<lparr>folders := (folders st1)(Drive_Folder_ID student := Some (fs @ [f])),
                       created := created st1 + 1\<rparr>))"
    unfolding saveHomeworkPrompt_def Let_def st1_def [symmetric]
    using found dir by (simp add: cf)
  then have "saveHomeworkPrompt env studentEmail hwId basePromptText promptFileName st
          = record_assignment env student studentEmail hwId (chosen_name env hwId promptFileName) f s2"
    by (simp only: s2_def)
  moreover have "folders s2 = (folders st)(Drive_Folder_ID student := Some (fs @ [f]))"
    "ledger s2 = ledger st" "outbox s2 = outbox st" "trash s2 = trash st"
    "drawn s2 = drawn st" "created s2 = created st + 1"
    using st1 by (simp_all add: s2_def)
  ultimately show ?thesis unfolding f_def [symmetric] by blast
qed

lemma save_outbox [simp]:
  "outbox (snd (saveHomeworkPrompt env studentEmail hwId basePromptText promptFileName st)) = outbox st"
proof (cases "rosterFindByEmail env studentEmail")
  case None
  then show ?thesis by (simp add: saveHomeworkPrompt_def)
next
  case (Some student)
  show ?thesis
  proof (cases "Drive_Folder_ID student = []")
    case True
    with Some show ?thesis by (simp add: saveHomeworkPrompt_def)
  next
    case False
    show ?thesis
      using Some False
      by (auto simp: saveHomeworkPrompt_def Let_def create_file_Inr split: sum.splits)
  qed
qed


lemma save_cases [case_names early recorded]:
  fixes basePromptText :: string and env :: hw_env and studentEmail hwId :: string
    and promptFileName :: "string option" and st :: homework
  defines "res \<equiv> saveHomeworkPrompt env studentEmail hwId basePromptText promptFileName st"
  obtains (early) x where "fst res = Inl x" "folders (snd res) = folders st" "ledger (snd res) = ledger st"
      "trash (snd res) = trash st" "created (snd res) = created st" "drawn (snd res) = drawn st"
  | (recorded) student fs s2 where
      "rosterFindByEmail env studentEmail = Some student" "Drive_Folder_ID student \<noteq> []"
      "folders st (Drive_Folder_ID student) = Some fs"
      "res = record_assignment env student studentEmail hwId (chosen_name env hwId promptFileName)
                 \<lparr>sf_id = new_file_id env (created st), sf_name = chosen_name env hwId promptFileName,
                  sf_content = full_prompt basePromptText (LifeStyle student)\<rparr> s2"
      "folders s2 = (folders st)(Drive_Folder_ID student := Some (fs @
                 [\<lparr>sf_id = new_file_id env (created st), sf_name = chosen_name env hwId promptFileName,
                   sf_content = full_prompt basePromptText (LifeStyle student)\<rparr>]))"
      "ledger s2 = ledger st" "outbox s2 = outbox st" "trash s2 = trash st"
      "drawn s2 = drawn st" "created s2 = created st + 1"
proof (cases "rosterFindByEmail env studentEmail")
  case None
  then show ?thesis by (intro early) (simp_all add: res_def saveHomeworkPrompt_def)
next
  case (Some student)
  show ?thesis
  proof (cases "Drive_Folder_ID student = []")
    case True
    with Some show ?thesis by (intro early) (simp_all add: res_def saveHomeworkPrompt_def)
  next
    case dir: False
    show ?thesis
    proof (cases "folders st (Drive_Folder_ID student)")
      case None
      with Some dir show ?thesis
        by (intro early) (simp_all add: res_def saveHomeworkPrompt_def create_file_def Let_def)
    next
      case folder: (Some fs)
      show ?thesis
      proof (cases "create_file_error env (Drive_Folder_ID student) (chosen_name env hwId promptFileName)")
        case (Some m)
        with \<open>rosterFindByEmail env studentEmail = Some student\<close> dir folder show ?thesis
          by (intro early) (simp_all add: res_def saveHomeworkPrompt_def create_file_def Let_def)
      next
        case None
        from save_found [OF \<open>rosterFindByEmail env studentEmail = Some student\<close> dir folder None,
            of basePromptText]
        obtain s2 where "res = record_assignment env student studentEmail hwId (chosen_name env hwId promptFileName)
                 \<lparr>sf_id = new_file_id env (created st), sf_name = chosen_name env hwId promptFileName,
                  sf_content = full_prompt basePromptText (LifeStyle student)\<rparr> s2"
          "folders s2 = (folders st)(Drive_Folder_ID student := Some (fs @
                 [\<lparr>sf_id = new_file_id env (created st), sf_name = chosen_name env hwId promptFileName,
                   sf_content = full_prompt basePromptText (LifeStyle student)\<rparr>]))"
          "ledger s2 = ledger st" "outbox s2 = outbox st" "trash s2 = trash st"
          "drawn s2 = drawn st" "created s2 = created st + 1"
          unfolding res_def by blast
        with \<open>rosterFindByEmail env studentEmail = Some student\<close> dir folder show ?thesis
          by (intro recorded)
      qed
    qed
  qed
qed

lemma fresh_filter:
  assumes "\<forall>k fs'. folders st k = Some fs' \<longrightarrow> fid \<notin> sf_id ` set fs'"
    and "folders st d = Some fs" and "sf_id f = fid"
  shows "(\<lambda>k. map_option (filter (\<lambda>g. sf_id g \<noteq> fid)) (((folders st)(d := Some (fs @ [f]))) k)) = folders st"
proof (rule ext)
  fix k
  have keep: "filter (\<lambda>g. sf_id g \<noteq> fid) fs' = fs'" if "folders st k' = Some fs'" for k' fs'
    using assms(1) that by (intro filter_True) auto
  show "map_option (filter (\<lambda>g. sf_id g \<noteq> fid)) (((folders st)(d := Some (fs @ [f]))) k) = folders st k"
  proof (cases "k = d")
    case True
    with assms(2,3) keep [OF assms(2)] show ?thesis by simp
  next
    case False
    then show ?thesis using keep [of k] by (cases "folders st k") simp_all
  qed
qed


lemma record_assignment_v9_fails:
  assumes "ledger_failure_v9 env (ledger_row student hwId (sf_id f) (uuid env (drawn st)) (now_iso env)) = Some m"
  shows "fst (record_assignment_v9 env student hwId f st) = Inl (''Failed to append ledger row: '' @ m)"
    and "ledger (snd (record_assignment_v9 env student hwId f st)) = ledger st"
    and "trash_error env (sf_id f) = None \<Longrightarrow>
           folders (snd (record_assignment_v9 env student hwId f st))
             = (\<lambda>k. map_option (filter (\<lambda>g. sf_id g \<noteq> sf_id f)) (folders st k)) \<and>
           trash (snd (record_assignment_v9 env student hwId f st)) = trash st @ [f]"
    and "trash_error env (sf_id f) = Some tm \<Longrightarrow>
           folders (snd (record_assignment_v9 env student hwId f st)) = folders st \<and>
           trash (snd (record_assignment_v9 env student hwId f st)) = trash st \<and>
           logged (snd (record_assignment_v9 env student hwId f st))
             = logged st @ [''[saveHomeworkPrompt] ERROR appending ledger row: '' @ m]"
  using assms
  by (auto simp: record_assignment_v9_def append_ledger_v9_def Let_def set_trashed_def split: option.splits)

lemma save_v9_found:
  assumes found: "rosterFindByEmail_v9 env studentEmail = Inr (Some student)"
    and dir: "Drive_Folder_ID student \<noteq> []"
    and folder: "folders st (Drive_Folder_ID student) = Some fs"
    and ok: "create_file_error env (Drive_Folder_ID student) promptFileName = None"
  shows "saveHomeworkPrompt_v9 env studentEmail hwId basePromptText promptFileName st
           = record_assignment_v9 env student hwId
               \<lparr>sf_id = new_file_id env (created st), sf_name = promptFileName,
                sf_content = full_prompt basePromptText (LifeStyle student)\<rparr>
               (hw_log (''[saveHomeworkPrompt] Created prompt file '' @ quoted promptFileName @
                        '' for '' @ studentEmail @ ''.'')
                  (st\<lparr>folders := (folders st)(Drive_Folder_ID student := Some (fs @
                         [\<lparr>sf_id = new_file_id env (created st), sf_name = promptFileName,
                           sf_content = full_prompt basePromptText (LifeStyle student)\<rparr>])),
                       created := created st + 1\<rparr>))"
  using assms by (simp add: saveHomeworkPrompt_v9_def create_file_def Let_def)

lemma save_v9_error_exit:
  assumes fresh: "\<forall>k fs'. folders st k = Some fs' \<longrightarrow> new_file_id env (created st) \<notin> sf_id ` set fs'"
    and err: "fst (saveHomeworkPrompt_v9 env studentEmail hwId basePromptText promptFileName st) = Inl x"
    and tr: "trash_error env (new_file_id env (created st)) = None"
  shows "folders (snd (saveHomeworkPrompt_v9 env studentEmail hwId basePromptText promptFileName st)) = folders st"
proof (cases "rosterFindByEmail_v9 env studentEmail")
  case (Inl m)
  then show ?thesis by (simp add: saveHomeworkPrompt_v9_def)
next
  case (Inr found)
  show ?thesis
  proof (cases found)
    case None
    with Inr show ?thesis by (simp add: saveHomeworkPrompt_v9_def)
  next
    case (Some student)
    show ?thesis
    proof (cases "Drive_Folder_ID student = [] \<or> folders st (Drive_Folder_ID student) = None \<or>
                  create_file_error env (Drive_Folder_ID student) promptFileName \<noteq> None")
      case True
      with Inr Some show ?thesis
        by (auto simp: saveHomeworkPrompt_v9_def create_file_def Let_def split: option.splits)
    next
      case False
      then obtain fs where dir: "Drive_Folder_ID student \<noteq> []"
        and folder: "folders st (Drive_Folder_ID student) = Some fs"
        and ok: "create_file_error env (Drive_Folder_ID student) promptFileName = None" by auto
      let ?f = "\<lparr>sf_id = new_file_id env (created st), sf_name = promptFileName,
                sf_content = full_prompt basePromptText (LifeStyle student)\<rparr>"
      let ?s2 = "hw_log (''[saveHomeworkPrompt] Created prompt file '' @ quoted promptFileName @
                        '' for '' @ studentEmail @ ''.'')
                  (st\<lparr>folders := (folders st)(Drive_Folder_ID student := Some (fs @ [?f])),
                       created := created st + 1\<rparr>)"
      have eq: "saveHomeworkPrompt_v9 env studentEmail hwId basePromptText promptFileName st
                  = record_assignment_v9 env student hwId ?f ?s2"
        using Inr Some by (simp add: save_v9_found [OF _ dir folder ok])
      from err eq obtain m where
        m: "ledger_failure_v9 env (ledger_row student hwId (sf_id ?f) (uuid env (drawn ?s2)) (now_iso env)) = Some m"
        by (cases "ledger_failure_v9 env (ledger_row student hwId (sf_id ?f) (uuid env (drawn ?s2)) (now_iso env))")
           (auto simp: record_assignment_v9_def append_ledger_v9_def Let_def)
      from record_assignment_v9_fails(3) [OF m] tr
      have "folders (snd (record_assignment_v9 env student hwId ?f ?s2))
              = (\<lambda>k. map_option (filter (\<lambda>g. sf_id g \<noteq> sf_id ?f)) (folders ?s2 k))"
        by simp
      also have "\<dots> = folders st"
        using fresh_filter [OF fresh folder, of ?f] by simp
      finally show ?thesis by (simp only: eq)
    qed
  qed
qed

lemma save_error_exit:
  fixes basePromptText :: string
  assumes fresh: "\<forall>k fs'. folders st k = Some fs' \<longrightarrow> new_file_id env (created st) \<notin> sf_id ` set fs'"
    and err: "fst (saveHomeworkPrompt env studentEmail hwId basePromptText promptFileName st) = Inl x"
    and tr: "trash_error env (new_file_id env (created st)) = None"
  shows "folders (snd (saveHomeworkPrompt env studentEmail hwId basePromptText promptFileName st)) = folders st"
proof (cases rule: save_cases [of env studentEmail hwId basePromptText promptFileName st])
  case (early x)
  then show ?thesis by simp
next
  case (recorded student fs s2)
  let ?f = "\<lparr>sf_id = new_file_id env (created st), sf_name = chosen_name env hwId promptFileName,
                  sf_content = full_prompt basePromptText (LifeStyle student)\<rparr>"
  from err recorded(4) obtain m where
    m: "ledger_failure env (STUDENT_ROSTER_ID env) (HOMEWORK_SHEET_NAME env)
          (ledger_row student hwId (sf_id ?f) (uuid env (drawn s2)) (now_iso env)) = Some m"
    by (cases rule: record_assignment_cases [of env student hwId ?f s2])
       (simp_all add: record_assignment_ok)
  have "folders (snd (saveHomeworkPrompt env studentEmail hwId basePromptText promptFileName st))
          = (\<lambda>k. map_option (filter (\<lambda>g. sf_id g \<noteq> sf_id ?f)) (folders s2 k))"
    unfolding recorded(4) record_assignment_fails [OF m] using compensate_ok [of env ?f] tr by simp
  also have "\<dots> = folders st"
    unfolding recorded(5) using fresh_filter [OF fresh recorded(3), of ?f] by simp
  finally show ?thesis .
qed


text \<open>
  C3 (as amended). In \<open>saveHomeworkPrompt\<close>, when writing the ledger row fails after the
  prompt file was created, the error raised is the append error, wrapped as
  \<open>Failed to append ledger row: ...\<close>, and no ledger row is added. The prompt file is
  trashed, which leaves the folders as they were before the call. When trashing the file
  throws, the same error is still raised: \<open>part_000\<close> logs a warning as its last line,
  and \<open>Code.js\<close> swallows the failure without any log line. On every error exit, with
  trashing working, no new file is left in any folder. File identifiers are taken to be
  fresh.
\<close>

theorem saveHomeworkPrompt_compensation:
  fixes basePromptText :: string
  assumes fresh: "\<forall>k fs'. folders st k = Some fs' \<longrightarrow> new_file_id env (created st) \<notin> sf_id ` set fs'"
  shows
    "(rosterFindByEmail env studentEmail = Some student \<and> Drive_Folder_ID student \<noteq> [] \<and>
      folders st (Drive_Folder_ID student) = Some fs \<and>
      create_file_error env (Drive_Folder_ID student) (chosen_name env hwId promptFileName) = None \<and>
      ledger_failure env (STUDENT_ROSTER_ID env) (HOMEWORK_SHEET_NAME env)
        (ledger_row student hwId (new_file_id env (created st)) (uuid env (drawn st)) (now_iso env)) = Some m
      \<longrightarrow>
        fst (saveHomeworkPrompt env studentEmail hwId basePromptText promptFileName st) = Inl (''Failed to append ledger row: '' @ m) \<and>
        ledger (snd (saveHomeworkPrompt env studentEmail hwId basePromptText promptFileName st)) = ledger st \<and>
        (trash_error env (new_file_id env (created st)) = None \<longrightarrow>
           folders (snd (saveHomeworkPrompt env studentEmail hwId basePromptText promptFileName st)) = folders st \<and>
           trash (snd (saveHomeworkPrompt env studentEmail hwId basePromptText promptFileName st)) = trash st @ [\<lparr>sf_id = new_file_id env (created st), sf_name = chosen_name env hwId promptFileName,
             sf_content = full_prompt basePromptText (LifeStyle student)\<rparr>]) \<and>
        (\<forall>tm. trash_error env (new_file_id env (created st)) = Some tm \<longrightarrow>
           folders (snd (saveHomeworkPrompt env studentEmail hwId basePromptText promptFileName st)) (Drive_Folder_ID student) = Some (fs @ [\<lparr>sf_id = new_file_id env (created st), sf_name = chosen_name env hwId promptFileName,
             sf_content = full_prompt basePromptText (LifeStyle student)\<rparr>]) \<and>
           last (logged (snd (saveHomeworkPrompt env studentEmail hwId basePromptText promptFileName st)))
             = ''[saveHomeworkPrompt] WARNING: Failed to trash prompt file '' @
               new_file_id env (created st) @ '' after ledger error: '' @ tm)) \<and>
     (\<forall>x. fst (saveHomeworkPrompt env studentEmail hwId basePromptText promptFileName st) = Inl x \<and> trash_error env (new_file_id env (created st)) = None \<longrightarrow>
          folders (snd (saveHomeworkPrompt env studentEmail hwId basePromptText promptFileName st)) = folders st) \<and>
     (rosterFindByEmail_v9 env studentEmail = Inr (Some student) \<and> Drive_Folder_ID student \<noteq> [] \<and>
      folders st (Drive_Folder_ID student) = Some fs \<and>
      create_file_error env (Drive_Folder_ID student) name9 = None \<and>
      ledger_failure_v9 env
        (ledger_row student hwId (new_file_id env (created st)) (uuid env (drawn st)) (now_iso env)) = Some m
      \<longrightarrow>
        fst (saveHomeworkPrompt_v9 env studentEmail hwId basePromptText name9 st) = Inl (''Failed to append ledger row: '' @ m) \<and>
        ledger (snd (saveHomeworkPrompt_v9 env studentEmail hwId basePromptText name9 st)) = ledger st \<and>
        (trash_error env (new_file_id env (created st)) = None \<longrightarrow> folders (snd (saveHomeworkPrompt_v9 env studentEmail hwId basePromptText name9 st)) = folders st) \<and>
        (\<forall>tm. trash_error env (new_file_id env (created st)) = Some tm \<longrightarrow>
           logged (snd (saveHomeworkPrompt_v9 env studentEmail hwId basePromptText name9 st))
             = logged st @ [''[saveHomeworkPrompt] Created prompt file '' @ quoted name9 @
                              '' for '' @ studentEmail @ ''.'',
                            ''[saveHomeworkPrompt] ERROR appending ledger row: '' @ m])) \<and>
     (\<forall>x. fst (saveHomeworkPrompt_v9 env studentEmail hwId basePromptText name9 st) = Inl x \<and> trash_error env (new_file_id env (created st)) = None \<longrightarrow>
          folders (snd (saveHomeworkPrompt_v9 env studentEmail hwId basePromptText name9 st)) = folders st)"
proof -
  let ?f = "\<lparr>sf_id = new_file_id env (created st), sf_name = chosen_name env hwId promptFileName,
             sf_content = full_prompt basePromptText (LifeStyle student)\<rparr>"
  let ?res = "saveHomeworkPrompt env studentEmail hwId basePromptText promptFileName st"
  let ?res9 = "saveHomeworkPrompt_v9 env studentEmail hwId basePromptText name9 st"
  have A: "(rosterFindByEmail env studentEmail = Some student \<and> Drive_Folder_ID student \<noteq> [] \<and>
      folders st (Drive_Folder_ID student) = Some fs \<and>
      create_file_error env (Drive_Folder_ID student) (chosen_name env hwId promptFileName) = None \<and>
      ledger_failure env (STUDENT_ROSTER_ID env) (HOMEWORK_SHEET_NAME env)
        (ledger_row student hwId (new_file_id env (created st)) (uuid env (drawn st)) (now_iso env)) = Some m
      \<longrightarrow>
        fst (saveHomeworkPrompt env studentEmail hwId basePromptText promptFileName st) = Inl (''Failed to append ledger row: '' @ m) \<and>
        ledger (snd (saveHomeworkPrompt env studentEmail hwId basePromptText promptFileName st)) = ledger st \<and>
        (trash_error env (new_file_id env (created st)) = None \<longrightarrow>
           folders (snd (saveHomeworkPrompt env studentEmail hwId basePromptText promptFileName st)) = folders st \<and>
           trash (snd (saveHomeworkPrompt env studentEmail hwId basePromptText promptFileName st)) = trash st @ [\<lparr>sf_id = new_file_id env (created st), sf_name = chosen_name env hwId promptFileName,
             sf_content = full_prompt basePromptText (LifeStyle student)\<rparr>]) \<and>
        (\<forall>tm. trash_error env (new_file_id env (created st)) = Some tm \<longrightarrow>
           folders (snd (saveHomeworkPrompt env studentEmail hwId basePromptText promptFileName st)) (Drive_Folder_ID student) = Some (fs @ [\<lparr>sf_id = new_file_id env (created st), sf_name = chosen_name env hwId promptFileName,
             sf_content = full_prompt basePromptText (LifeStyle student)\<rparr>]) \<and>
           last (logged (snd (saveHomeworkPrompt env studentEmail hwId basePromptText promptFileName st)))
             = ''[saveHomeworkPrompt] WARNING: Failed to trash prompt file '' @
               new_file_id env (created st) @ '' after ledger error: '' @ tm))"
  proof (intro impI, elim conjE)
    assume found: "rosterFindByEmail env studentEmail = Some student"
      and dir: "Drive_Folder_ID student \<noteq> []"
      and folder: "folders st (Drive_Folder_ID student) = Some fs"
      and ok: "create_file_error env (Drive_Folder_ID student) (chosen_name env hwId promptFileName) = None"
      and fail: "ledger_failure env (STUDENT_ROSTER_ID env) (HOMEWORK_SHEET_NAME env)
        (ledger_row student hwId (new_file_id env (created st)) (uuid env (drawn st)) (now_iso env)) = Some m"
    from save_found [OF found dir folder ok, of basePromptText]
    obtain s2 where eq: "?res = record_assignment env student studentEmail hwId (chosen_name env hwId promptFileName) ?f s2"
      and s2: "folders s2 = (folders st)(Drive_Folder_ID student := Some (fs @ [?f]))"
        "ledger s2 = ledger st" "trash s2 = trash st" "drawn s2 = drawn st"
      by blast
    from fail s2 have m: "ledger_failure env (STUDENT_ROSTER_ID env) (HOMEWORK_SHEET_NAME env)
        (ledger_row student hwId (sf_id ?f) (uuid env (drawn s2)) (now_iso env)) = Some m" by simp
    note rf = record_assignment_fails [OF m, of studentEmail "chosen_name env hwId promptFileName"]
    have 1: "fst ?res = Inl (''Failed to append ledger row: '' @ m)" by (simp add: eq rf)
    have 2: "ledger (snd ?res) = ledger st" by (simp add: eq rf s2)
    have 3: "folders (snd ?res) = folders st \<and> trash (snd ?res) = trash st @ [?f]"
      if tr: "trash_error env (new_file_id env (created st)) = None"
    proof -
      have "folders (snd ?res) = (\<lambda>k. map_option (filter (\<lambda>g. sf_id g \<noteq> sf_id ?f)) (folders s2 k))"
        and t: "trash (snd ?res) = trash st @ [?f]"
        unfolding eq rf using compensate_ok [of env ?f] tr s2 by simp_all
      moreover have "(\<lambda>k. map_option (filter (\<lambda>g. sf_id g \<noteq> sf_id ?f)) (folders s2 k)) = folders st"
        unfolding s2 using fresh_filter [OF fresh folder, of ?f] by simp
      ultimately show ?thesis by simp
    qed
    have 4: "folders (snd ?res) (Drive_Folder_ID student) = Some (fs @ [?f]) \<and>
             last (logged (snd ?res)) = ''[saveHomeworkPrompt] WARNING: Failed to trash prompt file '' @
               new_file_id env (created st) @ '' after ledger error: '' @ tm"
      if tr: "trash_error env (new_file_id env (created st)) = Some tm" for tm
      unfolding eq rf using compensate_fails [of env ?f tm] tr s2 by simp
    from 1 2 3 4 show "fst ?res = Inl (''Failed to append ledger row: '' @ m) \<and>
        ledger (snd ?res) = ledger st \<and>
        (trash_error env (new_file_id env (created st)) = None \<longrightarrow>
           folders (snd ?res) = folders st \<and> trash (snd ?res) = trash st @ [?f]) \<and>
        (\<forall>tm. trash_error env (new_file_id env (created st)) = Some tm \<longrightarrow>
           folders (snd ?res) (Drive_Folder_ID student) = Some (fs @ [?f]) \<and>
           last (logged (snd ?res))
             = ''[saveHomeworkPrompt] WARNING: Failed to trash prompt file '' @
               new_file_id env (created st) @ '' after ledger error: '' @ tm)"
      by blast
  qed
  have B: "(\<forall>x. fst (saveHomeworkPrompt env studentEmail hwId basePromptText promptFileName st) = Inl x \<and> trash_error env (new_file_id env (created st)) = None \<longrightarrow>
          folders (snd (saveHomeworkPrompt env studentEmail hwId basePromptText promptFileName st)) = folders st)"
    using save_error_exit [OF fresh, of studentEmail hwId basePromptText promptFileName] by blast
  have C: "(rosterFindByEmail_v9 env studentEmail = Inr (Some student) \<and> Drive_Folder_ID student \<noteq> [] \<and>
      folders st (Drive_Folder_ID student) = Some fs \<and>
      create_file_error env (Drive_Folder_ID student) name9 = None \<and>
      ledger_failure_v9 env
        (ledger_row student hwId (new_file_id env (created st)) (uuid env (drawn st)) (now_iso env)) = Some m
      \<longrightarrow>
        fst (saveHomeworkPrompt_v9 env studentEmail hwId basePromptText name9 st) = Inl (''Failed to append ledger row: '' @ m) \<and>
        ledger (snd (saveHomeworkPrompt_v9 env studentEmail hwId basePromptText name9 st)) = ledger st \<and>
        (trash_error env (new_file_id env (created st)) = None \<longrightarrow> folders (snd (saveHomeworkPrompt_v9 env studentEmail hwId basePromptText name9 st)) = folders st) \<and>
        (\<forall>tm. trash_error env (new_file_id env (created st)) = Some tm \<longrightarrow>
           logged (snd (saveHomeworkPrompt_v9 env studentEmail hwId basePromptText name9 st))
             = logged st @ [''[saveHomeworkPrompt] Created prompt file '' @ quoted name9 @
                              '' for '' @ studentEmail @ ''.'',
                            ''[saveHomeworkPrompt] ERROR appending ledger row: '' @ m]))"
  proof (intro impI, elim conjE)
    assume found: "rosterFindByEmail_v9 env studentEmail = Inr (Some student)"
      and dir: "Drive_Folder_ID student \<noteq> []"
      and folder: "folders st (Drive_Folder_ID student) = Some fs"
      and ok: "create_file_error env (Drive_Folder_ID student) name9 = None"
      and fail: "ledger_failure_v9 env
        (ledger_row student hwId (new_file_id env (created st)) (uuid env (drawn st)) (now_iso env)) = Some m"
    let ?g = "\<lparr>sf_id = new_file_id env (created st), sf_name = name9,
                sf_content = full_prompt basePromptText (LifeStyle student)\<rparr>"
    let ?s2 = "hw_log (''[saveHomeworkPrompt] Created prompt file '' @ quoted name9 @
                        '' for '' @ studentEmail @ ''.'')
                  (st\<lparr>folders := (folders st)(Drive_Folder_ID student := Some (fs @ [?g])),
                       created := created st + 1\<rparr>)"
    have eq: "?res9 = record_assignment_v9 env student hwId ?g ?s2"
      by (rule save_v9_found [OF found dir folder ok])
    from fail have m: "ledger_failure_v9 env
        (ledger_row student hwId (sf_id ?g) (uuid env (drawn ?s2)) (now_iso env)) = Some m" by simp
    note rf = record_assignment_v9_fails [OF m]
    have 1: "fst ?res9 = Inl (''Failed to append ledger row: '' @ m)" unfolding eq by (rule rf(1))
    have 2: "ledger (snd ?res9) = ledger st" unfolding eq rf(2) by simp
    have 3: "folders (snd ?res9) = folders st" if tr: "trash_error env (new_file_id env (created st)) = None"
    proof -
      from rf(3) tr have "folders (snd ?res9) = (\<lambda>k. map_option (filter (\<lambda>g. sf_id g \<noteq> sf_id ?g)) (folders ?s2 k))"
        unfolding eq by simp
      also have "\<dots> = folders st" using fresh_filter [OF fresh folder, of ?g] by simp
      finally show ?thesis .
    qed
    have 4: "logged (snd ?res9) = logged st @ [''[saveHomeworkPrompt] Created prompt file '' @ quoted name9 @
                              '' for '' @ studentEmail @ ''.'',
                            ''[saveHomeworkPrompt] ERROR appending ledger row: '' @ m]"
      if tr: "trash_error env (new_file_id env (created st)) = Some tm" for tm
      using rf(4) [of tm] tr unfolding eq by simp
    from 1 2 3 4 show "fst ?res9 = Inl (''Failed to append ledger row: '' @ m) \<and>
        ledger (snd ?res9) = ledger st \<and>
        (trash_error env (new_file_id env (created st)) = None \<longrightarrow> folders (snd ?res9) = folders st) \<and>
        (\<forall>tm. trash_error env (new_file_id env (created st)) = Some tm \<longrightarrow>
           logged (snd ?res9)
             = logged st @ [''[saveHomeworkPrompt] Created prompt file '' @ quoted name9 @
                              '' for '' @ studentEmail @ ''.'',
                            ''[saveHomeworkPrompt] ERROR appending ledger row: '' @ m])"
      by blast
  qed
  have D: "(\<forall>x. fst (saveHomeworkPrompt_v9 env studentEmail hwId basePromptText name9 st) = Inl x \<and> trash_error env (new_file_id env (created st)) = None \<longrightarrow>
          folders (snd (saveHomeworkPrompt_v9 env studentEmail hwId basePromptText name9 st)) = folders st)"
    using save_v9_error_exit [OF fresh, of studentEmail hwId basePromptText name9] by blast
  from A B C D show ?thesis by (intro conjI)
qed

theorem saveHomeworkPrompt_compensation_witness:
  "rosterFindByEmail ledger_down ''jane@x.com'' = Some demo_jane \<and>
   ledger_failure ledger_down (STUDENT_ROSTER_ID ledger_down) (HOMEWORK_SHEET_NAME ledger_down)
     (ledger_row demo_jane ''L2-20240302'' (new_file_id ledger_down (created demo_state))
        (uuid ledger_down (drawn demo_state)) (now_iso ledger_down)) = Some ''Service error: Spreadsheets'' \<and>
   fst (saveHomeworkPrompt ledger_down ''jane@x.com'' ''L2-20240302'' ''Be kind.'' (Some ''prompt.txt'') demo_state)
     = Inl ''Failed to append ledger row: Service error: Spreadsheets'' \<and>
   folders (snd (saveHomeworkPrompt ledger_down ''jane@x.com'' ''L2-20240302'' ''Be kind.'' (Some ''prompt.txt'') demo_state))
     = folders demo_state"
proof -
  have fresh: "\<forall>k fs'. folders demo_state k = Some fs' \<longrightarrow> new_file_id ledger_down (created demo_state) \<notin> sf_id ` set fs'"
    by (simp add: demo_state_def)
  have found: "rosterFindByEmail ledger_down ''jane@x.com'' = Some demo_jane" by code_simp
  have dir: "Drive_Folder_ID demo_jane \<noteq> []" by (simp add: demo_jane_def)
  have folder: "folders demo_state (Drive_Folder_ID demo_jane) = Some []"
    by (simp add: demo_state_def demo_jane_def)
  have ok: "create_file_error ledger_down (Drive_Folder_ID demo_jane)
              (chosen_name ledger_down ''L2-20240302'' (Some ''prompt.txt'')) = None"
    by (simp add: ledger_down_def demo_env_def)
  have fail: "ledger_failure ledger_down (STUDENT_ROSTER_ID ledger_down) (HOMEWORK_SHEET_NAME ledger_down)
     (ledger_row demo_jane ''L2-20240302'' (new_file_id ledger_down (created demo_state))
        (uuid ledger_down (drawn demo_state)) (now_iso ledger_down)) = Some ''Service error: Spreadsheets''"
    by (simp add: ledger_failure_def ledger_down_def demo_env_def falsy_def)
  have tr: "trash_error ledger_down (new_file_id ledger_down (created demo_state)) = None"
    by (simp add: ledger_down_def demo_env_def)
  from saveHomeworkPrompt_compensation [OF fresh, of "''jane@x.com''" demo_jane "[]" "''L2-20240302''"
      "Some ''prompt.txt''" "''Service error: Spreadsheets''" "''Be kind.''"]
    found dir folder ok fail tr
  show ?thesis by simp
qed

text \<open>
  C3 as stated fails on \<open>Code.js\<close>: when trashing the prompt file throws, nothing is
  logged about it. The log ends with the error line of the ledger, and the prompt file
  stays in the folder.
\<close>

theorem saveHomeworkPrompt_v9_silent:
  "fst (saveHomeworkPrompt_v9 ledger_and_trash_down ''jane@x.com'' ''L2-20240302'' ''Be kind.'' ''prompt.txt'' demo_state)
     = Inl ''Failed to append ledger row: Service error: Spreadsheets'' \<and>
   logged (snd (saveHomeworkPrompt_v9 ledger_and_trash_down ''jane@x.com'' ''L2-20240302'' ''Be kind.'' ''prompt.txt'' demo_state))
     = [''[saveHomeworkPrompt] Created prompt file '' @ quoted ''prompt.txt'' @ '' for jane@x.com.'',
        ''[saveHomeworkPrompt] ERROR appending ledger row: Service error: Spreadsheets''] \<and>
   map_option (map sf_name)
     (folders (snd (saveHomeworkPrompt_v9 ledger_and_trash_down ''jane@x.com'' ''L2-20240302'' ''Be kind.'' ''prompt.txt'' demo_state)) ''F1'')
     = Some [''prompt.txt'']"
  by code_simp

section \<open>Assigning homework and notifying the student\<close>

lemma notify_fields [simp]:
  "ledger (notify env e s h t st) = ledger st" "folders (notify env e s h t st) = folders st"
  "trash (notify env e s h t st) = trash st" "created (notify env e s h t st) = created st"
  "drawn (notify env e s h t st) = drawn st"
  by (simp_all add: notify_def split: option.splits)

lemma notify_outbox:
  "outbox (notify env e s h t st) =
     (if falsy (HOMEWORK_PORTAL_BASEURL env) \<or> send_email_error env e \<noteq> None then outbox st
      else outbox st @ [\<lparr>mail_to = e, mail_subject = ''Your new homework is ready (ID: '' @ h @ '')'',
                         mail_first_name = first_name (Name s),
                         mail_link = the (HOMEWORK_PORTAL_BASEURL env) @ ''/homework-coach/?token='' @ t\<rparr>])"
  by (auto simp: notify_def split: option.splits)

lemma roster_indep:
  "rosterFindByEmail (env\<lparr>HOMEWORK_PORTAL_BASEURL := p, send_email_error := se\<rparr>) e = rosterFindByEmail env e"
  by (simp add: rosterFindByEmail_def cong: if_cong option.case_cong col_prop.case_cong)

lemma roster_v9_indep:
  "rosterFindByEmail_v9 (env\<lparr>HOMEWORK_PORTAL_BASEURL := p, send_email_error := se\<rparr>) e = rosterFindByEmail_v9 env e"
  by (simp add: rosterFindByEmail_v9_def cong: if_cong option.case_cong col_prop.case_cong)

lemma save_indep:
  "saveHomeworkPrompt (env\<lparr>HOMEWORK_PORTAL_BASEURL := p, send_email_error := se\<rparr>) e h b n st
     = saveHomeworkPrompt env e h b n st"
  by (simp add: saveHomeworkPrompt_def roster_indep chosen_name_def create_file_def record_assignment_def
        append_ledger_def ledger_failure_def compensate_def set_trashed_def
      cong: if_cong option.case_cong sum.case_cong prod.case_cong)

lemma save_v9_indep:
  "saveHomeworkPrompt_v9 (env\<lparr>HOMEWORK_PORTAL_BASEURL := p, send_email_error := se\<rparr>) e h b n st
     = saveHomeworkPrompt_v9 env e h b n st"
  by (simp add: saveHomeworkPrompt_v9_def roster_v9_indep create_file_def record_assignment_v9_def
        append_ledger_v9_def ledger_failure_v9_def set_trashed_def
      cong: if_cong option.case_cong sum.case_cong prod.case_cong)


lemma assign_found:
  assumes "e \<noteq> []" and "names \<noteq> []" and "rosterFindByEmail env e = Some s"
  shows "\<exists>l. assignHomework env e names st =
           (case saveHomeworkPrompt env e (hw_id s (today env)) (base_prompt env names)
                   (Some (promptFileName_of env s (hd names))) (hw_log l st) of
              (Inl m, st2) \<Rightarrow> (Inl m, st2)
            | (Inr token, st2) \<Rightarrow> (Inr (), notify env e s (hw_id s (today env)) token st2))"
proof -
  have "assignHomework env e names st =
           (case saveHomeworkPrompt env e (hw_id s (today env)) (base_prompt env names)
                   (Some (promptFileName_of env s (hd names)))
                   (hw_log (if transcript_suffix (hd names) \<noteq> None
                            then ''[assignHomework] Prompt filename: '' @ promptFileName_of env s (hd names)
                            else ''[assignHomework] WARNING: Cannot parse '' @ quoted (hd names) @
                                 ''. Using default naming.'') st) of
              (Inl m, st2) \<Rightarrow> (Inl m, st2)
            | (Inr token, st2) \<Rightarrow> (Inr (), notify env e s (hw_id s (today env)) token st2))"
    unfolding assignHomework_def Let_def using assms by simp
  then show ?thesis by blast
qed

lemma assign_v9_found:
  assumes "e \<noteq> []" and "names \<noteq> []" and "rosterFindByEmail_v9 env e = Inr (Some s)"
  shows "assignHomework_v9 env e names st =
           (case saveHomeworkPrompt_v9 env e (hw_id s (today env)) (base_prompt env names)
                   (promptFileName_of_v9 s (hd names)) st of
              (Inl m, st2) \<Rightarrow> (Inl m, st2)
            | (Inr token, st2) \<Rightarrow> (Inr (), notify env e s (hw_id s (today env)) token st2))"
  using assms by (simp add: assignHomework_v9_def Let_def)

lemma assign_indep:
  fixes env :: hw_env and p :: "string option" and se :: "string \<Rightarrow> string option"
  defines "env' \<equiv> env\<lparr>HOMEWORK_PORTAL_BASEURL := p, send_email_error := se\<rparr>"
  shows "fst (assignHomework env' e names st) = fst (assignHomework env e names st)"
    and "ledger (snd (assignHomework env' e names st)) = ledger (snd (assignHomework env e names st))"
    and "folders (snd (assignHomework env' e names st)) = folders (snd (assignHomework env e names st))"
    and "trash (snd (assignHomework env' e names st)) = trash (snd (assignHomework env e names st))"
proof -
  have r: "rosterFindByEmail env' e = rosterFindByEmail env e" unfolding env'_def by (rule roster_indep)
  have s: "saveHomeworkPrompt env' e h b n s0 = saveHomeworkPrompt env e h b n s0" for h b n s0
    unfolding env'_def by (rule save_indep)
  have o: "today env' = today env" "base_prompt env' names = base_prompt env names"
    "promptFileName_of env' x y = promptFileName_of env x y" for x y
    by (simp_all add: env'_def base_prompt_def promptFileName_of_def cong: option.case_cong)
  have eq: "assignHomework env' e names st =
        (case assignHomework env e names st of (Inl m, t) \<Rightarrow> (Inl m, t) | (Inr u, t) \<Rightarrow> (Inr u, t))
      \<or> (\<exists>s token t. rosterFindByEmail env e = Some s \<and>
            assignHomework env' e names st = (Inr (), notify env' e s (hw_id s (today env)) token t) \<and>
            assignHomework env e names st = (Inr (), notify env e s (hw_id s (today env)) token t))"
    by (auto simp: assignHomework_def Let_def r s o split: option.splits sum.splits prod.splits)
  show "fst (assignHomework env' e names st) = fst (assignHomework env e names st)"
    using eq by (auto split: prod.splits sum.splits)
  show "ledger (snd (assignHomework env' e names st)) = ledger (snd (assignHomework env e names st))"
    using eq by (auto split: prod.splits sum.splits)
  show "folders (snd (assignHomework env' e names st)) = folders (snd (assignHomework env e names st))"
    using eq by (auto split: prod.splits sum.splits)
  show "trash (snd (assignHomework env' e names st)) = trash (snd (assignHomework env e names st))"
    using eq by (auto split: prod.splits sum.splits)
qed


lemma save_Inr_effects:
  fixes basePromptText :: string
  assumes "fst (saveHomeworkPrompt env e h basePromptText n st) = Inr token"
  shows "\<exists>student fs. rosterFindByEmail env e = Some student \<and>
           folders st (Drive_Folder_ID student) = Some fs \<and> token = uuid env (drawn st) \<and>
           ledger (snd (saveHomeworkPrompt env e h basePromptText n st))
             = ledger st @ [ledger_row student h (new_file_id env (created st)) token (now_iso env)] \<and>
           folders (snd (saveHomeworkPrompt env e h basePromptText n st))
             = (folders st)(Drive_Folder_ID student := Some (fs @
                 [\<lparr>sf_id = new_file_id env (created st), sf_name = chosen_name env h n,
                   sf_content = full_prompt basePromptText (LifeStyle student)\<rparr>])) \<and>
           trash (snd (saveHomeworkPrompt env e h basePromptText n st)) = trash st"
proof (cases rule: save_cases [of env e h basePromptText n st])
  case (early x)
  with assms show ?thesis by simp
next
  case (recorded student fs s2)
  let ?f = "\<lparr>sf_id = new_file_id env (created st), sf_name = chosen_name env h n,
             sf_content = full_prompt basePromptText (LifeStyle student)\<rparr>"
  from assms recorded(4) have ok: "ledger_failure env (STUDENT_ROSTER_ID env) (HOMEWORK_SHEET_NAME env)
          (ledger_row student h (sf_id ?f) (uuid env (drawn s2)) (now_iso env)) = None"
    by (cases rule: record_assignment_cases [of env student h ?f s2])
       (simp_all add: record_assignment_fails)
  note ra = record_assignment_ok [OF ok, of e "chosen_name env h n"]
  from assms have "token = uuid env (drawn st)" unfolding recorded(4) ra(1) using recorded(9) by simp
  moreover have "ledger (snd (saveHomeworkPrompt env e h basePromptText n st))
             = ledger st @ [ledger_row student h (new_file_id env (created st)) (uuid env (drawn st)) (now_iso env)]"
    unfolding recorded(4) ra(2) using recorded by simp
  moreover have "folders (snd (saveHomeworkPrompt env e h basePromptText n st))
             = (folders st)(Drive_Folder_ID student := Some (fs @ [?f]))"
    unfolding recorded(4) ra(3) using recorded by simp
  moreover have "trash (snd (saveHomeworkPrompt env e h basePromptText n st)) = trash st"
    unfolding recorded(4) ra(5) using recorded by simp
  ultimately show ?thesis using recorded(1,3) by blast
qed

lemma save_Inl_effects:
  fixes basePromptText :: string
  assumes "fst (saveHomeworkPrompt env e h basePromptText n st) = Inl x"
  shows "ledger (snd (saveHomeworkPrompt env e h basePromptText n st)) = ledger st"
proof (cases rule: save_cases [of env e h basePromptText n st])
  case (early x)
  then show ?thesis by simp
next
  case (recorded student fs s2)
  with assms record_assignment_Inl_ledger show ?thesis by simp
qed

lemma assign_effects [case_names raised assigned]:
  obtains (raised) x where "fst (assignHomework env e names st) = Inl x"
      "ledger (snd (assignHomework env e names st)) = ledger st"
      "outbox (snd (assignHomework env e names st)) = outbox st"
  | (assigned) s fs nm where "fst (assignHomework env e names st) = Inr ()"
      "e \<noteq> []" "names \<noteq> []" "rosterFindByEmail env e = Some s"
      "folders st (Drive_Folder_ID s) = Some fs"
      "ledger (snd (assignHomework env e names st))
         = ledger st @ [ledger_row s (hw_id s (today env)) (new_file_id env (created st))
                          (uuid env (drawn st)) (now_iso env)]"
      "folders (snd (assignHomework env e names st))
         = (folders st)(Drive_Folder_ID s := Some (fs @
             [\<lparr>sf_id = new_file_id env (created st), sf_name = nm,
               sf_content = full_prompt (base_prompt env names) (LifeStyle s)\<rparr>]))"
      "outbox (snd (assignHomework env e names st))
         = (if falsy (HOMEWORK_PORTAL_BASEURL env) \<or> send_email_error env e \<noteq> None then outbox st
            else outbox st @ [\<lparr>mail_to = e,
                   mail_subject = ''Your new homework is ready (ID: '' @ hw_id s (today env) @ '')'',
                   mail_first_name = first_name (Name s),
                   mail_link = the (HOMEWORK_PORTAL_BASEURL env) @ ''/homework-coach/?token='' @
                               uuid env (drawn st)\<rparr>])"
proof (cases "e = [] \<or> names = []")
  case True
  then show ?thesis by (intro raised) (auto simp: assignHomework_def)
next
  case False
  then have ne: "e \<noteq> []" "names \<noteq> []" by simp_all
  show ?thesis
  proof (cases "rosterFindByEmail env e")
    case None
    with ne show ?thesis by (intro raised) (simp_all add: assignHomework_def)
  next
    case (Some s)
    from assign_found [OF ne Some, of st] obtain l where
      eq: "assignHomework env e names st =
           (case saveHomeworkPrompt env e (hw_id s (today env)) (base_prompt env names)
                   (Some (promptFileName_of env s (hd names))) (hw_log l st) of
              (Inl m, st2) \<Rightarrow> (Inl m, st2)
            | (Inr token, st2) \<Rightarrow> (Inr (), notify env e s (hw_id s (today env)) token st2))"
      by blast
    let ?sv = "saveHomeworkPrompt env e (hw_id s (today env)) (base_prompt env names)
                   (Some (promptFileName_of env s (hd names))) (hw_log l st)"
    show ?thesis
    proof (cases "fst ?sv")
      case (Inl x)
      then obtain s2 where sv: "?sv = (Inl x, s2)" by (cases ?sv) simp
      have a: "assignHomework env e names st = (Inl x, snd ?sv)" unfolding eq sv by simp
      from save_Inl_effects [OF Inl] have "ledger (snd ?sv) = ledger st" by simp
      moreover have "outbox (snd ?sv) = outbox st" by simp
      ultimately show ?thesis using a by (intro raised [of x]) simp_all
    next
      case (Inr token)
      then obtain s2 where sv: "?sv = (Inr token, s2)" by (cases ?sv) simp
      have a: "assignHomework env e names st
                         = (Inr (), notify env e s (hw_id s (today env)) token (snd ?sv))"
        unfolding eq sv by simp
      from save_Inr_effects [OF Inr] Some obtain fs where
        fs: "folders st (Drive_Folder_ID s) = Some fs" and tk: "token = uuid env (drawn st)"
        and l: "ledger (snd ?sv) = ledger st @ [ledger_row s (hw_id s (today env)) (new_file_id env (created st))
                          token (now_iso env)]"
        and f: "folders (snd ?sv) = (folders st)(Drive_Folder_ID s := Some (fs @
                 [\<lparr>sf_id = new_file_id env (created st),
                   sf_name = chosen_name env (hw_id s (today env)) (Some (promptFileName_of env s (hd names))),
                   sf_content = full_prompt (base_prompt env names) (LifeStyle s)\<rparr>]))"
        by auto
      show ?thesis
        by (rule assigned [OF _ ne Some fs])
           (simp_all add: a l f tk [symmetric] notify_outbox)
    qed
  qed
qed


lemma record_assignment_v9_ok:
  assumes "ledger_failure_v9 env (ledger_row student hwId (sf_id f) (uuid env (drawn st)) (now_iso env)) = None"
  shows "fst (record_assignment_v9 env student hwId f st) = Inr (uuid env (drawn st))"
    and "ledger (snd (record_assignment_v9 env student hwId f st))
           = ledger st @ [ledger_row student hwId (sf_id f) (uuid env (drawn st)) (now_iso env)]"
    and "folders (snd (record_assignment_v9 env student hwId f st)) = folders st"
    and "trash (snd (record_assignment_v9 env student hwId f st)) = trash st"
  using assms by (simp_all add: record_assignment_v9_def append_ledger_v9_def Let_def)

lemma record_assignment_v9_outbox [simp]:
  "outbox (snd (record_assignment_v9 env student hwId f st)) = outbox st"
  by (auto simp: record_assignment_v9_def append_ledger_v9_def Let_def set_trashed_def
           split: option.splits)

lemma save_v9_effects [case_names raised saved]:
  obtains (raised) x where
      "fst (saveHomeworkPrompt_v9 env e h b n st) = Inl x"
      "ledger (snd (saveHomeworkPrompt_v9 env e h b n st)) = ledger st"
      "outbox (snd (saveHomeworkPrompt_v9 env e h b n st)) = outbox st"
  | (saved) student fs where
      "rosterFindByEmail_v9 env e = Inr (Some student)"
      "folders st (Drive_Folder_ID student) = Some fs"
      "fst (saveHomeworkPrompt_v9 env e h b n st) = Inr (uuid env (drawn st))"
      "ledger (snd (saveHomeworkPrompt_v9 env e h b n st))
         = ledger st @ [ledger_row student h (new_file_id env (created st)) (uuid env (drawn st)) (now_iso env)]"
      "folders (snd (saveHomeworkPrompt_v9 env e h b n st))
         = (folders st)(Drive_Folder_ID student := Some (fs @
             [\<lparr>sf_id = new_file_id env (created st), sf_name = n,
               sf_content = full_prompt b (LifeStyle student)\<rparr>]))"
      "trash (snd (saveHomeworkPrompt_v9 env e h b n st)) = trash st"
      "outbox (snd (saveHomeworkPrompt_v9 env e h b n st)) = outbox st"
proof (cases "rosterFindByEmail_v9 env e")
  case (Inl m)
  then show ?thesis by (intro raised) (simp_all add: saveHomeworkPrompt_v9_def)
next
  case (Inr found)
  show ?thesis
  proof (cases found)
    case None
    with Inr show ?thesis by (intro raised) (simp_all add: saveHomeworkPrompt_v9_def)
  next
    case (Some student)
    show ?thesis
    proof (cases "Drive_Folder_ID student = [] \<or> folders st (Drive_Folder_ID student) = None \<or>
                  create_file_error env (Drive_Folder_ID student) n \<noteq> None")
      case True
      with Inr Some have "\<exists>x. saveHomeworkPrompt_v9 env e h b n st = (Inl x, st)"
        by (auto simp: saveHomeworkPrompt_v9_def create_file_def Let_def split: option.splits)
      then obtain x where "saveHomeworkPrompt_v9 env e h b n st = (Inl x, st)" by blast
      then show ?thesis by (intro raised [of x]) simp_all
    next
      case False
      then obtain fs where dir: "Drive_Folder_ID student \<noteq> []"
        and folder: "folders st (Drive_Folder_ID student) = Some fs"
        and ok: "create_file_error env (Drive_Folder_ID student) n = None" by auto
      let ?f = "\<lparr>sf_id = new_file_id env (created st), sf_name = n,
                sf_content = full_prompt b (LifeStyle student)\<rparr>"
      let ?s2 = "hw_log (''[saveHomeworkPrompt] Created prompt file '' @ quoted n @
                        '' for '' @ e @ ''.'')
                  (st\<lparr>folders := (folders st)(Drive_Folder_ID student := Some (fs @ [?f])),
                       created := created st + 1\<rparr>)"
      have found: "rosterFindByEmail_v9 env e = Inr (Some student)" using Inr Some by simp
      have eq: "saveHomeworkPrompt_v9 env e h b n st = record_assignment_v9 env student h ?f ?s2"
        by (simp add: save_v9_found [OF found dir folder ok])
      show ?thesis
      proof (cases "ledger_failure_v9 env (ledger_row student h (sf_id ?f) (uuid env (drawn ?s2)) (now_iso env))")
        case None
        note ra = record_assignment_v9_ok [OF None]
        show ?thesis
        proof (rule saved [OF found folder])
          show "fst (saveHomeworkPrompt_v9 env e h b n st) = Inr (uuid env (drawn st))"
            unfolding eq ra(1) by simp
          show "ledger (snd (saveHomeworkPrompt_v9 env e h b n st))
             = ledger st @ [ledger_row student h (new_file_id env (created st)) (uuid env (drawn st)) (now_iso env)]"
            unfolding eq ra(2) by simp
          show "folders (snd (saveHomeworkPrompt_v9 env e h b n st))
             = (folders st)(Drive_Folder_ID student := Some (fs @ [?f]))"
            unfolding eq ra(3) by simp
          show "trash (snd (saveHomeworkPrompt_v9 env e h b n st)) = trash st"
            unfolding eq ra(4) by simp
          show "outbox (snd (saveHomeworkPrompt_v9 env e h b n st)) = outbox st"
            unfolding eq by simp
        qed
      next
        case (Some m)
        note ra = record_assignment_v9_fails(1,2) [OF Some]
        show ?thesis
        proof (rule raised)
          show "fst (saveHomeworkPrompt_v9 env e h b n st) = Inl (''Failed to append ledger row: '' @ m)"
            unfolding eq ra(1) by simp
          show "ledger (snd (saveHomeworkPrompt_v9 env e h b n st)) = ledger st"
            unfolding eq ra(2) by simp
          show "outbox (snd (saveHomeworkPrompt_v9 env e h b n st)) = outbox st"
            unfolding eq by simp
        qed
      qed
    qed
  qed
qed

lemma assign_v9_effects [case_names raised assigned]:
  obtains (raised) x where "fst (assignHomework_v9 env e names st) = Inl x"
      "ledger (snd (assignHomework_v9 env e names st)) = ledger st"
      "outbox (snd (assignHomework_v9 env e names st)) = outbox st"
  | (assigned) s fs nm where "fst (assignHomework_v9 env e names st) = Inr ()"
      "e \<noteq> []" "names \<noteq> []" "rosterFindByEmail_v9 env e = Inr (Some s)"
      "folders st (Drive_Folder_ID s) = Some fs"
      "ledger (snd (assignHomework_v9 env e names st))
         = ledger st @ [ledger_row s (hw_id s (today env)) (new_file_id env (created st))
                          (uuid env (drawn st)) (now_iso env)]"
      "folders (snd (assignHomework_v9 env e names st))
         = (folders st)(Drive_Folder_ID s := Some (fs @
             [\<lparr>sf_id = new_file_id env (created st), sf_name = nm,
               sf_content = full_prompt (base_prompt env names) (LifeStyle s)\<rparr>]))"
      "outbox (snd (assignHomework_v9 env e names st))
         = (if falsy (HOMEWORK_PORTAL_BASEURL env) \<or> send_email_error env e \<noteq> None then outbox st
            else outbox st @ [\<lparr>mail_to = e,
                   mail_subject = ''Your new homework is ready (ID: '' @ hw_id s (today env) @ '')'',
                   mail_first_name = first_name (Name s),
                   mail_link = the (HOMEWORK_PORTAL_BASEURL env) @ ''/homework-coach/?token='' @
                               uuid env (drawn st)\<rparr>])"
proof (cases "e = [] \<or> names = []")
  case True
  then show ?thesis by (intro raised) (auto simp: assignHomework_v9_def)
next
  case False
  then have ne: "e \<noteq> []" "names \<noteq> []" by simp_all
  show ?thesis
  proof (cases "rosterFindByEmail_v9 env e")
    case (Inl m)
    with ne show ?thesis by (intro raised) (simp_all add: assignHomework_v9_def)
  next
    case (Inr found)
    show ?thesis
    proof (cases found)
      case None
      with Inr ne show ?thesis by (intro raised) (simp_all add: assignHomework_v9_def)
    next
      case (Some s)
      with Inr have found: "rosterFindByEmail_v9 env e = Inr (Some s)" by simp
      note eq = assign_v9_found [OF ne found, of st]
      let ?sv = "saveHomeworkPrompt_v9 env e (hw_id s (today env)) (base_prompt env names)
                   (promptFileName_of_v9 s (hd names)) st"
      show ?thesis
      proof (cases rule: save_v9_effects [of env e "hw_id s (today env)" "base_prompt env names"
                 "promptFileName_of_v9 s (hd names)" st])
        case (raised x)
        from raised(1) obtain s2 where sv: "?sv = (Inl x, s2)" by (cases ?sv) simp
        have a: "assignHomework_v9 env e names st = (Inl x, snd ?sv)" unfolding eq sv by simp
        show ?thesis using a raised(2,3) by (intro that(1) [of x]) simp_all
      next
        case (saved student fs)
        from saved(1) found have st: "student = s" by simp
        from saved(3) obtain s2 where sv: "?sv = (Inr (uuid env (drawn st)), s2)" by (cases ?sv) simp
        have a: "assignHomework_v9 env e names st
                   = (Inr (), notify env e s (hw_id s (today env)) (uuid env (drawn st)) (snd ?sv))"
          unfolding eq sv by simp
        show ?thesis
          by (rule assigned [OF _ ne found saved(2) [unfolded st]])
             (simp_all add: a saved(4,5,7) [unfolded st] notify_outbox)
      qed
    qed
  qed
qed

lemma assign_v9_indep:
  fixes env :: hw_env and p :: "string option" and se :: "string \<Rightarrow> string option"
  defines "env' \<equiv> env\<lparr>HOMEWORK_PORTAL_BASEURL := p, send_email_error := se\<rparr>"
  shows "fst (assignHomework_v9 env' e names st) = fst (assignHomework_v9 env e names st)"
    and "ledger (snd (assignHomework_v9 env' e names st)) = ledger (snd (assignHomework_v9 env e names st))"
    and "folders (snd (assignHomework_v9 env' e names st)) = folders (snd (assignHomework_v9 env e names st))"
    and "trash (snd (assignHomework_v9 env' e names st)) = trash (snd (assignHomework_v9 env e names st))"
proof -
  have r: "rosterFindByEmail_v9 env' e = rosterFindByEmail_v9 env e" unfolding env'_def by (rule roster_v9_indep)
  have s: "saveHomeworkPrompt_v9 env' e h b n s0 = saveHomeworkPrompt_v9 env e h b n s0" for h b n s0
    unfolding env'_def by (rule save_v9_indep)
  have o: "today env' = today env" "base_prompt env' names = base_prompt env names"
    by (simp_all add: env'_def base_prompt_def)
  have eq: "assignHomework_v9 env' e names st =
        (case assignHomework_v9 env e names st of (Inl m, t) \<Rightarrow> (Inl m, t) | (Inr u, t) \<Rightarrow> (Inr u, t))
      \<or> (\<exists>s token t. 
            assignHomework_v9 env' e names st = (Inr (), notify env' e s (hw_id s (today env)) token t) \<and>
            assignHomework_v9 env e names st = (Inr (), notify env e s (hw_id s (today env)) token t))"
    by (auto simp: assignHomework_v9_def Let_def r s o split: option.splits sum.splits prod.splits)
  show "fst (assignHomework_v9 env' e names st) = fst (assignHomework_v9 env e names st)"
    using eq by (auto split: prod.splits sum.splits)
  show "ledger (snd (assignHomework_v9 env' e names st)) = ledger (snd (assignHomework_v9 env e names st))"
    using eq by (auto split: prod.splits sum.splits)
  show "folders (snd (assignHomework_v9 env' e names st)) = folders (snd (assignHomework_v9 env e names st))"
    using eq by (auto split: prod.splits sum.splits)
  show "trash (snd (assignHomework_v9 env' e names st)) = trash (snd (assignHomework_v9 env e names st))"
    using eq by (auto split: prod.splits sum.splits)
qed


lemma find_row_Some:
  "find_row c t r rows = Some (k, row) \<Longrightarrow>
     r \<le> k \<and> k - r < length rows \<and> rows ! (k - r) = row \<and>
     cell row (int c) \<noteq> [] \<and> toLowerCase (trim (cell row (int c))) = t"
proof (induction rows arbitrary: r)
  case Nil
  then show ?case by simp
next
  case (Cons a rows)
  show ?case
  proof (cases "cell a (int c) \<noteq> [] \<and> toLowerCase (trim (cell a (int c))) = t")
    case True
    with Cons.prems show ?thesis by (simp add: Let_def)
  next
    case False
    with Cons.prems have "find_row c t (Suc r) rows = Some (k, row)" by (auto simp: Let_def)
    from Cons.IH [OF this] have *: "Suc r \<le> k" "k - Suc r < length rows" "rows ! (k - Suc r) = row"
      "cell row (int c) \<noteq> []" "toLowerCase (trim (cell row (int c))) = t" by simp_all
    from *(1) have "k - r = Suc (k - Suc r)" by arith
    with * show ?thesis by simp
  qed
qed

lemma roster_row:
  assumes "find_row c t 1 (tl vals) = Some (k, row)"
  shows "1 \<le> k \<and> k < length vals \<and> vals ! k = row \<and>
         cell row (int c) \<noteq> [] \<and> toLowerCase (trim (cell row (int c))) = t"
proof -
  from find_row_Some [OF assms] have *: "1 \<le> k" "k - 1 < length (tl vals)" "tl vals ! (k - 1) = row"
    "cell row (int c) \<noteq> []" "toLowerCase (trim (cell row (int c))) = t" by simp_all
  from *(2) have ne: "vals \<noteq> []" by auto
  then obtain h rest where v: "vals = h # rest" by (cases vals) auto
  from *(1,2,3) v have "k < length vals" "vals ! k = row" by (auto simp: nth_Cons')
  with * show ?thesis by simp
qed

lemma roster_position:
  assumes "rosterFindByEmail env e = Some s"
  shows "\<exists>vals c. current_students env = Some vals \<and>
           index_of (header_lower (hd vals)) ''student_email'' = Some c \<and>
           2 \<le> RosterRowIndex s \<and> RosterRowIndex s \<le> length vals \<and>
           toLowerCase (trim (cell (vals ! (RosterRowIndex s - 1)) (int c))) = trim (toLowerCase e)"
proof -
  from assms obtain vals c d k row where
    v: "current_students env = Some vals"
    and c: "index_of (header_lower (hd vals)) ''student_email'' = Some c"
    and f: "find_row c (trim (toLowerCase e)) 1 (tl vals) = Some (k, row)"
    and s: "s = student_of d c row k"
    by (auto simp: rosterFindByEmail_def split: if_splits option.splits col_prop.splits)
  from roster_row [OF f] s have "2 \<le> RosterRowIndex s" "RosterRowIndex s \<le> length vals"
    "toLowerCase (trim (cell (vals ! (RosterRowIndex s - 1)) (int c))) = trim (toLowerCase e)"
    by (simp_all add: student_of_def)
  with v c show ?thesis by blast
qed

lemma roster_v9_position:
  assumes "rosterFindByEmail_v9 env e = Inr (Some s)"
  shows "\<exists>vals c. current_students env = Some vals \<and>
           index_of (header_lower (hd vals)) ''student_email'' = Some c \<and>
           2 \<le> RosterRowIndex s \<and> RosterRowIndex s \<le> length vals \<and>
           toLowerCase (trim (cell (vals ! (RosterRowIndex s - 1)) (int c))) = trim (toLowerCase e)"
proof -
  from assms obtain vals c d k row where
    v: "current_students env = Some vals"
    and c: "index_of (header_lower (hd vals)) ''student_email'' = Some c"
    and f: "find_row c (trim (toLowerCase e)) 1 (tl vals) = Some (k, row)"
    and s: "s = student_of d c row k"
    by (auto simp: rosterFindByEmail_v9_def Let_def split: if_splits option.splits)
  from roster_row [OF f] s have "2 \<le> RosterRowIndex s" "RosterRowIndex s \<le> length vals"
    "toLowerCase (trim (cell (vals ! (RosterRowIndex s - 1)) (int c))) = trim (toLowerCase e)"
    by (simp_all add: student_of_def)
  with v c show ?thesis by blast
qed

lemma hw_id_row:
  "0 < RosterRowIndex s \<Longrightarrow> hw_id s dt = ''L'' @ decimal (RosterRowIndex s) @ ''-'' @ format_yyyyMMdd dt"
  by (simp add: hw_id_def row_label_def)

lemma ledger_row_cells:
  "length (ledger_row s h f t a) = 10" "ledger_row s h f t a ! 3 = h" "ledger_row s h f t a ! 4 = f"
  "ledger_row s h f t a ! 5 = t" "ledger_row s h f t a ! 2 = Email s"
  by (simp_all add: ledger_row_def)


lemma digit_char_digit: "n < 10 \<Longrightarrow> is_digit (digit_char n)"
proof -
  assume "n < 10"
  then have "n \<in> set [0..<10]" by simp
  moreover have "list_all (\<lambda>k. is_digit (digit_char k)) [0..<10]" by code_simp
  ultimately show ?thesis unfolding list_all_iff by blast
qed

lemma decimal_digits: "c \<in> set (decimal n) \<Longrightarrow> is_digit c"
proof (induction n arbitrary: c rule: decimal.induct)
  case (1 n)
  show ?case
  proof (cases "n < 10")
    case True
    with "1.prems" show ?thesis by (subst (asm) decimal.simps) (simp add: digit_char_digit)
  next
    case False
    with "1.prems" have "c \<in> set (decimal (n div 10)) \<or> c = digit_char (n mod 10)"
      by (subst (asm) decimal.simps) auto
    with "1.IH" [OF False] show ?thesis by (auto simp: digit_char_digit)
  qed
qed

lemma decimal_length:
  "n < 10 \<Longrightarrow> length (decimal n) = 1"
  "10 \<le> n \<Longrightarrow> n < 100 \<Longrightarrow> length (decimal n) = 2"
  "100 \<le> n \<Longrightarrow> n < 1000 \<Longrightarrow> length (decimal n) = 3"
  "1000 \<le> n \<Longrightarrow> n < 10000 \<Longrightarrow> length (decimal n) = 4"
proof -
  show 1: "length (decimal n) = 1" if "n < 10" for n using that by (subst decimal.simps) simp
  show 2: "length (decimal n) = 2" if "10 \<le> n" "n < 100" for n
    using that 1 [of "n div 10"] by (subst decimal.simps) simp
  show 3: "length (decimal n) = 3" if "100 \<le> n" "n < 1000" for n
    using that 2 [of "n div 10"] by (subst decimal.simps) simp
  show "length (decimal n) = 4" if "1000 \<le> n" "n < 10000" for n
    using that 3 [of "n div 10"] by (subst decimal.simps) simp
qed

lemma format_yyyyMMdd_shape:
  assumes "year dt < 10000" "month dt < 100" "day dt < 100"
  shows "length (format_yyyyMMdd dt) = 8" and "\<forall>c\<in>set (format_yyyyMMdd dt). is_digit c"
proof -
  have y: "length (decimal (year dt)) \<le> 4"
    using decimal_length [of "year dt"] assms(1) by (cases "year dt < 10"; cases "year dt < 100"; cases "year dt < 1000") simp_all
  have m: "length (pad2 (month dt)) = 2"
    using decimal_length(1,2) [of "month dt"] assms(2) by (cases "month dt < 10") (simp_all add: pad2_def)
  have d: "length (pad2 (day dt)) = 2"
    using decimal_length(1,2) [of "day dt"] assms(3) by (cases "day dt < 10") (simp_all add: pad2_def)
  from y m d show "length (format_yyyyMMdd dt) = 8" by (simp add: format_yyyyMMdd_def pad4_def)
  have z: "is_digit (CHR ''0'')" by (simp add: is_digit_def)
  show "\<forall>c\<in>set (format_yyyyMMdd dt). is_digit c"
    using decimal_digits z by (auto simp: format_yyyyMMdd_def pad4_def pad2_def)
qed

section \<open>Job Submission Adapter: what is returned and what is thrown\<close>

lemma get_prop_truthy: "get_prop j k = Some v \<Longrightarrow> truthy j"
  by (cases j) simp_all

lemma job_id_of_Some:
  "job_id_of result = Some i \<longleftrightarrow>
     (\<exists>s. get_prop result ''job_id'' = Some (JStr s) \<and> trim s \<noteq> [] \<and> i = trim s)"
proof
  assume "job_id_of result = Some i"
  then show "\<exists>s. get_prop result ''job_id'' = Some (JStr s) \<and> trim s \<noteq> [] \<and> i = trim s"
    by (auto simp: job_id_of_def split: if_splits option.splits json.splits)
next
  assume "\<exists>s. get_prop result ''job_id'' = Some (JStr s) \<and> trim s \<noteq> [] \<and> i = trim s"
  then obtain s where s: "get_prop result ''job_id'' = Some (JStr s)" "trim s \<noteq> []" "i = trim s"
    by blast
  from s(2) have "s \<noteq> []" by (auto simp: trim_def)
  with s get_prop_truthy [OF s(1)] show "job_id_of result = Some i"
    by (simp add: job_id_of_def)
qed

text \<open>
  C5 (as amended). With the URL configured, \<open>sendFileInfoToCloudRun\<close> of \<open>part_000\<close>
  never throws: it returns the trimmed \<open>job_id\<close> exactly when the endpoint answers 200
  with a body that parses and carries a non-blank string \<open>job_id\<close>, and \<open>null\<close> on a
  network error, any other status, an unparseable body or a missing identifier. The
  function of the same name in \<open>Code.js\<close> returns \<open>true\<close> exactly when the endpoint
  answers 200 with the message \<open>File saved to /incoming\<close>, never returns \<open>false\<close>, and
  throws on every failure: a network error and a non-200 status as well as an
  unparseable or unrecognized 200 body.
\<close>

theorem sendFileInfoToCloudRun_outcomes:
  assumes "\<not> falsy url"
  shows "(\<exists>r. sendFileInfoToCloudRun parse fetched url = Inr r) \<and>
         (\<forall>i. sendFileInfoToCloudRun parse fetched url = Inr (Some i) \<longleftrightarrow>
              (\<exists>text result s. fetched = Response 200 text \<and> parse text = Some result \<and>
                 get_prop result ''job_id'' = Some (JStr s) \<and> trim s \<noteq> [] \<and> i = trim s)) \<and>
         (\<forall>m. sendFileInfoToCloudRun parse (Fetch_throws m) url = Inr None) \<and>
         (\<forall>code text. code \<noteq> 200 \<longrightarrow> sendFileInfoToCloudRun parse (Response code text) url = Inr None) \<and>
         (\<forall>text. parse text = None \<longrightarrow> sendFileInfoToCloudRun parse (Response 200 text) url = Inr None) \<and>
         (\<forall>b. sendFileInfoToCloudRun_v9 parse fetched url = Inr b \<longleftrightarrow>
              b \<and> (\<exists>text result. fetched = Response 200 text \<and> parse text = Some result \<and>
                     get_prop result ''message'' = Some (JStr ''File saved to /incoming''))) \<and>
         (\<forall>m. \<exists>e. sendFileInfoToCloudRun_v9 parse (Fetch_throws m) url = Inl e) \<and>
         (\<forall>code text. code \<noteq> 200 \<longrightarrow> (\<exists>e. sendFileInfoToCloudRun_v9 parse (Response code text) url = Inl e))"
proof -
  have never_throws: "\<exists>r. sendFileInfoToCloudRun parse fetched url = Inr r"
    using assms by (simp add: sendFileInfoToCloudRun_def split: response.splits option.splits)
  have job: "sendFileInfoToCloudRun parse fetched url = Inr (Some i) \<longleftrightarrow>
              (\<exists>text result s. fetched = Response 200 text \<and> parse text = Some result \<and>
                 get_prop result ''job_id'' = Some (JStr s) \<and> trim s \<noteq> [] \<and> i = trim s)" for i
  proof (cases fetched)
    case (Fetch_throws m)
    then show ?thesis using assms by (simp add: sendFileInfoToCloudRun_def)
  next
    case (Response code body)
    show ?thesis
    proof (cases "code = 200")
      case False
      with Response show ?thesis using assms by (simp add: sendFileInfoToCloudRun_def)
    next
      case True
      show ?thesis
      proof (cases "parse body")
        case None
        with True Response show ?thesis using assms by (simp add: sendFileInfoToCloudRun_def)
      next
        case (Some result)
        with True Response show ?thesis using assms
          by (simp add: sendFileInfoToCloudRun_def job_id_of_Some)
      qed
    qed
  qed
  have v9: "sendFileInfoToCloudRun_v9 parse fetched url = Inr b \<longleftrightarrow>
              b \<and> (\<exists>text result. fetched = Response 200 text \<and> parse text = Some result \<and>
                     get_prop result ''message'' = Some (JStr ''File saved to /incoming''))" for b
    using assms
    by (cases fetched)
       (auto simp: sendFileInfoToCloudRun_v9_def dest: get_prop_truthy split: option.splits)
  show ?thesis
    using assms never_throws job v9
    by (simp add: sendFileInfoToCloudRun_def sendFileInfoToCloudRun_v9_def)
qed

theorem sendFileInfoToCloudRun_outcomes_witness:
  "\<not> falsy (Some ''https://run.example'') \<and>
   sendFileInfoToCloudRun (\<lambda>t. Some (JObj [(''job_id'', JStr '' j-17 '')])) (Response 200 ''{}'')
     (Some ''https://run.example'') = Inr (Some ''j-17'') \<and>
   sendFileInfoToCloudRun (\<lambda>t. None) (Response 503 ''busy'') (Some ''https://run.example'') = Inr None"
proof -
  have h: "\<not> falsy (Some ''https://run.example'')" by (simp add: falsy_def)
  have t: "trim '' j-17 '' = ''j-17''" by (simp add: trim_def is_ws_def)
  from sendFileInfoToCloudRun_outcomes [OF h, of "\<lambda>t. Some (JObj [(''job_id'', JStr '' j-17 '')])"
      "Response 200 ''{}''"]
  have "sendFileInfoToCloudRun (\<lambda>t. Some (JObj [(''job_id'', JStr '' j-17 '')])) (Response 200 ''{}'')
     (Some ''https://run.example'') = Inr (Some ''j-17'')"
    using t by auto
  moreover from sendFileInfoToCloudRun_outcomes [OF h, of "\<lambda>t. None" "Response 503 ''busy''"]
  have "sendFileInfoToCloudRun (\<lambda>t. None) (Response 503 ''busy'') (Some ''https://run.example'') = Inr None"
    by simp
  ultimately show ?thesis using h by simp
qed

text \<open>
  C5 as stated fails on \<open>Code.js\<close>: a non-200 answer and a network error are thrown, not
  turned into \<open>null\<close> or \<open>false\<close>.
\<close>

theorem sendFileInfoToCloudRun_v9_throws:
  "sendFileInfoToCloudRun_v9 (\<lambda>t. None) (Response 503 ''busy'') (Some ''https://run.example'')
     = Inl ''Cloud Run returned non-200 status: 503'' \<and>
   sendFileInfoToCloudRun_v9 (\<lambda>t. None) (Fetch_throws ''timeout'') (Some ''https://run.example'')
     = Inl ''Network-level error calling Cloud Run: timeout''"
  by code_simp

section \<open>Parser and renamer\<close>

text \<open>
  C6 (as amended). For every file name that \<open>extractStudentInfoFromFilename\<close> parses to
  a pair (studentName, classDate), parsing the canonical name that \<open>processNewRecordings\<close>
  builds from the pair and a ten-character identifier fragment over \<open>[A-Za-z0-9_-]\<close>
  returns the same pair, provided the student name does not itself contain, after its
  first character, a separator followed by a date. The example of the specification
  holds: the recording \<open>Jane Doe - 2024-03-01 10:00:00 GMT.mp4\<close> parses to \<open>Jane Doe\<close> and
  \<open>2024-03-01\<close> and is renamed to \<open>Jane_Doe_2024-03-01_AbCdEfGhIj.mp4\<close> when its
  identifier starts with \<open>AbCdEfGhIj\<close>.
\<close>

theorem parser_round_trip:
  assumes "extractStudentInfoFromFilename f = Some (studentName, classDate)"
    and "id_fragment (take 10 fileId)"
    and "\<not> sep_date_inside studentName"
  shows "extractStudentInfoFromFilename (canonical_name studentName classDate fileId)
           = Some (studentName, classDate) \<and>
         extractStudentInfoFromFilename ''Jane Doe - 2024-03-01 10:00:00 GMT.mp4''
           = Some (''Jane Doe'', ''2024-03-01'') \<and>
         canonical_name ''Jane Doe'' ''2024-03-01'' (''AbCdEfGhIj'' @ id_rest)
           = ''Jane_Doe_2024-03-01_AbCdEfGhIj.mp4''"
proof -
  from extract_tidy [OF assms(1)] have t: "tidy studentName" and d: "date_shape classDate"
    by simp_all
  have "extractStudentInfoFromFilename
          (replace_ws_runs (CHR ''_'') studentName @ ''_'' @ classDate @ ''_'' @ take 10 fileId @
             [CHR ''.'', CHR ''m'', CHR ''p'', CHR ''4'']) = Some (studentName, classDate)"
    by (rule reparse [OF t d assms(2) assms(3)]) simp_all
  then have 1: "extractStudentInfoFromFilename (canonical_name studentName classDate fileId)
                  = Some (studentName, classDate)"
    by (simp add: canonical_name_def)
  have 2: "extractStudentInfoFromFilename ''Jane Doe - 2024-03-01 10:00:00 GMT.mp4''
             = Some (''Jane Doe'', ''2024-03-01'')"
    by code_simp
  have "replace_ws_runs (CHR ''_'') ''Jane Doe'' = ''Jane_Doe''" by code_simp
  then have 3: "canonical_name ''Jane Doe'' ''2024-03-01'' (''AbCdEfGhIj'' @ id_rest)
             = ''Jane_Doe_2024-03-01_AbCdEfGhIj.mp4''"
    by (simp add: canonical_name_def)
  from 1 2 3 show ?thesis by simp
qed

theorem parser_round_trip_witness:
  "extractStudentInfoFromFilename ''Jane Doe - 2024-03-01 10:00:00 GMT.mp4'' = Some (''Jane Doe'', ''2024-03-01'') \<and>
   id_fragment (take 10 ''AbCdEfGhIjKLMNOP'') \<and> \<not> sep_date_inside ''Jane Doe'' \<and>
   extractStudentInfoFromFilename (canonical_name ''Jane Doe'' ''2024-03-01'' ''AbCdEfGhIjKLMNOP'')
     = Some (''Jane Doe'', ''2024-03-01'')"
proof -
  have h1: "extractStudentInfoFromFilename ''Jane Doe - 2024-03-01 10:00:00 GMT.mp4'' = Some (''Jane Doe'', ''2024-03-01'')"
    by code_simp
  have h2: "id_fragment (take 10 ''AbCdEfGhIjKLMNOP'')" by code_simp
  have h3: "\<not> sep_date_inside ''Jane Doe''" by code_simp
  from parser_round_trip [OF h1 h2 h3] h1 h2 h3 show ?thesis by blast
qed

text \<open>
  C6 as stated fails: a recording name whose cleaned student name contains a separator
  followed by a date is renamed to a canonical name that parses to another pair.
\<close>

theorem parser_round_trip_counterexample:
  "extractStudentInfoFromFilename ''Jane *2023-01-01 - 2024-03-01.mp4''
     = Some (''Jane 2023-01-01'', ''2024-03-01'') \<and>
   canonical_name ''Jane 2023-01-01'' ''2024-03-01'' ''AbCdEfGhIjKLMNOP''
     = ''Jane_2023-01-01_2024-03-01_AbCdEfGhIj.mp4'' \<and>
   extractStudentInfoFromFilename ''Jane_2023-01-01_2024-03-01_AbCdEfGhIj.mp4''
     = Some (''Jane'', ''2023-01-01'')"
  by code_simp

section \<open>The distribution loop reads transcript names its own way\<close>

subsection \<open>The first match of a lazy group\<close>

lemma lazy_prefix_first:
  "lazy_prefix tl_match acc s = Some (p, r) \<Longrightarrow>
     \<exists>xs ys. s = xs @ ys \<and> p = acc @ xs \<and> tl_match ys = Some r \<and>
       (\<forall>k<length xs. tl_match (drop k s) = None) \<and> (\<forall>c\<in>set xs. \<not> is_line_terminator c)"
proof (induction s arbitrary: acc)
  case Nil
  then show ?case by auto
next
  case (Cons c cs)
  show ?case
  proof (cases "tl_match (c # cs)")
    case (Some r')
    with Cons.prems have "p = acc" "r' = r" by simp_all
    with Some have "c # cs = [] @ (c # cs) \<and> p = acc @ [] \<and> tl_match (c # cs) = Some r \<and>
       (\<forall>k<length ([] :: string). tl_match (drop k (c # cs)) = None) \<and>
       (\<forall>x\<in>set ([] :: string). \<not> is_line_terminator x)" by simp
    then show ?thesis by blast
  next
    case None
    with Cons.prems have nl: "\<not> is_line_terminator c"
      and rec: "lazy_prefix tl_match (acc @ [c]) cs = Some (p, r)"
      by (simp_all split: if_splits)
    from Cons.IH [OF rec] obtain xs ys where *: "cs = xs @ ys" "p = (acc @ [c]) @ xs"
      "tl_match ys = Some r" "\<forall>k<length xs. tl_match (drop k cs) = None"
      "\<forall>x\<in>set xs. \<not> is_line_terminator x" by blast
    have "tl_match (drop k (c # cs)) = None" if "k < length (c # xs)" for k
      using that None *(4) by (cases k) simp_all
    with * nl have "c # cs = (c # xs) @ ys \<and> p = acc @ (c # xs) \<and> tl_match ys = Some r \<and>
       (\<forall>k<length (c # xs). tl_match (drop k (c # cs)) = None) \<and>
       (\<forall>x\<in>set (c # xs). \<not> is_line_terminator x)" by simp
    then show ?thesis by blast
  qed
qed

lemma anchored_lazy_first:
  assumes "anchored_lazy tl_match s = Some (p, r)"
  shows "\<exists>ys. s = p @ ys \<and> p \<noteq> [] \<and> tl_match ys = Some r \<and>
           (\<forall>k. 1 \<le> k \<and> k < length p \<longrightarrow> tl_match (drop k s) = None) \<and>
           (\<forall>c\<in>set p. \<not> is_line_terminator c)"
proof -
  from assms obtain c cs where s: "s = c # cs" and nl: "\<not> is_line_terminator c"
    and l: "lazy_prefix tl_match [c] cs = Some (p, r)"
    by (auto simp: anchored_lazy_def split: list.splits if_splits)
  from lazy_prefix_first [OF l] obtain xs ys where *: "cs = xs @ ys" "p = [c] @ xs"
    "tl_match ys = Some r" "\<forall>k<length xs. tl_match (drop k cs) = None"
    "\<forall>x\<in>set xs. \<not> is_line_terminator x" by blast
  have "tl_match (drop k s) = None" if k: "1 \<le> k \<and> k < length p" for k
  proof -
    from k obtain j where "k = Suc j" by (cases k) auto
    with k * s show ?thesis by simp
  qed
  with * s nl show ?thesis by auto
qed

lemma lazy_prefix_exists:
  "tl_match (drop k s) \<noteq> None \<Longrightarrow> k \<le> length s \<Longrightarrow> \<forall>c\<in>set (take k s). \<not> is_line_terminator c \<Longrightarrow>
     lazy_prefix tl_match acc s \<noteq> None"
proof (induction s arbitrary: acc k)
  case Nil
  then show ?case by auto
next
  case (Cons c cs)
  show ?case
  proof (cases "tl_match (c # cs)")
    case (Some r')
    then show ?thesis by simp
  next
    case None
    with Cons.prems(1) obtain j where k: "k = Suc j" by (cases k) auto
    with Cons.prems have "tl_match (drop j cs) \<noteq> None" "j \<le> length cs"
      "\<forall>x\<in>set (take j cs). \<not> is_line_terminator x" "\<not> is_line_terminator c" by simp_all
    with Cons.IH [of j "acc @ [c]"] None show ?thesis by simp
  qed
qed

lemma anchored_lazy_exists:
  assumes "1 \<le> k" and "k \<le> length s" and "tl_match (drop k s) \<noteq> None"
    and "\<forall>c\<in>set (take k s). \<not> is_line_terminator c"
  shows "anchored_lazy tl_match s \<noteq> None"
proof -
  from assms(1,2) obtain c cs j where s: "s = c # cs" and k: "k = Suc j"
    by (cases s; cases k) auto
  with assms have "tl_match (drop j cs) \<noteq> None" "j \<le> length cs"
    "\<forall>x\<in>set (take j cs). \<not> is_line_terminator x" "\<not> is_line_terminator c" by simp_all
  with lazy_prefix_exists [of tl_match j cs "[c]"] s show ?thesis by (simp add: anchored_lazy_def)
qed


subsection \<open>Lower case and white space\<close>

lemma ext_ci_length: "ext_ci p s \<Longrightarrow> length s = length p"
  by (induction p s rule: ext_ci.induct) auto

lemma is_ws_code: "is_ws c \<longleftrightarrow> (of_char c :: nat) \<in> {9, 10, 11, 12, 13, 32, 160}"
proof -
  have h: "c = d \<longleftrightarrow> (of_char c :: nat) = of_char d" for d by simp
  show ?thesis
    unfolding is_ws_def
    using h [of "CHR 0x09"] h [of "CHR 0x0A"] h [of "CHR 0x0B"] h [of "CHR 0x0C"] h [of "CHR 0x0D"]
      h [of "CHR 0x20"] h [of "CHR 0xA0"]
    by simp
qed

lemma lower_char_ws: "is_ws (lower_char c) = is_ws c"
proof -
  let ?n = "of_char c :: nat"
  show ?thesis
  proof (cases "(65 \<le> ?n \<and> ?n \<le> 90) \<or> (192 \<le> ?n \<and> ?n \<le> 222 \<and> ?n \<noteq> 215)")
    case False
    then have "lower_char c = c" unfolding lower_char_def Let_def by (rule if_not_P)
    then show ?thesis by simp
  next
    case True
    then have "lower_char c = char_of (?n + 32)" by (simp add: lower_char_def Let_def)
    moreover from True have "(?n + 32) mod 256 = ?n + 32" by auto
    ultimately have "(of_char (lower_char c) :: nat) = ?n + 32" by simp
    with True show ?thesis unfolding is_ws_code by auto
  qed
qed

lemma trim_toLowerCase: "trim (toLowerCase s) = toLowerCase (trim s)"
proof -
  have "is_ws \<circ> lower_char = is_ws" by (rule ext) (simp add: lower_char_ws)
  then show ?thesis
    by (simp add: trim_def toLowerCase_def dropWhile_map rev_map)
qed



subsection \<open>The shape of a recognised transcript name\<close>

lemma lower_upper_not_dot:
  assumes "is_upper c"
  shows "lower_char c \<noteq> CHR ''.''"
proof -
  let ?n = "of_char c :: nat"
  from assms have r: "65 \<le> ?n \<and> ?n \<le> 90" by (auto simp: is_upper_def)
  then have "lower_char c = char_of (?n + 32)" by (simp add: lower_char_def Let_def)
  moreover from r have "(?n + 32) mod 256 = ?n + 32" by auto
  ultimately have "(of_char (lower_char c) :: nat) = ?n + 32" by simp
  with r have "(of_char (lower_char c) :: nat) \<noteq> of_char (CHR ''.'')" by simp
  then show ?thesis by metis
qed

lemma ext_txt:
  assumes "ext_ci ''.txt'' ext"
  shows "\<exists>a b c. ext = [CHR ''.'', a, b, c] \<and> CHR ''.'' \<notin> {a, b, c} \<and> CHR ''/'' \<notin> {a, b, c}"
proof -
  from ext_ci_length [OF assms] obtain e a b c where e: "ext = [e, a, b, c]"
    by (cases ext; cases "tl ext"; cases "tl (tl ext)"; cases "tl (tl (tl ext))") auto
  have up: "x \<noteq> CHR ''.'' \<and> x \<noteq> CHR ''/''" if "is_upper x" for x
    using that by (auto simp: is_upper_def)
  from assms e have "e = CHR ''.'' \<or> (is_upper e \<and> lower_char e = CHR ''.'')" by simp
  with lower_upper_not_dot [of e] have "e = CHR ''.''" by auto
  moreover from assms e have "a = CHR ''t'' \<or> is_upper a" "b = CHR ''x'' \<or> is_upper b"
    "c = CHR ''t'' \<or> is_upper c" by auto
  ultimately show ?thesis using e up [of a] up [of b] up [of c] by auto
qed

lemma import_tail_Some:
  assumes "import_tail r = Some d"
  shows "\<exists>frag ext. r = CHR ''_'' # d @ frag @ ext \<and> date_shape d \<and> ext_ci ''.txt'' ext \<and>
           (frag = [] \<or> (\<exists>g. frag = CHR ''_'' # g \<and> id_fragment g))"
proof -
  from assms obtain cs where r: "r = CHR ''_'' # cs" and d: "d = take 10 cs" and ds: "date_shape (take 10 cs)"
    and tl: "ext_ci ''.txt'' (drop 10 cs) \<or>
             (case drop 10 cs of [] \<Rightarrow> False
              | u # v \<Rightarrow> u = CHR ''_'' \<and> id_fragment (take 10 v) \<and> ext_ci ''.txt'' (drop 10 v))"
    by (cases r) (auto simp: import_tail_def split: if_splits)
  have cs: "cs = take 10 cs @ drop 10 cs" by simp
  from tl show ?thesis
  proof
    assume e: "ext_ci ''.txt'' (drop 10 cs)"
    have "r = CHR ''_'' # d @ [] @ drop 10 cs" using r d cs by simp
    with ds d e show ?thesis by blast
  next
    assume "case drop 10 cs of [] \<Rightarrow> False
              | u # v \<Rightarrow> u = CHR ''_'' \<and> id_fragment (take 10 v) \<and> ext_ci ''.txt'' (drop 10 v)"
    then obtain v where uv: "drop 10 cs = CHR ''_'' # v" and g: "id_fragment (take 10 v)"
      and e: "ext_ci ''.txt'' (drop 10 v)"
      by (auto split: list.splits)
    have "v = take 10 v @ drop 10 v" by simp
    with uv cs have "cs = take 10 cs @ CHR ''_'' # take 10 v @ drop 10 v" by metis
    then have "r = CHR ''_'' # d @ (CHR ''_'' # take 10 v) @ drop 10 v" using r d by simp
    with ds d e g show ?thesis by blast
  qed
qed

lemma date_shape_hyphen: "date_shape s \<Longrightarrow> CHR ''-'' \<in> set s"
  by (induction s rule: date_shape.induct) auto

lemma meet_tail_after_seps:
  assumes z: "\<forall>c\<in>set z. is_sep c" and d: "date_shape d"
    and rest: "\<forall>c\<in>set rest. \<not> is_line_terminator c"
  shows "meet_tail (z @ CHR ''_'' # d @ rest) = Some d"
proof -
  from date_shape_chars [OF d] have len: "length d = 10" and hd: "is_digit (hd d)" by simp_all
  from len obtain x xs where dx: "d = x # xs" by (cases d) auto
  with hd have nx: "\<not> is_sep x" using sep_facts by auto
  have us: "is_sep (CHR ''_'')" by (simp add: is_sep_def)
  have dw: "dropWhile is_sep (z @ CHR ''_'' # d @ rest) = d @ rest"
    using z nx us by (simp add: dropWhile_append2 dx)
  have tw: "takeWhile is_sep (z @ CHR ''_'' # d @ rest) \<noteq> []"
    using z us by (cases z) auto
  show ?thesis
    unfolding meet_tail_def Let_def dw using tw d len rest by (simp add: list_ex_iff)
qed


subsection \<open>Collapsing white space\<close>

lemma trim_ws_Cons: "is_ws c \<Longrightarrow> trim (c # t) = trim t"
  by (simp add: trim_def)

lemma trim_append_ws:
  assumes "\<forall>c\<in>set zs. is_ws c"
  shows "trim (t @ zs) = trim t"
proof (cases "\<forall>c\<in>set t. is_ws c")
  case True
  with assms have "\<forall>c\<in>set (t @ zs). is_ws c" by auto
  then have "dropWhile is_ws (t @ zs) = []" by (simp only: dropWhile_eq_Nil_conv)
  moreover from True have "dropWhile is_ws t = []" by (simp only: dropWhile_eq_Nil_conv)
  ultimately show ?thesis by (simp only: trim_def)
next
  case False
  then obtain x where "x \<in> set t" "\<not> is_ws x" by blast
  then have 1: "dropWhile is_ws (t @ zs) = dropWhile is_ws t @ zs" by (rule dropWhile_append1)
  have "dropWhile is_ws (rev zs @ rev (dropWhile is_ws t)) = dropWhile is_ws (rev (dropWhile is_ws t))"
    by (rule dropWhile_append2) (use assms in simp)
  then show ?thesis unfolding trim_def 1 by simp
qed

lemma replace_all_ws:
  "\<forall>c\<in>set z. is_ws c \<Longrightarrow> replace_ws_runs r z = (if z = [] then [] else [r])"
  by (induction r z rule: replace_ws_runs.induct) auto

lemma trim_replace_dropWhile:
  "trim (replace_ws_runs (CHR '' '') y) = trim (replace_ws_runs (CHR '' '') (dropWhile is_ws y))"
proof (induction "CHR '' ''" y rule: replace_ws_runs.induct)
  case 1
  then show ?case by simp
next
  case (2 c)
  then show ?case by (simp add: trim_def is_ws_space)
next
  case (3 c d cs)
  then show ?case by (simp add: trim_ws_Cons is_ws_space)
qed

lemma trim_replace_prefix:
  assumes "\<forall>c\<in>set w. is_ws c"
  shows "trim (replace_ws_runs (CHR '' '') (w @ y)) = trim (replace_ws_runs (CHR '' '') y)"
proof -
  have "trim (replace_ws_runs (CHR '' '') (w @ y))
          = trim (replace_ws_runs (CHR '' '') (dropWhile is_ws (w @ y)))"
    by (rule trim_replace_dropWhile)
  also have "dropWhile is_ws (w @ y) = dropWhile is_ws y" using assms by (simp add: dropWhile_append2)
  also have "trim (replace_ws_runs (CHR '' '') (dropWhile is_ws y)) = trim (replace_ws_runs (CHR '' '') y)"
    by (rule trim_replace_dropWhile [symmetric])
  finally show ?thesis .
qed

lemma replace_suffix:
  assumes "\<forall>c\<in>set z. is_ws c"
  shows "\<exists>zs. (\<forall>c\<in>set zs. is_ws c) \<and>
           replace_ws_runs (CHR '' '') (x @ z) = replace_ws_runs (CHR '' '') x @ zs"
proof (induction "CHR '' ''" x rule: replace_ws_runs.induct)
  case 1
  have "replace_ws_runs (CHR '' '') ([] @ z) = replace_ws_runs (CHR '' '') [] @ (if z = [] then [] else '' '')"
    using replace_all_ws [OF assms, of "CHR '' ''"] by simp
  moreover have "\<forall>c\<in>set (if z = [] then [] else '' ''). is_ws c" by (simp add: is_ws_space)
  ultimately show ?case by blast
next
  case (2 c)
  show ?case
  proof (cases z)
    case Nil
    then show ?thesis by simp
  next
    case (Cons d z')
    with assms have d: "is_ws d" and z': "\<forall>c\<in>set (d # z'). is_ws c" by simp_all
    from replace_all_ws [OF z', of "CHR '' ''"] have r: "replace_ws_runs (CHR '' '') (d # z') = '' ''" by simp
    have "replace_ws_runs (CHR '' '') ([c] @ z)
            = replace_ws_runs (CHR '' '') [c] @ (if is_ws c then [] else '' '')"
      using Cons d r by simp
    moreover have "\<forall>x\<in>set (if is_ws c then [] else '' ''). is_ws x" by (simp add: is_ws_space)
    ultimately show ?thesis by blast
  qed
next
  case (3 c d cs)
  show ?case
  proof (cases "is_ws c")
    case True
    note c = this
    show ?thesis
    proof (cases "is_ws d")
      case True
      from 3(1) [OF c True] obtain zs where "\<forall>x\<in>set zs. is_ws x"
        "replace_ws_runs (CHR '' '') ((d # cs) @ z) = replace_ws_runs (CHR '' '') (d # cs) @ zs" by blast
      with c True have "(\<forall>x\<in>set zs. is_ws x) \<and>
         replace_ws_runs (CHR '' '') ((c # d # cs) @ z) = replace_ws_runs (CHR '' '') (c # d # cs) @ zs"
        by simp
      then show ?thesis by blast
    next
      case False
      from 3(2) [OF c False] obtain zs where "\<forall>x\<in>set zs. is_ws x"
        "replace_ws_runs (CHR '' '') ((d # cs) @ z) = replace_ws_runs (CHR '' '') (d # cs) @ zs" by blast
      with c False have "(\<forall>x\<in>set zs. is_ws x) \<and>
         replace_ws_runs (CHR '' '') ((c # d # cs) @ z) = replace_ws_runs (CHR '' '') (c # d # cs) @ zs"
        by simp
      then show ?thesis by blast
    qed
  next
    case False
    from 3(3) [OF False] obtain zs where "\<forall>x\<in>set zs. is_ws x"
      "replace_ws_runs (CHR '' '') ((d # cs) @ z) = replace_ws_runs (CHR '' '') (d # cs) @ zs" by blast
    with False have "(\<forall>x\<in>set zs. is_ws x) \<and>
       replace_ws_runs (CHR '' '') ((c # d # cs) @ z) = replace_ws_runs (CHR '' '') (c # d # cs) @ zs"
      by simp
    then show ?thesis by blast
  qed
qed

lemma trim_replace_suffix:
  assumes "\<forall>c\<in>set z. is_ws c"
  shows "trim (replace_ws_runs (CHR '' '') (x @ z)) = trim (replace_ws_runs (CHR '' '') x)"
proof -
  from replace_suffix [OF assms, of x] obtain zs where "\<forall>c\<in>set zs. is_ws c"
    "replace_ws_runs (CHR '' '') (x @ z) = replace_ws_runs (CHR '' '') x @ zs" by blast
  then show ?thesis by (simp add: trim_append_ws)
qed

lemma rev_take_drop_While:
  "rev (dropWhile P (rev y)) @ rev (takeWhile P (rev y)) = y"
proof -
  have "rev (dropWhile P (rev y)) @ rev (takeWhile P (rev y))
          = rev (takeWhile P (rev y) @ dropWhile P (rev y))" by (simp only: rev_append)
  also have "\<dots> = rev (rev y)" by (simp only: takeWhile_dropWhile_id)
  also have "\<dots> = y" by simp
  finally show ?thesis .
qed

lemma trim_frame:
  "\<exists>w1 w2. x = w1 @ trim x @ w2 \<and> (\<forall>c\<in>set w1. is_ws c) \<and> (\<forall>c\<in>set w2. is_ws c)"
proof -
  let ?y = "dropWhile is_ws x"
  have 1: "x = takeWhile is_ws x @ ?y" by simp
  have 2: "?y = trim x @ rev (takeWhile is_ws (rev ?y))"
    unfolding trim_def by (rule rev_take_drop_While [symmetric])
  have a: "\<forall>c\<in>set (takeWhile is_ws x). is_ws c" by (auto dest: set_takeWhileD)
  have b: "\<forall>c\<in>set (rev (takeWhile is_ws (rev ?y))). is_ws c" by (auto dest: set_takeWhileD)
  from 1 2 have "x = takeWhile is_ws x @ trim x @ rev (takeWhile is_ws (rev ?y))" by metis
  with a b show ?thesis by blast
qed

lemma name_key_frame:
  assumes w: "\<forall>c\<in>set w. is_ws c" and z: "\<forall>c\<in>set z. is_ws c \<or> c = CHR ''_''"
  shows "name_key (w @ x @ z) = name_key x"
proof -
  have w': "\<forall>c\<in>set (underscores_to_spaces w). is_ws c"
    using w by (auto simp: underscores_to_spaces_def is_ws_space)
  have z': "\<forall>c\<in>set (underscores_to_spaces z). is_ws c"
    using z by (auto simp: underscores_to_spaces_def is_ws_space)
  have "underscores_to_spaces (w @ x @ z)
          = underscores_to_spaces w @ (underscores_to_spaces x @ underscores_to_spaces z)"
    by (simp add: underscores_to_spaces_def)
  then show ?thesis
    unfolding name_key_def
    using trim_replace_prefix [OF w'] trim_replace_suffix [OF z'] by simp
qed

lemma name_key_trim: "name_key (trim x) = name_key x"
proof -
  from trim_frame [of x] obtain w1 w2 where x: "x = w1 @ trim x @ w2"
    and w: "\<forall>c\<in>set w1. is_ws c" "\<forall>c\<in>set w2. is_ws c" by blast
  from w(2) have "\<forall>c\<in>set w2. is_ws c \<or> c = CHR ''_''" by blast
  from name_key_frame [OF w(1) this, of "trim x"] x show ?thesis by simp
qed

lemma name_key_Nil: "name_key [] = []"
  by (simp add: name_key_def underscores_to_spaces_def trim_def)

lemma name_key_blank:
  assumes "\<forall>c\<in>set x. is_ws c \<or> c = CHR ''_''"
  shows "name_key x = []"
proof -
  have "\<forall>c\<in>set ([] :: string). is_ws c" by simp
  from name_key_frame [OF this assms, of "[]"] show ?thesis by (simp add: name_key_Nil)
qed

lemma set_trim: "set (trim x) \<subseteq> set x"
proof -
  have "set (trim x) = set (dropWhile is_ws (rev (dropWhile is_ws x)))" by (simp add: trim_def)
  also have "\<dots> \<subseteq> set (rev (dropWhile is_ws x))" by (auto dest: set_dropWhileD)
  also have "\<dots> \<subseteq> set x" by (auto dest: set_dropWhileD)
  finally show ?thesis .
qed

lemma strip_trailing_frame:
  "s = strip_trailing_space_hyphen s @ rev (takeWhile (\<lambda>c. c = CHR '' '' \<or> c = CHR ''-'') (rev s))"
  unfolding strip_trailing_space_hyphen_def by (rule rev_take_drop_While [symmetric])

lemma trim_strip_trailing:
  assumes "CHR ''-'' \<notin> set y"
  shows "trim (strip_trailing_space_hyphen y) = trim y"
proof -
  let ?zs = "rev (takeWhile (\<lambda>c. c = CHR '' '' \<or> c = CHR ''-'') (rev y))"
  have "\<forall>c\<in>set ?zs. is_ws c"
  proof
    fix c assume c: "c \<in> set ?zs"
    then have "c = CHR '' '' \<or> c = CHR ''-''" by (auto dest: set_takeWhileD)
    moreover from c have "c \<in> set y" by (auto dest: set_takeWhileD)
    ultimately show "is_ws c" using assms is_ws_space by auto
  qed
  from trim_append_ws [OF this, of "strip_trailing_space_hyphen y"] strip_trailing_frame [of y]
  show ?thesis by simp
qed

lemma clean_name_plain:
  assumes sp: "\<forall>c\<in>set raw. \<not> is_special c" and hy: "CHR ''-'' \<notin> set raw"
  shows "clean_name raw = name_key raw"
proof -
  from sp have rs: "remove_special raw = raw" by (simp add: remove_special_def)
  let ?y = "replace_ws_runs (CHR '' '') (underscores_to_spaces (trim raw))"
  from set_trim [of raw] have "CHR ''-'' \<notin> set (underscores_to_spaces (trim raw))"
    using hy by (auto simp: underscores_to_spaces_def)
  with replace_ws_runs_set [of "CHR '' ''" "underscores_to_spaces (trim raw)"]
  have "CHR ''-'' \<notin> set ?y" by auto
  from trim_strip_trailing [OF this] have "clean_name raw = name_key (trim raw)"
    by (simp add: clean_name_def rs name_key_def)
  then show ?thesis by (simp add: name_key_trim)
qed

lemma processed_plain:
  assumes "\<forall>c\<in>set p. \<not> is_warning_char c"
  shows "studentNameProcessed_of p = toLowerCase (name_key p)"
proof -
  have "map (\<lambda>c. if is_warning_char c then CHR '' '' else c) p = p"
    using assms by (simp add: map_idI)
  then show ?thesis by (simp add: studentNameProcessed_of_def name_key_def trim_toLowerCase)
qed


subsection \<open>The parser on a recognised transcript name\<close>

lemma extract_match_first:
  assumes "extractStudentInfoFromFilename f = Some (n, d)"
  shows "\<exists>raw. (anchored_lazy meet_tail (slashes_to_hyphens (trim (strip_extension f))) = Some (raw, d) \<or>
               (anchored_lazy meet_tail (slashes_to_hyphens (trim (strip_extension f))) = None \<and>
                anchored_lazy processed_tail (slashes_to_hyphens (trim (strip_extension f))) = Some (raw, d)))
      \<and> n = clean_name raw"
proof -
  define s where "s = slashes_to_hyphens (trim (strip_extension f))"
  define m where "m = (case anchored_lazy meet_tail s of Some r \<Rightarrow> Some r | None \<Rightarrow> anchored_lazy processed_tail s)"
  have ex: "extractStudentInfoFromFilename f =
      (case m of None \<Rightarrow> None
       | Some (rawNamePart, classDate) \<Rightarrow>
           if rawNamePart \<noteq> [] \<and> classDate \<noteq> [] then
             (if clean_name rawNamePart \<noteq> [] \<and> date_shape classDate
              then Some (clean_name rawNamePart, classDate) else None)
           else None)"
    unfolding extractStudentInfoFromFilename_def Let_def s_def m_def by (rule refl)
  from assms ex obtain raw d' where md: "m = Some (raw, d')"
    by (cases m) auto
  with assms ex have r: "n = clean_name raw" "d' = d"
    by (auto split: if_splits)
  from md r(2) have "anchored_lazy meet_tail s = Some (raw, d) \<or>
      (anchored_lazy meet_tail s = None \<and> anchored_lazy processed_tail s = Some (raw, d))"
    by (auto simp: m_def split: option.splits)
  with r show ?thesis unfolding s_def by blast
qed

lemma meet_of_plain:
  assumes q: "q \<noteq> []" and lt: "\<forall>c\<in>set q. \<not> is_line_terminator c" and hy: "CHR ''-'' \<notin> set q"
    and d: "date_shape dE" and rest: "\<forall>c\<in>set rest. \<not> is_line_terminator c"
    and m: "anchored_lazy meet_tail (q @ CHR ''_'' # dE @ rest) = Some (raw, d)"
  shows "d = dE \<and> (\<exists>z. q = raw @ z \<and> (\<forall>c\<in>set z. is_sep c))"
proof -
  let ?s = "q @ CHR ''_'' # dE @ rest"
  from anchored_lazy_first [OF m] obtain ys where s: "?s = raw @ ys" and ne: "raw \<noteq> []"
    and my: "meet_tail ys = Some d"
    and first: "\<forall>k. 1 \<le> k \<and> k < length raw \<longrightarrow> meet_tail (drop k ?s) = None"
    by blast
  have here: "meet_tail (drop (length q) ?s) = Some dE"
    using meet_tail_after_seps [of "[]" dE rest] d rest by simp
  have le: "length raw \<le> length q"
  proof (rule ccontr)
    assume "\<not> length raw \<le> length q"
    with q have "1 \<le> length q \<and> length q < length raw" by (cases q) auto
    with first here show False by auto
  qed
  define z where "z = drop (length raw) q"
  from s have "take (length raw) (q @ CHR ''_'' # dE @ rest) = take (length raw) (raw @ ys)"
    by (rule arg_cong)
  with le have raw: "take (length raw) q = raw" by simp
  have "q = take (length raw) q @ drop (length raw) q" by simp
  then have qz: "q = raw @ z" unfolding z_def raw .
  with s have ys: "ys = z @ CHR ''_'' # dE @ rest" by simp
  have zsep: "\<forall>c\<in>set z. is_sep c"
  proof (rule ccontr)
    assume "\<not> (\<forall>c\<in>set z. is_sep c)"
    then obtain x where x: "x \<in> set z" "\<not> is_sep x" by blast
    define z' where "z' = dropWhile is_sep z"
    from x have dw: "dropWhile is_sep ys = z' @ CHR ''_'' # dE @ rest"
      unfolding ys z'_def by (rule dropWhile_append1)
    from x have z'ne: "z' \<noteq> []" unfolding z'_def by (auto simp: dropWhile_eq_Nil_conv)
    have z'sub: "set z' \<subseteq> set q" unfolding z'_def using qz by (auto dest: set_dropWhileD)
    from my have ds: "date_shape (take 10 (z' @ CHR ''_'' # dE @ rest))"
      by (auto simp: meet_tail_def Let_def dw split: if_splits)
    show False
    proof (cases "10 \<le> length z'")
      case True
      with ds have "date_shape (take 10 z')" by simp
      from date_shape_hyphen [OF this] have "CHR ''-'' \<in> set z'" by (auto dest: in_set_takeD)
      with z'sub hy show False by auto
    next
      case False
      then obtain j where "10 - length z' = Suc j" by (cases "10 - length z'") auto
      then have "CHR ''_'' \<in> set (take 10 (z' @ CHR ''_'' # dE @ rest))" by simp
      with date_shape_member [OF ds] show False by (auto simp: is_digit_def)
    qed
  qed
  from meet_tail_after_seps [OF zsep d rest] my ys have "d = dE" by simp
  with qz zsep show ?thesis by blast
qed

lemma recognised_cleaned:
  assumes m: "anchored_lazy import_tail f = Some (p, dE)" and sl: "CHR ''/'' \<notin> set p"
  shows "\<exists>rest. slashes_to_hyphens (trim (strip_extension f)) = dropWhile is_ws p @ CHR ''_'' # dE @ rest \<and>
           date_shape dE \<and> (\<forall>c\<in>set rest. \<not> is_line_terminator c) \<and>
           (\<forall>c\<in>set p. \<not> is_line_terminator c)"
proof -
  from anchored_lazy_first [OF m] obtain ys where f: "f = p @ ys" and it: "import_tail ys = Some dE"
    and lt: "\<forall>c\<in>set p. \<not> is_line_terminator c" by blast
  from import_tail_Some [OF it] obtain frag ext where ys: "ys = CHR ''_'' # dE @ frag @ ext"
    and d: "date_shape dE" and e: "ext_ci ''.txt'' ext"
    and fr: "frag = [] \<or> (\<exists>g. frag = CHR ''_'' # g \<and> id_fragment g)" by blast
  from ext_txt [OF e] obtain a b c where ext: "ext = [CHR ''.'', a, b, c]"
    and abc: "CHR ''.'' \<notin> {a, b, c}" "CHR ''/'' \<notin> {a, b, c}" by blast
  have fch: "is_id_char x" if "x \<in> set frag" for x
    using fr that by (auto simp: id_fragment_def list_all_iff is_id_char_def)
  have dch: "is_id_char x" if "x \<in> set dE" for x
    using date_shape_member [OF d that] by (auto simp: is_id_char_def)
  have us: "is_id_char (CHR ''_'')" by (simp add: is_id_char_def)
  define t where "t = dE @ frag"
  have tch: "is_id_char x" if "x \<in> set (CHR ''_'' # t)" for x
    using that fch dch us by (auto simp: t_def)
  from abc have "a \<noteq> CHR ''.''" "a \<noteq> CHR ''/''" "b \<noteq> CHR ''.''" "b \<noteq> CHR ''/''"
    "c \<noteq> CHR ''.''" "c \<noteq> CHR ''/''" by auto
  from strip_extension_mp4 [OF this, of "p @ CHR ''_'' # t"]
  have se: "strip_extension f = p @ CHR ''_'' # t"
    by (simp add: f ys ext t_def)
  have dw: "dropWhile is_ws (p @ CHR ''_'' # t) = dropWhile is_ws p @ CHR ''_'' # t"
    using id_char_facts [OF us] by (simp add: dropWhile_append3)
  have "last (CHR ''_'' # t) \<in> set (CHR ''_'' # t)" by (rule last_in_set) simp
  then have "\<not> is_ws (last (CHR ''_'' # t))" using tch id_char_facts by blast
  moreover have "last (dropWhile is_ws p @ CHR ''_'' # t) = last (CHR ''_'' # t)"
    by (rule last_appendR) simp
  ultimately have "\<not> is_ws (hd (rev (dropWhile is_ws p @ CHR ''_'' # t)))"
    by (simp only: hd_rev not_False_eq_True)
  then have "dropWhile is_ws (rev (dropWhile is_ws p @ CHR ''_'' # t)) = rev (dropWhile is_ws p @ CHR ''_'' # t)"
    by (intro dropWhile_hd) simp
  then have tr: "trim (p @ CHR ''_'' # t) = dropWhile is_ws p @ CHR ''_'' # t"
    unfolding trim_def dw by simp
  have "CHR ''/'' \<notin> set (dropWhile is_ws p @ CHR ''_'' # t)"
  proof
    assume "CHR ''/'' \<in> set (dropWhile is_ws p @ CHR ''_'' # t)"
    then have "CHR ''/'' \<in> set p \<or> CHR ''/'' \<in> set (CHR ''_'' # t)" by (auto dest: set_dropWhileD)
    with sl tch id_char_facts show False by blast
  qed
  then have "slashes_to_hyphens (dropWhile is_ws p @ CHR ''_'' # t) = dropWhile is_ws p @ CHR ''_'' # t"
    unfolding slashes_to_hyphens_def by (intro map_idI) auto
  with se tr have "slashes_to_hyphens (trim (strip_extension f)) = dropWhile is_ws p @ CHR ''_'' # dE @ frag"
    by (simp add: t_def)
  moreover have "\<forall>x\<in>set frag. \<not> is_line_terminator x" using fch id_char_facts by blast
  ultimately show ?thesis using d lt by blast
qed

lemma parser_on_recognised:
  assumes m: "anchored_lazy import_tail f = Some (p, dE)"
    and ex: "extractStudentInfoFromFilename f = Some (n, d)"
    and plain: "\<forall>c\<in>set p. \<not> is_special c \<and> \<not> is_warning_char c \<and> c \<noteq> CHR ''/''"
    and solid: "\<exists>c\<in>set p. \<not> is_ws c \<and> c \<noteq> CHR ''_''"
  shows "n = name_key p \<and> d = dE"
proof -
  define q where "q = dropWhile is_ws p"
  from plain have sl: "CHR ''/'' \<notin> set p" by blast
  from recognised_cleaned [OF m sl] obtain rest where
    cl: "slashes_to_hyphens (trim (strip_extension f)) = q @ CHR ''_'' # dE @ rest"
    and dE: "date_shape dE" and rest: "\<forall>c\<in>set rest. \<not> is_line_terminator c"
    and ltp: "\<forall>c\<in>set p. \<not> is_line_terminator c" unfolding q_def by blast
  from solid obtain x where "x \<in> set p" "\<not> is_ws x" by blast
  then have qne: "q \<noteq> []" unfolding q_def by (auto simp: dropWhile_eq_Nil_conv)
  have qsub: "set q \<subseteq> set p" unfolding q_def by (auto dest: set_dropWhileD)
  have "is_warning_char (CHR ''-'')" by (simp add: is_warning_char_def)
  with plain have hyp: "CHR ''-'' \<notin> set p" by blast
  with qsub have hy: "CHR ''-'' \<notin> set q" by auto
  from ltp qsub have ltq: "\<forall>c\<in>set q. \<not> is_line_terminator c" by auto
  have found: "anchored_lazy meet_tail (q @ CHR ''_'' # dE @ rest) \<noteq> None"
  proof (rule anchored_lazy_exists [where k = "length q"])
    show "1 \<le> length q" using qne by (cases q) auto
    show "length q \<le> length (q @ CHR ''_'' # dE @ rest)" by simp
    show "meet_tail (drop (length q) (q @ CHR ''_'' # dE @ rest)) \<noteq> None"
      using meet_tail_after_seps [of "[]" dE rest] dE rest by simp
    show "\<forall>c\<in>set (take (length q) (q @ CHR ''_'' # dE @ rest)). \<not> is_line_terminator c"
      using ltq by simp
  qed
  from extract_match_first [OF ex] obtain raw where
    alt: "anchored_lazy meet_tail (slashes_to_hyphens (trim (strip_extension f))) = Some (raw, d) \<or>
          anchored_lazy meet_tail (slashes_to_hyphens (trim (strip_extension f))) = None \<and>
          anchored_lazy processed_tail (slashes_to_hyphens (trim (strip_extension f))) = Some (raw, d)"
    and n: "n = clean_name raw" by blast
  from alt found have mt: "anchored_lazy meet_tail (q @ CHR ''_'' # dE @ rest) = Some (raw, d)"
    unfolding cl by blast
  from meet_of_plain [OF qne ltq hy dE rest mt] obtain z where d: "d = dE" and qz: "q = raw @ z"
    and z: "\<forall>c\<in>set z. is_sep c" by blast
  have rawsub: "set raw \<subseteq> set p" using qz qsub by auto
  from rawsub plain have rs: "\<forall>c\<in>set raw. \<not> is_special c" by blast
  from rawsub hyp have rh: "CHR ''-'' \<notin> set raw" by blast
  from rs rh have "clean_name raw = name_key raw" by (rule clean_name_plain)
  moreover have "name_key p = name_key raw"
  proof -
    have "p = takeWhile is_ws p @ q" unfolding q_def by simp
    then have p: "p = takeWhile is_ws p @ raw @ z" using qz by simp
    have w: "\<forall>c\<in>set (takeWhile is_ws p). is_ws c" by (auto dest: set_takeWhileD)
    have "set z \<subseteq> set q" using qz by auto
    have z': "\<forall>c\<in>set z. is_ws c \<or> c = CHR ''_''"
    proof
      fix c assume c: "c \<in> set z"
      with z have "c = CHR '' '' \<or> c = CHR ''_'' \<or> c = CHR ''-''" by (simp add: is_sep_def)
      moreover from c \<open>set z \<subseteq> set q\<close> hy have "c \<noteq> CHR ''-''" by blast
      ultimately show "is_ws c \<or> c = CHR ''_''" using is_ws_space by blast
    qed
    from name_key_frame [OF w z', of raw] p show ?thesis by simp
  qed
  ultimately show ?thesis using n d by simp
qed


text \<open>
  C8 (as amended). Take a transcript file name that the pattern of the distribution loop
  matches, \<open><name part>_<date>.txt\<close> with an optional ten-character fragment before the
  extension, whose name part has none of the characters \<open>~ ^ ' ` + - /\<close>, and on which
  \<open>extractStudentInfoFromFilename\<close> succeeds with (studentName, classDate). The loop
  skips the file when the name part has an asterisk, counts it as unmatched when the name
  part is white space and underscores only, and otherwise looks the roster up under
  studentName in lower case; in that last case the date that its pattern captures, and
  that the loop never reads, is classDate.
\<close>

theorem derive_student_agrees_with_parser:
  assumes m: "anchored_lazy import_tail f = Some (p, dE)"
    and ex: "extractStudentInfoFromFilename f = Some (n, d)"
    and plain: "\<forall>c\<in>set p. c \<notin> set [CHR ''~'', CHR ''^'', CHR 0x27, CHR 0x60, CHR ''+'', CHR ''-'', CHR ''/'']"
  shows "derive_student f =
           (if CHR ''*'' \<in> set p then Excluded
            else if \<forall>c\<in>set p. is_ws c \<or> c = CHR ''_'' then Nameless
            else Roster_key (toLowerCase n)) \<and>
         (CHR ''*'' \<notin> set p \<and> (\<exists>c\<in>set p. \<not> is_ws c \<and> c \<noteq> CHR ''_'') \<longrightarrow> dE = d)"
proof (cases "CHR ''*'' \<in> set p")
  case True
  with m show ?thesis by (simp add: derive_student_def)
next
  case False
  have pl: "\<forall>c\<in>set p. \<not> is_special c \<and> \<not> is_warning_char c \<and> c \<noteq> CHR ''/''"
  proof
    fix c assume c: "c \<in> set p"
    with plain have "c \<notin> set [CHR ''~'', CHR ''^'', CHR 0x27, CHR 0x60, CHR ''+'', CHR ''-'', CHR ''/'']"
      by blast
    moreover from c False have "c \<noteq> CHR ''*''" by blast
    ultimately show "\<not> is_special c \<and> \<not> is_warning_char c \<and> c \<noteq> CHR ''/''"
      by (simp add: is_special_def is_warning_char_def)
  qed
  then have "\<forall>c\<in>set p. \<not> is_warning_char c" by blast
  then have key: "studentNameProcessed_of p = toLowerCase (name_key p)" by (rule processed_plain)
  show ?thesis
  proof (cases "\<forall>c\<in>set p. is_ws c \<or> c = CHR ''_''")
    case True
    then have "name_key p = []" by (rule name_key_blank)
    with key have "studentNameProcessed_of p = []" by (simp add: toLowerCase_def)
    with m False True have "derive_student f = Nameless" by (simp add: derive_student_def)
    with False True show ?thesis by auto
  next
    case blank: False
    then have solid: "\<exists>c\<in>set p. \<not> is_ws c \<and> c \<noteq> CHR ''_''" by blast
    from parser_on_recognised [OF m ex pl solid] have n: "n = name_key p" and d: "d = dE" by simp_all
    from extract_match [OF ex] have "n \<noteq> []" by blast
    with key n have ne: "studentNameProcessed_of p \<noteq> []" by (simp add: toLowerCase_def)
    have "derive_student f = Roster_key (toLowerCase n)"
      using m False ne key n by (simp add: derive_student_def)
    with False blank d show ?thesis by simp
  qed
qed

theorem derive_student_agrees_with_parser_witness:
  "anchored_lazy import_tail ''Jane__Doe_2024-03-01.TXT'' = Some (''Jane__Doe'', ''2024-03-01'') \<and>
   extractStudentInfoFromFilename ''Jane__Doe_2024-03-01.TXT'' = Some (''Jane Doe'', ''2024-03-01'') \<and>
   derive_student ''Jane__Doe_2024-03-01.TXT'' = Roster_key ''jane doe''"
proof -
  have h1: "anchored_lazy import_tail ''Jane__Doe_2024-03-01.TXT'' = Some (''Jane__Doe'', ''2024-03-01'')"
    by code_simp
  have h2: "extractStudentInfoFromFilename ''Jane__Doe_2024-03-01.TXT'' = Some (''Jane Doe'', ''2024-03-01'')"
    by code_simp
  have h3: "\<forall>c\<in>set ''Jane__Doe''. c \<notin> set [CHR ''~'', CHR ''^'', CHR 0x27, CHR 0x60, CHR ''+'', CHR ''-'', CHR ''/'']"
    by simp
  have a: "CHR ''*'' \<notin> set ''Jane__Doe''" by simp
  have b: "\<not> (\<forall>c\<in>set ''Jane__Doe''. is_ws c \<or> c = CHR ''_'')" by (simp add: is_ws_def)
  have c: "toLowerCase ''Jane Doe'' = ''jane doe''" by code_simp
  from derive_student_agrees_with_parser [OF h1 h2 h3]
  have "derive_student ''Jane__Doe_2024-03-01.TXT'' = Roster_key ''jane doe''"
    unfolding c using a b by (simp only: if_False)
  with h1 h2 show ?thesis by (intro conjI)
qed

text \<open>
  C8 as stated fails. On the transcript of the specification's own example the loop
  derives \<open>jane doe\<close> where the parser returns \<open>Jane Doe\<close>. A name part with an asterisk
  is skipped although the parser reads it, and so is a name that the pattern of the loop
  does not match.
\<close>

theorem derive_student_counterexample:
  "extractStudentInfoFromFilename ''Jane_Doe_2024-03-01_AbCdEfGhIj.txt'' = Some (''Jane Doe'', ''2024-03-01'') \<and>
   derive_student ''Jane_Doe_2024-03-01_AbCdEfGhIj.txt'' = Roster_key ''jane doe'' \<and>
   extractStudentInfoFromFilename ''Jane*_Doe_2024-03-01_AbCdEfGhIj.txt'' = Some (''Jane Doe'', ''2024-03-01'') \<and>
   derive_student ''Jane*_Doe_2024-03-01_AbCdEfGhIj.txt'' = Excluded \<and>
   extractStudentInfoFromFilename ''Jane Doe 2024-03-01.txt'' = Some (''Jane Doe'', ''2024-03-01'') \<and>
   derive_student ''Jane Doe 2024-03-01.txt'' = Unrecognized"
  by code_simp

text \<open>
  Among the name parts left out above, one with a hyphen is looked up with a space in
  its place, while the roster map keeps the hyphen in its keys.
\<close>

lemma derive_student_hyphen:
  "derive_student ''Mary-Jane_2024-03-01_AbCdEfGhIj.txt'' = Roster_key ''mary jane'' \<and>
   map fst (build_roster_map 0 1 2 [[''Mary-Jane'', ''F3'', ''mj@x.com'']] []) = [''mary-jane'']"
  by code_simp


section \<open>The homework identifier and the notification\<close>

text \<open>
  C9. For a student found in the roster, \<open>assignHomework\<close> computes the homework
  identifier as the letter L, the student's roster row, a hyphen and the current date as
  \<open>yyyyMMdd\<close>. The roster row is the row of the sheet, counted from 1, on which the e-mail
  was found, so it is at least 2 and the fallback \<open>X\<close> never appears; the date is eight
  digits for a year below 10000. On a normal return the appended ledger row carries this
  identifier in its \<open>HW_ID\<close> cell, and so does the subject of a mail that is sent. An
  identifier computed for the same roster row on the same day is the same. This holds in
  \<open>part_000\<close> and in \<open>Code.js\<close>.
\<close>

theorem assignHomework_hwId:
  "(\<forall>s. rosterFindByEmail env studentEmail = Some s \<longrightarrow>
      hw_id s (today env) = ''L'' @ decimal (RosterRowIndex s) @ ''-'' @ format_yyyyMMdd (today env) \<and>
      (\<exists>vals c. current_students env = Some vals \<and>
         index_of (header_lower (hd vals)) ''student_email'' = Some c \<and>
         2 \<le> RosterRowIndex s \<and> RosterRowIndex s \<le> length vals \<and>
         toLowerCase (trim (cell (vals ! (RosterRowIndex s - 1)) (int c))) = trim (toLowerCase studentEmail)) \<and>
      (year (today env) < 10000 \<and> month (today env) < 100 \<and> day (today env) < 100 \<longrightarrow>
         length (format_yyyyMMdd (today env)) = 8 \<and> (\<forall>c\<in>set (format_yyyyMMdd (today env)). is_digit c)) \<and>
      (fst (assignHomework env studentEmail names st) = Inr () \<longrightarrow>
         (\<exists>row. ledger (snd (assignHomework env studentEmail names st)) = ledger st @ [row] \<and>
                row ! 3 = hw_id s (today env)) \<and>
         (\<forall>m\<in>set (drop (length (outbox st)) (outbox (snd (assignHomework env studentEmail names st)))).
            mail_subject m = ''Your new homework is ready (ID: '' @ hw_id s (today env) @ '')'')) \<and>
      (\<forall>env2 e2 s2. rosterFindByEmail env2 e2 = Some s2 \<and> RosterRowIndex s2 = RosterRowIndex s \<and>
         today env2 = today env \<longrightarrow> hw_id s2 (today env2) = hw_id s (today env))) \<and>
   (\<forall>s. rosterFindByEmail_v9 env studentEmail = Inr (Some s) \<longrightarrow>
      hw_id s (today env) = ''L'' @ decimal (RosterRowIndex s) @ ''-'' @ format_yyyyMMdd (today env) \<and>
      (\<exists>vals c. current_students env = Some vals \<and>
         index_of (header_lower (hd vals)) ''student_email'' = Some c \<and>
         2 \<le> RosterRowIndex s \<and> RosterRowIndex s \<le> length vals \<and>
         toLowerCase (trim (cell (vals ! (RosterRowIndex s - 1)) (int c))) = trim (toLowerCase studentEmail)) \<and>
      (year (today env) < 10000 \<and> month (today env) < 100 \<and> day (today env) < 100 \<longrightarrow>
         length (format_yyyyMMdd (today env)) = 8 \<and> (\<forall>c\<in>set (format_yyyyMMdd (today env)). is_digit c)) \<and>
      (fst (assignHomework_v9 env studentEmail names st) = Inr () \<longrightarrow>
         (\<exists>row. ledger (snd (assignHomework_v9 env studentEmail names st)) = ledger st @ [row] \<and>
                row ! 3 = hw_id s (today env)) \<and>
         (\<forall>m\<in>set (drop (length (outbox st)) (outbox (snd (assignHomework_v9 env studentEmail names st)))).
            mail_subject m = ''Your new homework is ready (ID: '' @ hw_id s (today env) @ '')'')) \<and>
      (\<forall>env2 e2 s2. rosterFindByEmail_v9 env2 e2 = Inr (Some s2) \<and> RosterRowIndex s2 = RosterRowIndex s \<and>
         today env2 = today env \<longrightarrow> hw_id s2 (today env2) = hw_id s (today env)))"
proof -
  have A: "(\<forall>s. rosterFindByEmail env studentEmail = Some s \<longrightarrow>
      hw_id s (today env) = ''L'' @ decimal (RosterRowIndex s) @ ''-'' @ format_yyyyMMdd (today env) \<and>
      (\<exists>vals c. current_students env = Some vals \<and>
         index_of (header_lower (hd vals)) ''student_email'' = Some c \<and>
         2 \<le> RosterRowIndex s \<and> RosterRowIndex s \<le> length vals \<and>
         toLowerCase (trim (cell (vals ! (RosterRowIndex s - 1)) (int c))) = trim (toLowerCase studentEmail)) \<and>
      (year (today env) < 10000 \<and> month (today env) < 100 \<and> day (today env) < 100 \<longrightarrow>
         length (format_yyyyMMdd (today env)) = 8 \<and> (\<forall>c\<in>set (format_yyyyMMdd (today env)). is_digit c)) \<and>
      (fst (assignHomework env studentEmail names st) = Inr () \<longrightarrow>
         (\<exists>row. ledger (snd (assignHomework env studentEmail names st)) = ledger st @ [row] \<and>
                row ! 3 = hw_id s (today env)) \<and>
         (\<forall>m\<in>set (drop (length (outbox st)) (outbox (snd (assignHomework env studentEmail names st)))).
            mail_subject m = ''Your new homework is ready (ID: '' @ hw_id s (today env) @ '')'')) \<and>
      (\<forall>env2 e2 s2. rosterFindByEmail env2 e2 = Some s2 \<and> RosterRowIndex s2 = RosterRowIndex s \<and>
         today env2 = today env \<longrightarrow> hw_id s2 (today env2) = hw_id s (today env)))"
  proof (intro allI impI)
    fix s assume found: "rosterFindByEmail env studentEmail = Some s"
    from roster_position [OF found] obtain vals c where pos: "current_students env = Some vals"
      "index_of (header_lower (hd vals)) ''student_email'' = Some c"
      "2 \<le> RosterRowIndex s" "RosterRowIndex s \<le> length vals"
      "toLowerCase (trim (cell (vals ! (RosterRowIndex s - 1)) (int c))) = trim (toLowerCase studentEmail)"
      by blast
    from pos(3) have 1: "hw_id s (today env) = ''L'' @ decimal (RosterRowIndex s) @ ''-'' @ format_yyyyMMdd (today env)"
      by (intro hw_id_row) simp
    from pos have 2: "\<exists>vals c. current_students env = Some vals \<and>
         index_of (header_lower (hd vals)) ''student_email'' = Some c \<and>
         2 \<le> RosterRowIndex s \<and> RosterRowIndex s \<le> length vals \<and>
         toLowerCase (trim (cell (vals ! (RosterRowIndex s - 1)) (int c))) = trim (toLowerCase studentEmail)"
      by blast
    have 3: "year (today env) < 10000 \<and> month (today env) < 100 \<and> day (today env) < 100 \<longrightarrow>
         length (format_yyyyMMdd (today env)) = 8 \<and> (\<forall>c\<in>set (format_yyyyMMdd (today env)). is_digit c)"
      using format_yyyyMMdd_shape [of "today env"] by blast
    have 4: "fst (assignHomework env studentEmail names st) = Inr () \<longrightarrow>
         (\<exists>row. ledger (snd (assignHomework env studentEmail names st)) = ledger st @ [row] \<and>
                row ! 3 = hw_id s (today env)) \<and>
         (\<forall>m\<in>set (drop (length (outbox st)) (outbox (snd (assignHomework env studentEmail names st)))).
            mail_subject m = ''Your new homework is ready (ID: '' @ hw_id s (today env) @ '')'')"
    proof (cases rule: assign_effects [of env studentEmail names st])
      case (raised x)
      then show ?thesis by simp
    next
      case (assigned s' fs nm)
      from assigned(4) found have s': "s' = s" by simp
      have "ledger_row s (hw_id s (today env)) (new_file_id env (created st)) (uuid env (drawn st)) (now_iso env) ! 3
              = hw_id s (today env)" by (rule ledger_row_cells)
      with assigned(6) s' have "\<exists>row. ledger (snd (assignHomework env studentEmail names st)) = ledger st @ [row] \<and>
                row ! 3 = hw_id s (today env)" by blast
      moreover have "\<forall>m\<in>set (drop (length (outbox st)) (outbox (snd (assignHomework env studentEmail names st)))).
            mail_subject m = ''Your new homework is ready (ID: '' @ hw_id s (today env) @ '')''"
        unfolding assigned(8) s' by simp
      ultimately show ?thesis by blast
    qed
    have 5: "\<forall>env2 e2 s2. rosterFindByEmail env2 e2 = Some s2 \<and> RosterRowIndex s2 = RosterRowIndex s \<and>
         today env2 = today env \<longrightarrow> hw_id s2 (today env2) = hw_id s (today env)"
      by (simp add: hw_id_def row_label_def)
    from 1 2 3 4 5 show "hw_id s (today env) = ''L'' @ decimal (RosterRowIndex s) @ ''-'' @ format_yyyyMMdd (today env) \<and>
      (\<exists>vals c. current_students env = Some vals \<and>
         index_of (header_lower (hd vals)) ''student_email'' = Some c \<and>
         2 \<le> RosterRowIndex s \<and> RosterRowIndex s \<le> length vals \<and>
         toLowerCase (trim (cell (vals ! (RosterRowIndex s - 1)) (int c))) = trim (toLowerCase studentEmail)) \<and>
      (year (today env) < 10000 \<and> month (today env) < 100 \<and> day (today env) < 100 \<longrightarrow>
         length (format_yyyyMMdd (today env)) = 8 \<and> (\<forall>c\<in>set (format_yyyyMMdd (today env)). is_digit c)) \<and>
      (fst (assignHomework env studentEmail names st) = Inr () \<longrightarrow>
         (\<exists>row. ledger (snd (assignHomework env studentEmail names st)) = ledger st @ [row] \<and>
                row ! 3 = hw_id s (today env)) \<and>
         (\<forall>m\<in>set (drop (length (outbox st)) (outbox (snd (assignHomework env studentEmail names st)))).
            mail_subject m = ''Your new homework is ready (ID: '' @ hw_id s (today env) @ '')'')) \<and>
      (\<forall>env2 e2 s2. rosterFindByEmail env2 e2 = Some s2 \<and> RosterRowIndex s2 = RosterRowIndex s \<and>
         today env2 = today env \<longrightarrow> hw_id s2 (today env2) = hw_id s (today env))"
      by (intro conjI)
  qed
  have B: "(\<forall>s. rosterFindByEmail_v9 env studentEmail = Inr (Some s) \<longrightarrow>
      hw_id s (today env) = ''L'' @ decimal (RosterRowIndex s) @ ''-'' @ format_yyyyMMdd (today env) \<and>
      (\<exists>vals c. current_students env = Some vals \<and>
         index_of (header_lower (hd vals)) ''student_email'' = Some c \<and>
         2 \<le> RosterRowIndex s \<and> RosterRowIndex s \<le> length vals \<and>
         toLowerCase (trim (cell (vals ! (RosterRowIndex s - 1)) (int c))) = trim (toLowerCase studentEmail)) \<and>
      (year (today env) < 10000 \<and> month (today env) < 100 \<and> day (today env) < 100 \<longrightarrow>
         length (format_yyyyMMdd (today env)) = 8 \<and> (\<forall>c\<in>set (format_yyyyMMdd (today env)). is_digit c)) \<and>
      (fst (assignHomework_v9 env studentEmail names st) = Inr () \<longrightarrow>
         (\<exists>row. ledger (snd (assignHomework_v9 env studentEmail names st)) = ledger st @ [row] \<and>
                row ! 3 = hw_id s (today env)) \<and>
         (\<forall>m\<in>set (drop (length (outbox st)) (outbox (snd (assignHomework_v9 env studentEmail names st)))).
            mail_subject m = ''Your new homework is ready (ID: '' @ hw_id s (today env) @ '')'')) \<and>
      (\<forall>env2 e2 s2. rosterFindByEmail_v9 env2 e2 = Inr (Some s2) \<and> RosterRowIndex s2 = RosterRowIndex s \<and>
         today env2 = today env \<longrightarrow> hw_id s2 (today env2) = hw_id s (today env)))"
  proof (intro allI impI)
    fix s assume found: "rosterFindByEmail_v9 env studentEmail = Inr (Some s)"
    from roster_v9_position [OF found] obtain vals c where pos: "current_students env = Some vals"
      "index_of (header_lower (hd vals)) ''student_email'' = Some c"
      "2 \<le> RosterRowIndex s" "RosterRowIndex s \<le> length vals"
      "toLowerCase (trim (cell (vals ! (RosterRowIndex s - 1)) (int c))) = trim (toLowerCase studentEmail)"
      by blast
    from pos(3) have 1: "hw_id s (today env) = ''L'' @ decimal (RosterRowIndex s) @ ''-'' @ format_yyyyMMdd (today env)"
      by (intro hw_id_row) simp
    from pos have 2: "\<exists>vals c. current_students env = Some vals \<and>
         index_of (header_lower (hd vals)) ''student_email'' = Some c \<and>
         2 \<le> RosterRowIndex s \<and> RosterRowIndex s \<le> length vals \<and>
         toLowerCase (trim (cell (vals ! (RosterRowIndex s - 1)) (int c))) = trim (toLowerCase studentEmail)"
      by blast
    have 3: "year (today env) < 10000 \<and> month (today env) < 100 \<and> day (today env) < 100 \<longrightarrow>
         length (format_yyyyMMdd (today env)) = 8 \<and> (\<forall>c\<in>set (format_yyyyMMdd (today env)). is_digit c)"
      using format_yyyyMMdd_shape [of "today env"] by blast
    have 4: "fst (assignHomework_v9 env studentEmail names st) = Inr () \<longrightarrow>
         (\<exists>row. ledger (snd (assignHomework_v9 env studentEmail names st)) = ledger st @ [row] \<and>
                row ! 3 = hw_id s (today env)) \<and>
         (\<forall>m\<in>set (drop (length (outbox st)) (outbox (snd (assignHomework_v9 env studentEmail names st)))).
            mail_subject m = ''Your new homework is ready (ID: '' @ hw_id s (today env) @ '')'')"
    proof (cases rule: assign_v9_effects [of env studentEmail names st])
      case (raised x)
      then show ?thesis by simp
    next
      case (assigned s' fs nm)
      from assigned(4) found have s': "s' = s" by simp
      have "ledger_row s (hw_id s (today env)) (new_file_id env (created st)) (uuid env (drawn st)) (now_iso env) ! 3
              = hw_id s (today env)" by (rule ledger_row_cells)
      with assigned(6) s' have "\<exists>row. ledger (snd (assignHomework_v9 env studentEmail names st)) = ledger st @ [row] \<and>
                row ! 3 = hw_id s (today env)" by blast
      moreover have "\<forall>m\<in>set (drop (length (outbox st)) (outbox (snd (assignHomework_v9 env studentEmail names st)))).
            mail_subject m = ''Your new homework is ready (ID: '' @ hw_id s (today env) @ '')''"
        unfolding assigned(8) s' by simp
      ultimately show ?thesis by blast
    qed
    have 5: "\<forall>env2 e2 s2. rosterFindByEmail_v9 env2 e2 = Inr (Some s2) \<and> RosterRowIndex s2 = RosterRowIndex s \<and>
         today env2 = today env \<longrightarrow> hw_id s2 (today env2) = hw_id s (today env)"
      by (simp add: hw_id_def row_label_def)
    from 1 2 3 4 5 show "hw_id s (today env) = ''L'' @ decimal (RosterRowIndex s) @ ''-'' @ format_yyyyMMdd (today env) \<and>
      (\<exists>vals c. current_students env = Some vals \<and>
         index_of (header_lower (hd vals)) ''student_email'' = Some c \<and>
         2 \<le> RosterRowIndex s \<and> RosterRowIndex s \<le> length vals \<and>
         toLowerCase (trim (cell (vals ! (RosterRowIndex s - 1)) (int c))) = trim (toLowerCase studentEmail)) \<and>
      (year (today env) < 10000 \<and> month (today env) < 100 \<and> day (today env) < 100 \<longrightarrow>
         length (format_yyyyMMdd (today env)) = 8 \<and> (\<forall>c\<in>set (format_yyyyMMdd (today env)). is_digit c)) \<and>
      (fst (assignHomework_v9 env studentEmail names st) = Inr () \<longrightarrow>
         (\<exists>row. ledger (snd (assignHomework_v9 env studentEmail names st)) = ledger st @ [row] \<and>
                row ! 3 = hw_id s (today env)) \<and>
         (\<forall>m\<in>set (drop (length (outbox st)) (outbox (snd (assignHomework_v9 env studentEmail names st)))).
            mail_subject m = ''Your new homework is ready (ID: '' @ hw_id s (today env) @ '')'')) \<and>
      (\<forall>env2 e2 s2. rosterFindByEmail_v9 env2 e2 = Inr (Some s2) \<and> RosterRowIndex s2 = RosterRowIndex s \<and>
         today env2 = today env \<longrightarrow> hw_id s2 (today env2) = hw_id s (today env))"
      by (intro conjI)
  qed
  from A B show ?thesis by (rule conjI)
qed

theorem assignHomework_hwId_witness:
  "rosterFindByEmail demo_env ''jane@x.com'' = Some demo_jane \<and>
   rosterFindByEmail_v9 demo_env ''jane@x.com'' = Inr (Some demo_jane) \<and>
   fst (assignHomework demo_env ''jane@x.com'' [''Jane_Doe_2024-03-01_AbCdEfGhIj.txt''] demo_state) = Inr () \<and>
   fst (assignHomework_v9 demo_env ''jane@x.com'' [''Jane_Doe_2024-03-01_AbCdEfGhIj.txt''] demo_state) = Inr () \<and>
   hw_id demo_jane (today demo_env) = ''L2-20240302'' \<and>
   length (format_yyyyMMdd (today demo_env)) = 8 \<and>
   map (\<lambda>row. row ! 3)
     (ledger (snd (assignHomework demo_env ''jane@x.com'' [''Jane_Doe_2024-03-01_AbCdEfGhIj.txt''] demo_state)))
     = [''L2-20240302''] \<and>
   map (\<lambda>row. row ! 3)
     (ledger (snd (assignHomework_v9 demo_env ''jane@x.com'' [''Jane_Doe_2024-03-01_AbCdEfGhIj.txt''] demo_state)))
     = [''L2-20240302'']"
proof -
  have found: "rosterFindByEmail demo_env ''jane@x.com'' = Some demo_jane" by code_simp
  have found9: "rosterFindByEmail_v9 demo_env ''jane@x.com'' = Inr (Some demo_jane)" by code_simp
  have ret: "fst (assignHomework demo_env ''jane@x.com'' [''Jane_Doe_2024-03-01_AbCdEfGhIj.txt''] demo_state) = Inr ()"
    by code_simp
  have ret9: "fst (assignHomework_v9 demo_env ''jane@x.com'' [''Jane_Doe_2024-03-01_AbCdEfGhIj.txt''] demo_state) = Inr ()"
    by code_simp
  have dt: "year (today demo_env) < 10000 \<and> month (today demo_env) < 100 \<and> day (today demo_env) < 100"
    by (simp add: demo_env_def)
  have two: "decimal (RosterRowIndex demo_jane) = ''2''" by code_simp
  have fmt: "format_yyyyMMdd (today demo_env) = ''20240302''" by code_simp
  have e: "ledger demo_state = []" by (simp add: demo_state_def)
  note t = assignHomework_hwId [of demo_env "''jane@x.com''" "[''Jane_Doe_2024-03-01_AbCdEfGhIj.txt'']" demo_state]
  from t found have "hw_id demo_jane (today demo_env)
      = ''L'' @ decimal (RosterRowIndex demo_jane) @ ''-'' @ format_yyyyMMdd (today demo_env)" by blast
  then have id: "hw_id demo_jane (today demo_env) = ''L2-20240302''" unfolding two fmt by simp
  from t found dt have len: "length (format_yyyyMMdd (today demo_env)) = 8" by blast
  from t found ret obtain row where
    "ledger (snd (assignHomework demo_env ''jane@x.com'' [''Jane_Doe_2024-03-01_AbCdEfGhIj.txt''] demo_state))
       = ledger demo_state @ [row]" "row ! 3 = hw_id demo_jane (today demo_env)" by blast
  with id e have l: "map (\<lambda>row. row ! 3)
     (ledger (snd (assignHomework demo_env ''jane@x.com'' [''Jane_Doe_2024-03-01_AbCdEfGhIj.txt''] demo_state)))
     = [''L2-20240302'']" by simp
  from t found9 ret9 obtain row9 where
    "ledger (snd (assignHomework_v9 demo_env ''jane@x.com'' [''Jane_Doe_2024-03-01_AbCdEfGhIj.txt''] demo_state))
       = ledger demo_state @ [row9]" "row9 ! 3 = hw_id demo_jane (today demo_env)" by blast
  with id e have l9: "map (\<lambda>row. row ! 3)
     (ledger (snd (assignHomework_v9 demo_env ''jane@x.com'' [''Jane_Doe_2024-03-01_AbCdEfGhIj.txt''] demo_state)))
     = [''L2-20240302'']" by simp
  from found found9 ret ret9 id len l l9 show ?thesis by (intro conjI)
qed


text \<open>
  C10. When the property \<open>HOMEWORK_PORTAL_BASEURL\<close> is unset or empty, or when
  \<open>MailApp.sendEmail\<close> throws, \<open>assignHomework\<close> returns or raises exactly as it would with
  the notification working, and leaves the same ledger and the same folders; no mail is
  sent. When it returns, the prompt file is in the student's folder and the ledger has
  one more row, carrying the token just drawn, whereas the run with the notification
  working would have sent one mail. This holds in \<open>part_000\<close> and in \<open>Code.js\<close>.
\<close>

theorem assignHomework_unnotified:
  assumes off: "falsy (HOMEWORK_PORTAL_BASEURL env) \<or> send_email_error env studentEmail \<noteq> None"
  shows
   "(fst (assignHomework env studentEmail names st)
       = fst (assignHomework (env\<lparr>HOMEWORK_PORTAL_BASEURL := Some url, send_email_error := (\<lambda>a. None)\<rparr>) studentEmail names st) \<and>
     ledger (snd (assignHomework env studentEmail names st))
       = ledger (snd (assignHomework (env\<lparr>HOMEWORK_PORTAL_BASEURL := Some url, send_email_error := (\<lambda>a. None)\<rparr>) studentEmail names st)) \<and>
     folders (snd (assignHomework env studentEmail names st))
       = folders (snd (assignHomework (env\<lparr>HOMEWORK_PORTAL_BASEURL := Some url, send_email_error := (\<lambda>a. None)\<rparr>) studentEmail names st)) \<and>
     outbox (snd (assignHomework env studentEmail names st)) = outbox st \<and>
     (fst (assignHomework env studentEmail names st) = Inr () \<longrightarrow>
        (\<exists>s fs nm. rosterFindByEmail env studentEmail = Some s \<and>
           folders st (Drive_Folder_ID s) = Some fs \<and>
           folders (snd (assignHomework env studentEmail names st)) (Drive_Folder_ID s)
             = Some (fs @ [\<lparr>sf_id = new_file_id env (created st), sf_name = nm,
                              sf_content = full_prompt (base_prompt env names) (LifeStyle s)\<rparr>]) \<and>
           ledger (snd (assignHomework env studentEmail names st))
             = ledger st @ [ledger_row s (hw_id s (today env)) (new_file_id env (created st))
                              (uuid env (drawn st)) (now_iso env)]) \<and>
        (url \<noteq> [] \<longrightarrow>
           length (outbox (snd (assignHomework (env\<lparr>HOMEWORK_PORTAL_BASEURL := Some url, send_email_error := (\<lambda>a. None)\<rparr>) studentEmail names st)))
             = length (outbox st) + 1))) \<and>
    (fst (assignHomework_v9 env studentEmail names st)
       = fst (assignHomework_v9 (env\<lparr>HOMEWORK_PORTAL_BASEURL := Some url, send_email_error := (\<lambda>a. None)\<rparr>) studentEmail names st) \<and>
     ledger (snd (assignHomework_v9 env studentEmail names st))
       = ledger (snd (assignHomework_v9 (env\<lparr>HOMEWORK_PORTAL_BASEURL := Some url, send_email_error := (\<lambda>a. None)\<rparr>) studentEmail names st)) \<and>
     folders (snd (assignHomework_v9 env studentEmail names st))
       = folders (snd (assignHomework_v9 (env\<lparr>HOMEWORK_PORTAL_BASEURL := Some url, send_email_error := (\<lambda>a. None)\<rparr>) studentEmail names st)) \<and>
     outbox (snd (assignHomework_v9 env studentEmail names st)) = outbox st \<and>
     (fst (assignHomework_v9 env studentEmail names st) = Inr () \<longrightarrow>
        (\<exists>s fs nm. rosterFindByEmail_v9 env studentEmail = Inr (Some s) \<and>
           folders st (Drive_Folder_ID s) = Some fs \<and>
           folders (snd (assignHomework_v9 env studentEmail names st)) (Drive_Folder_ID s)
             = Some (fs @ [\<lparr>sf_id = new_file_id env (created st), sf_name = nm,
                              sf_content = full_prompt (base_prompt env names) (LifeStyle s)\<rparr>]) \<and>
           ledger (snd (assignHomework_v9 env studentEmail names st))
             = ledger st @ [ledger_row s (hw_id s (today env)) (new_file_id env (created st))
                              (uuid env (drawn st)) (now_iso env)]) \<and>
        (url \<noteq> [] \<longrightarrow>
           length (outbox (snd (assignHomework_v9 (env\<lparr>HOMEWORK_PORTAL_BASEURL := Some url, send_email_error := (\<lambda>a. None)\<rparr>) studentEmail names st)))
             = length (outbox st) + 1)))"
proof -
  have A: "fst (assignHomework env studentEmail names st)
       = fst (assignHomework (env\<lparr>HOMEWORK_PORTAL_BASEURL := Some url, send_email_error := (\<lambda>a. None)\<rparr>) studentEmail names st) \<and>
     ledger (snd (assignHomework env studentEmail names st))
       = ledger (snd (assignHomework (env\<lparr>HOMEWORK_PORTAL_BASEURL := Some url, send_email_error := (\<lambda>a. None)\<rparr>) studentEmail names st)) \<and>
     folders (snd (assignHomework env studentEmail names st))
       = folders (snd (assignHomework (env\<lparr>HOMEWORK_PORTAL_BASEURL := Some url, send_email_error := (\<lambda>a. None)\<rparr>) studentEmail names st)) \<and>
     outbox (snd (assignHomework env studentEmail names st)) = outbox st \<and>
     (fst (assignHomework env studentEmail names st) = Inr () \<longrightarrow>
        (\<exists>s fs nm. rosterFindByEmail env studentEmail = Some s \<and>
           folders st (Drive_Folder_ID s) = Some fs \<and>
           folders (snd (assignHomework env studentEmail names st)) (Drive_Folder_ID s)
             = Some (fs @ [\<lparr>sf_id = new_file_id env (created st), sf_name = nm,
                              sf_content = full_prompt (base_prompt env names) (LifeStyle s)\<rparr>]) \<and>
           ledger (snd (assignHomework env studentEmail names st))
             = ledger st @ [ledger_row s (hw_id s (today env)) (new_file_id env (created st))
                              (uuid env (drawn st)) (now_iso env)]) \<and>
        (url \<noteq> [] \<longrightarrow>
           length (outbox (snd (assignHomework (env\<lparr>HOMEWORK_PORTAL_BASEURL := Some url, send_email_error := (\<lambda>a. None)\<rparr>) studentEmail names st)))
             = length (outbox st) + 1))"
  proof -
    note ind = assign_indep [where env = env and p = "Some url" and se = "\<lambda>a. None" and e = studentEmail
                 and names = names and st = st]
    have 1: "outbox (snd (assignHomework env studentEmail names st)) = outbox st"
      by (cases rule: assign_effects [of env studentEmail names st]) (use off in simp_all)
    have 2: "\<exists>s fs nm. rosterFindByEmail env studentEmail = Some s \<and>
           folders st (Drive_Folder_ID s) = Some fs \<and>
           folders (snd (assignHomework env studentEmail names st)) (Drive_Folder_ID s)
             = Some (fs @ [\<lparr>sf_id = new_file_id env (created st), sf_name = nm,
                              sf_content = full_prompt (base_prompt env names) (LifeStyle s)\<rparr>]) \<and>
           ledger (snd (assignHomework env studentEmail names st))
             = ledger st @ [ledger_row s (hw_id s (today env)) (new_file_id env (created st))
                              (uuid env (drawn st)) (now_iso env)]"
      if ret: "fst (assignHomework env studentEmail names st) = Inr ()"
    proof (cases rule: assign_effects [of env studentEmail names st])
      case (raised x)
      with ret show ?thesis by simp
    next
      case (assigned s fs nm)
      from assigned(7) have "folders (snd (assignHomework env studentEmail names st)) (Drive_Folder_ID s)
             = Some (fs @ [\<lparr>sf_id = new_file_id env (created st), sf_name = nm,
                              sf_content = full_prompt (base_prompt env names) (LifeStyle s)\<rparr>])" by simp
      with assigned(4,5,6) show ?thesis by blast
    qed
    have 3: "length (outbox (snd (assignHomework (env\<lparr>HOMEWORK_PORTAL_BASEURL := Some url, send_email_error := (\<lambda>a. None)\<rparr>) studentEmail names st)))
             = length (outbox st) + 1"
      if ret: "fst (assignHomework env studentEmail names st) = Inr ()" and url: "url \<noteq> []"
    proof (cases rule: assign_effects [of "env\<lparr>HOMEWORK_PORTAL_BASEURL := Some url, send_email_error := (\<lambda>a. None)\<rparr>" studentEmail names st])
      case (raised x)
      with ret ind(1) show ?thesis by simp
    next
      case (assigned s fs nm)
      show ?thesis unfolding assigned(8) using url by (simp add: falsy_def)
    qed
    from ind(1,2,3) 1 2 3 show ?thesis by simp
  qed
  have B: "fst (assignHomework_v9 env studentEmail names st)
       = fst (assignHomework_v9 (env\<lparr>HOMEWORK_PORTAL_BASEURL := Some url, send_email_error := (\<lambda>a. None)\<rparr>) studentEmail names st) \<and>
     ledger (snd (assignHomework_v9 env studentEmail names st))
       = ledger (snd (assignHomework_v9 (env\<lparr>HOMEWORK_PORTAL_BASEURL := Some url, send_email_error := (\<lambda>a. None)\<rparr>) studentEmail names st)) \<and>
     folders (snd (assignHomework_v9 env studentEmail names st))
       = folders (snd (assignHomework_v9 (env\<lparr>HOMEWORK_PORTAL_BASEURL := Some url, send_email_error := (\<lambda>a. None)\<rparr>) studentEmail names st)) \<and>
     outbox (snd (assignHomework_v9 env studentEmail names st)) = outbox st \<and>
     (fst (assignHomework_v9 env studentEmail names st) = Inr () \<longrightarrow>
        (\<exists>s fs nm. rosterFindByEmail_v9 env studentEmail = Inr (Some s) \<and>
           folders st (Drive_Folder_ID s) = Some fs \<and>
           folders (snd (assignHomework_v9 env studentEmail names st)) (Drive_Folder_ID s)
             = Some (fs @ [\<lparr>sf_id = new_file_id env (created st), sf_name = nm,
                              sf_content = full_prompt (base_prompt env names) (LifeStyle s)\<rparr>]) \<and>
           ledger (snd (assignHomework_v9 env studentEmail names st))
             = ledger st @ [ledger_row s (hw_id s (today env)) (new_file_id env (created st))
                              (uuid env (drawn st)) (now_iso env)]) \<and>
        (url \<noteq> [] \<longrightarrow>
           length (outbox (snd (assignHomework_v9 (env\<lparr>HOMEWORK_PORTAL_BASEURL := Some url, send_email_error := (\<lambda>a. None)\<rparr>) studentEmail names st)))
             = length (outbox st) + 1))"
  proof -
    note ind = assign_v9_indep [where env = env and p = "Some url" and se = "\<lambda>a. None" and e = studentEmail
                 and names = names and st = st]
    have 1: "outbox (snd (assignHomework_v9 env studentEmail names st)) = outbox st"
      by (cases rule: assign_v9_effects [of env studentEmail names st]) (use off in simp_all)
    have 2: "\<exists>s fs nm. rosterFindByEmail_v9 env studentEmail = Inr (Some s) \<and>
           folders st (Drive_Folder_ID s) = Some fs \<and>
           folders (snd (assignHomework_v9 env studentEmail names st)) (Drive_Folder_ID s)
             = Some (fs @ [\<lparr>sf_id = new_file_id env (created st), sf_name = nm,
                              sf_content = full_prompt (base_prompt env names) (LifeStyle s)\<rparr>]) \<and>
           ledger (snd (assignHomework_v9 env studentEmail names st))
             = ledger st @ [ledger_row s (hw_id s (today env)) (new_file_id env (created st))
                              (uuid env (drawn st)) (now_iso env)]"
      if ret: "fst (assignHomework_v9 env studentEmail names st) = Inr ()"
    proof (cases rule: assign_v9_effects [of env studentEmail names st])
      case (raised x)
      with ret show ?thesis by simp
    next
      case (assigned s fs nm)
      from assigned(7) have "folders (snd (assignHomework_v9 env studentEmail names st)) (Drive_Folder_ID s)
             = Some (fs @ [\<lparr>sf_id = new_file_id env (created st), sf_name = nm,
                              sf_content = full_prompt (base_prompt env names) (LifeStyle s)\<rparr>])" by simp
      with assigned(4,5,6) show ?thesis by blast
    qed
    have 3: "length (outbox (snd (assignHomework_v9 (env\<lparr>HOMEWORK_PORTAL_BASEURL := Some url, send_email_error := (\<lambda>a. None)\<rparr>) studentEmail names st)))
             = length (outbox st) + 1"
      if ret: "fst (assignHomework_v9 env studentEmail names st) = Inr ()" and url: "url \<noteq> []"
    proof (cases rule: assign_v9_effects [of "env\<lparr>HOMEWORK_PORTAL_BASEURL := Some url, send_email_error := (\<lambda>a. None)\<rparr>" studentEmail names st])
      case (raised x)
      with ret ind(1) show ?thesis by simp
    next
      case (assigned s fs nm)
      show ?thesis unfolding assigned(8) using url by (simp add: falsy_def)
    qed
    from ind(1,2,3) 1 2 3 show ?thesis by simp
  qed
  from A B show ?thesis by (rule conjI)
qed

theorem assignHomework_unnotified_witness:
  "falsy (HOMEWORK_PORTAL_BASEURL no_portal) \<and>
   fst (assignHomework no_portal ''jane@x.com'' [''Jane_Doe_2024-03-01_AbCdEfGhIj.txt''] demo_state) = Inr () \<and>
   outbox (snd (assignHomework no_portal ''jane@x.com'' [''Jane_Doe_2024-03-01_AbCdEfGhIj.txt''] demo_state)) = [] \<and>
   map (\<lambda>row. row ! 5)
     (ledger (snd (assignHomework no_portal ''jane@x.com'' [''Jane_Doe_2024-03-01_AbCdEfGhIj.txt''] demo_state)))
     = [uuid no_portal 0] \<and>
   send_email_error mail_down ''jane@x.com'' \<noteq> None \<and>
   fst (assignHomework_v9 mail_down ''jane@x.com'' [''Jane_Doe_2024-03-01_AbCdEfGhIj.txt''] demo_state) = Inr () \<and>
   outbox (snd (assignHomework_v9 mail_down ''jane@x.com'' [''Jane_Doe_2024-03-01_AbCdEfGhIj.txt''] demo_state)) = []"
proof -
  have off: "falsy (HOMEWORK_PORTAL_BASEURL no_portal)" by (simp add: no_portal_def falsy_def)
  have off9: "send_email_error mail_down ''jane@x.com'' \<noteq> None" by (simp add: mail_down_def)
  have ret: "fst (assignHomework no_portal ''jane@x.com'' [''Jane_Doe_2024-03-01_AbCdEfGhIj.txt''] demo_state) = Inr ()"
    by code_simp
  have ret9: "fst (assignHomework_v9 mail_down ''jane@x.com'' [''Jane_Doe_2024-03-01_AbCdEfGhIj.txt''] demo_state) = Inr ()"
    by code_simp
  have e: "ledger demo_state = []" "outbox demo_state = []" "drawn demo_state = 0"
    by (simp_all add: demo_state_def)
  note t = assignHomework_unnotified [of no_portal "''jane@x.com''" "[''Jane_Doe_2024-03-01_AbCdEfGhIj.txt'']" demo_state "''u''"]
  note t9 = assignHomework_unnotified [of mail_down "''jane@x.com''" "[''Jane_Doe_2024-03-01_AbCdEfGhIj.txt'']" demo_state "''u''"]
  from t off have o: "outbox (snd (assignHomework no_portal ''jane@x.com'' [''Jane_Doe_2024-03-01_AbCdEfGhIj.txt''] demo_state)) = []"
    using e by simp
  from t off ret obtain s where "ledger (snd (assignHomework no_portal ''jane@x.com'' [''Jane_Doe_2024-03-01_AbCdEfGhIj.txt''] demo_state))
             = ledger demo_state @ [ledger_row s (hw_id s (today no_portal)) (new_file_id no_portal (created demo_state))
                              (uuid no_portal (drawn demo_state)) (now_iso no_portal)]" by blast
  then have l: "map (\<lambda>row. row ! 5)
     (ledger (snd (assignHomework no_portal ''jane@x.com'' [''Jane_Doe_2024-03-01_AbCdEfGhIj.txt''] demo_state)))
     = [uuid no_portal 0]" using e by (simp add: ledger_row_cells)
  from t9 off9 have o9: "outbox (snd (assignHomework_v9 mail_down ''jane@x.com'' [''Jane_Doe_2024-03-01_AbCdEfGhIj.txt''] demo_state)) = []"
    using e by simp
  from off ret o l off9 ret9 o9 show ?thesis by (intro conjI)
qed

end
